theory Spec2Isabelle
  imports Main "HOL-Library.Word"
begin

section \<open>Go runtime pieces used by the sources\<close>

text \<open>
  Go's \<^verbatim>\<open>int\<close> is a 64-bit two's-complement integer on the platforms kube-burner is
  built for: \<open>+\<close> and \<open>*\<close> wrap around, \<^verbatim>\<open>>>\<close> is the arithmetic shift, and the
  conversion \<^verbatim>\<open>byte(x)\<close> keeps the low eight bits.
\<close>

type_synonym go_int = "64 word"
type_synonym int32 = "32 word"
type_synonym byte = "8 word"

text \<open>Decimal formatting of a natural number, as \<^verbatim>\<open>strconv\<close> prints it.\<close>

definition digit_char :: "nat \<Rightarrow> char" where
  "digit_char d = ''0123456789'' ! d"

fun dec :: "nat \<Rightarrow> string" where
  "dec n = (if n < 10 then [digit_char n] else dec (n div 10) @ [digit_char (n mod 10)])"

declare dec.simps [simp del]

text \<open>Decimal formatting of a signed number (\<^verbatim>\<open>%d\<close>, \<^verbatim>\<open>%v\<close> of an integer).\<close>

definition dec_int :: "int \<Rightarrow> string" where
  "dec_int k = (if k < 0 then CHR ''-'' # dec (nat (- k)) else dec (nat k))"

text \<open>
  \<^verbatim>\<open>strings.Split(s, sep)\<close> for a one-character separator: every occurrence of the
  separator ends a field, so the result always has at least one element and two separators
  in a row give an empty field.
\<close>

fun strings_Split :: "string \<Rightarrow> char \<Rightarrow> string list" where
  "strings_Split [] sep = [[]]"
| "strings_Split (c # cs) sep =
     (if c = sep then [] # strings_Split cs sep
      else (case strings_Split cs sep of
              [] \<Rightarrow> [[c]]
            | w # ws \<Rightarrow> (c # w) # ws))"

text \<open>\<^verbatim>\<open>strings.Join(elems, sep)\<close>.\<close>

fun strings_Join :: "string list \<Rightarrow> string \<Rightarrow> string" where
  "strings_Join [] sep = []"
| "strings_Join [x] sep = x"
| "strings_Join (x # y # ys) sep = x @ sep @ strings_Join (y # ys) sep"

text \<open>
  \<^verbatim>\<open>netip.AddrFrom4(b).String()\<close>: the four bytes in decimal, separated by dots.
\<close>

definition AddrFrom4_String :: "byte \<Rightarrow> byte \<Rightarrow> byte \<Rightarrow> byte \<Rightarrow> string" where
  "AddrFrom4_String a b c d =
     dec (unat a) @ ''.'' @ dec (unat b) @ ''.'' @ dec (unat c) @ ''.'' @ dec (unat d)"

section \<open>Template helpers (package util)\<close>

text \<open>
  \<^verbatim>\<open>funcMap["GetSubnet24"]\<close>:
  \<^verbatim>\<open>netip.AddrFrom4([4]byte{byte(subnetIdx>>16 + 1), byte(subnetIdx >> 8), byte(subnetIdx), 0}).String() + "/24"\<close>.
  In Go \<^verbatim>\<open>>>\<close> binds tighter than \<^verbatim>\<open>+\<close>, so the first byte is \<^verbatim>\<open>byte((subnetIdx>>16) + 1)\<close>.
\<close>

definition GetSubnet24 :: "go_int \<Rightarrow> string" where
  "GetSubnet24 subnetIdx =
     AddrFrom4_String (ucast (signed_drop_bit 16 subnetIdx + 1))
                      (ucast (signed_drop_bit 8 subnetIdx))
                      (ucast subnetIdx)
                      0
     @ ''/24''"

text \<open>
  The formula as the specification words it, read over the natural numbers without any
  truncation: \<^verbatim>\<open>"(i>>16+1).(i>>8).i.0/24"\<close>.
\<close>

definition subnetFor24_spec :: "nat \<Rightarrow> string" where
  "subnetFor24_spec i =
     dec (drop_bit 16 i + 1) @ ''.'' @ dec (drop_bit 8 i) @ ''.'' @ dec i @ ''.0/24''"

text \<open>A Go run-time panic of the helpers.\<close>

datatype panic = IndexOutOfRange int nat

text \<open>
  The loop of \<^verbatim>\<open>funcMap["GetIPAddress"]\<close>:
  \<^verbatim>\<open>for i := 0; i < addressesPerIteration; i++ { retAddrs = append(retAddrs, addrSlice[(iteration*addressesPerIteration)+i]) }\<close>.
  The index expression is computed in \<^verbatim>\<open>int\<close>; indexing a slice outside
  \<open>0 \<le> idx < len\<close> panics.
\<close>

function GetIPAddress_loop ::
  "string list \<Rightarrow> go_int \<Rightarrow> go_int \<Rightarrow> go_int \<Rightarrow> string list \<Rightarrow> panic + string list" where
  "GetIPAddress_loop addrSlice iteration addressesPerIteration i retAddrs =
     (if i <s addressesPerIteration then
        (let idx = (iteration * addressesPerIteration) + i in
         if 0 \<le> sint idx \<and> sint idx < int (length addrSlice)
         then GetIPAddress_loop addrSlice iteration addressesPerIteration (i + 1)
                (retAddrs @ [addrSlice ! nat (sint idx)])
         else Inl (IndexOutOfRange (sint idx) (length addrSlice)))
      else Inr retAddrs)"
  by pat_completeness auto

lemma sint_succ_below:
  fixes i n :: go_int
  assumes "i <s n"
  shows "sint (i + 1) = sint i + 1"
proof -
  have a: "sint i < sint n" using assms by (simp add: word_sless_alt)
  have b: "sint n < 2 ^ 63" using sint_lt [of n] by simp
  have c: "- (2 ^ 63) \<le> sint i" using sint_ge [of i] by simp
  have "sint (i + 1) = signed_take_bit 63 (sint i + 1)"
    by (simp add: sint_word_ariths)
  also have "\<dots> = sint i + 1"
    using a b c by (intro signed_take_bit_int_eq_self) auto
  finally show ?thesis .
qed

termination GetIPAddress_loop
proof (relation "measure (\<lambda>(addrSlice, iteration, n, i, retAddrs). nat (sint n - sint i))")
  show "wf (measure (\<lambda>(addrSlice, iteration, n, i, retAddrs). nat (sint n - sint i)))"
    by simp
next
  fix addrSlice :: "string list" and iteration n i :: go_int and retAddrs :: "string list"
    and idx :: go_int
  assume "i <s n"
  then show "((addrSlice, iteration, n, i + 1, retAddrs @ [addrSlice ! nat (sint idx)]),
              (addrSlice, iteration, n, i, retAddrs))
             \<in> measure (\<lambda>(addrSlice, iteration, n, i, retAddrs). nat (sint n - sint i))"
    using sint_succ_below [of i n] by (simp add: word_sless_alt)
qed

declare GetIPAddress_loop.simps [simp del]

definition GetIPAddress :: "string \<Rightarrow> go_int \<Rightarrow> go_int \<Rightarrow> panic + string" where
  "GetIPAddress Addresses iteration addressesPerIteration =
     (let addrSlice = strings_Split Addresses CHR '' '' in
      case GetIPAddress_loop addrSlice iteration addressesPerIteration 0 [] of
        Inl p \<Rightarrow> Inl p
      | Inr retAddrs \<Rightarrow> Inr (strings_Join retAddrs '' ''))"

section \<open>Service latency measurement (package measurements)\<close>

subsection \<open>Kubernetes objects and the measurement's own records\<close>

text \<open>
  The parts of \<^verbatim>\<open>corev1.Service\<close> and \<^verbatim>\<open>corev1.Endpoints\<close> the measurement reads. Nested
  structs are flattened, the prefix of a field names its path (\<open>spec_Type\<close> is
  \<^verbatim>\<open>svc.Spec.Type\<close>). \<^verbatim>\<open>corev1.ServiceType\<close> and \<^verbatim>\<open>corev1.Protocol\<close> are string types.
  Instants are nanoseconds on the time line, durations are nanoseconds.
\<close>

abbreviation ServiceTypeClusterIP :: string where "ServiceTypeClusterIP \<equiv> ''ClusterIP''"
abbreviation ServiceTypeNodePort :: string where "ServiceTypeNodePort \<equiv> ''NodePort''"
abbreviation ServiceTypeLoadBalancer :: string where "ServiceTypeLoadBalancer \<equiv> ''LoadBalancer''"
abbreviation ProtocolTCP :: string where "ProtocolTCP \<equiv> ''TCP''"

record ServicePort =
  Protocol :: string
  Port :: int32
  NodePort :: int32

record LoadBalancerIngress =
  IP :: string
  Hostname :: string

record Service =
  svc_Name :: string
  svc_Namespace :: string
  svc_UID :: string
  svc_CreationTimestamp :: int
  spec_Type :: string
  spec_Ports :: "ServicePort list"
  spec_ClusterIP :: string
  spec_ClusterIPs :: "string list"
  status_Ingress :: "LoadBalancerIngress list"

record EndpointSubset =
  subset_Addresses :: "string list"

record Endpoints =
  Subsets :: "EndpointSubset list"

record Job =
  job_Name :: string
  SkipIndexing :: bool

type_synonym metadata = "(string \<times> string) list"

abbreviation svcLatencyMetric :: string where
  "svcLatencyMetric \<equiv> ''svcLatencyMeasurement''"
abbreviation svcLatencyQuantilesMeasurement :: string where
  "svcLatencyQuantilesMeasurement \<equiv> ''svcLatencyQuantilesMeasurement''"

record svcMetric =
  Timestamp :: int
  IPAssignedLatency :: int
  ReadyLatency :: int
  MetricName :: string
  JobConfig :: Job
  UUID :: string
  Namespace :: string
  Name :: string
  Metadata :: metadata
  ServiceType :: string

text \<open>The fields of \<^verbatim>\<open>metrics.LatencyQuantiles\<close> that this package sets or prints.\<close>

record LatencyQuantiles =
  QuantileName :: string
  q_UUID :: string
  q_JobConfig :: Job
  q_Timestamp :: int
  q_Metadata :: metadata
  q_MetricName :: string
  P50 :: int
  P99 :: int
  q_Max :: int
  q_Avg :: int

text \<open>
  The two slices of \<^verbatim>\<open>[]interface{}\<close> hold samples and quantile summaries.
\<close>

datatype document = SampleDoc svcMetric | QuantilesDoc LatencyQuantiles

record Measurement =
  ServiceTimeout :: int
  ServiceLatencyMetrics :: string

record serviceLatency =
  config :: Measurement
  metrics :: "string \<rightharpoonup> svcMetric"
  latencyQuantiles :: "document list"
  normLatencies :: "document list"

text \<open>
  \<^verbatim>\<open>indexers.Indexer.Index(documents, opts)\<close> returns a response text and an error; the
  indexer is an external collaborator, so it is a parameter of the model. Its second
  argument is \<^verbatim>\<open>opts.MetricName\<close>.
\<close>

type_synonym 'd Indexer = "'d list \<Rightarrow> string \<Rightarrow> string \<times> string option"

text \<open>The process-wide \<^verbatim>\<open>factory\<close> and \<^verbatim>\<open>globalCfg\<close>.\<close>

record measurementFactory =
  jobConfig :: Job
  fac_metadata :: metadata
  indexer :: "document Indexer"

record GlobalConfig =
  cfg_UUID :: string
  RUNID :: string

subsection \<open>The process: log, exit status, probes sent\<close>

datatype level = TraceLevel | DebugLevel | InfoLevel | WarnLevel | ErrorLevel | FatalLevel

text \<open>
  \<^verbatim>\<open>log.Fatal\<close> of logrus writes the entry and then calls \<^verbatim>\<open>os.Exit(1)\<close>; an unrecovered
  panic in a goroutine ends the process as well.
\<close>

datatype proc_status = Running | Exited int | Panicked string

record probe =
  probe_ip :: string
  probe_port :: int32
  probe_start :: int
  probe_end :: int
  probe_err :: "string option"

text \<open>
  What a run leaves outside the measurement's struct: the sequence of logging calls, the
  process status and the sequence of TCP probes (\<^verbatim>\<open>Ping\<close> calls) with the instants at
  which each started and returned.
\<close>

record world =
  log :: "(level \<times> string) list"
  status :: proc_status
  probes :: "probe list"

definition log_add :: "level \<Rightarrow> string \<Rightarrow> world \<Rightarrow> world" where
  "log_add l msg w = w\<lparr>log := log w @ [(l, msg)]\<rparr>"

definition log_Fatal :: "string \<Rightarrow> world \<Rightarrow> world" where
  "log_Fatal msg w = (log_add FatalLevel msg w)\<lparr>status := Exited 1\<rparr>"

subsection \<open>Time\<close>

text \<open>
  \<^verbatim>\<open>time.Duration\<close> is an \<^verbatim>\<open>int64\<close> of nanoseconds; \<^verbatim>\<open>Time.Sub\<close> (and so \<^verbatim>\<open>time.Since\<close>)
  saturates at the largest and smallest duration. \<^verbatim>\<open>Duration.Milliseconds\<close> divides by
  \<open>10^6\<close>, truncating towards zero.
\<close>

definition maxDuration :: int where "maxDuration = 2 ^ 63 - 1"
definition minDuration :: int where "minDuration = - (2 ^ 63)"

definition time_Sub :: "int \<Rightarrow> int \<Rightarrow> int" where
  "time_Sub t u =
     (let d = t - u in
      if d > maxDuration then maxDuration else if d < minDuration then minDuration else d)"

definition Milliseconds :: "int \<Rightarrow> int" where
  "Milliseconds d = sgn d * (\<bar>d\<bar> div 1000000)"

abbreviation Millisecond :: int where "Millisecond \<equiv> 1000000"

subsection \<open>The cluster and the libraries, as the goroutine meets them\<close>

text \<open>
  \<^verbatim>\<open>wait.PollUntilContextCancel\<close>, the two listers, \<^verbatim>\<open>util.NewSvcLatencyChecker\<close> and
  \<^verbatim>\<open>SvcLatencyChecker.Ping\<close> are not part of these sources: they are parameters. A poll
  either returns, some time after it started, with or without an error, or never returns.
  A \<^verbatim>\<open>Ping\<close> returns an error or \<^verbatim>\<open>nil\<close> after some time, or panics (it may be called
  on a nil checker).
\<close>

datatype poll_result = PollReturned nat "string option" | PollBlocked

datatype ping_result = PingReturned nat "string option" | PingPanic string

record SvcLatencyChecker =
  Pod_Status_HostIP :: string

record cluster =
  go_start :: int
  PollUntilContextCancel ::
    "int \<Rightarrow> bool \<Rightarrow> (int \<Rightarrow> bool \<times> string option) \<Rightarrow> int \<Rightarrow> poll_result"
  svcLister_Get :: "int \<Rightarrow> string \<Rightarrow> string \<Rightarrow> string + Service"
  epLister_Get :: "int \<Rightarrow> string \<Rightarrow> string \<Rightarrow> string + Endpoints"
  NewSvcLatencyChecker :: "int \<Rightarrow> nat \<times> (string + SvcLatencyChecker)"
  Ping :: "SvcLatencyChecker option \<Rightarrow> string \<Rightarrow> int32 \<Rightarrow> int \<Rightarrow> int \<Rightarrow> ping_result"


text \<open>
  \<^verbatim>\<open>waitForEndpoints\<close>: poll every 50 ms, at once the first time, until the endpoints object
  of the service's name has a subset with at least one address. The condition never
  returns an error of its own. The last argument is the instant the poll starts at; the
  condition reads the lister's cache at the instant it is evaluated.
\<close>

primrec anySubsetReady :: "EndpointSubset list \<Rightarrow> bool" where
  "anySubsetReady [] = False"
| "anySubsetReady (sub # rest) =
     (if length (subset_Addresses sub) > 0 then True else anySubsetReady rest)"

definition waitForEndpoints :: "cluster \<Rightarrow> Service \<Rightarrow> int \<Rightarrow> poll_result" where
  "waitForEndpoints env svc t =
     PollUntilContextCancel env (50 * Millisecond) True
       (\<lambda>t'. case epLister_Get env t' (svc_Namespace svc) (svc_Name svc) of
                Inl err \<Rightarrow> (False, None)
              | Inr endpoints \<Rightarrow>
                  (if anySubsetReady (Subsets endpoints) then (True, None) else (False, None)))
       t"

text \<open>\<^verbatim>\<open>waitForIngress\<close>: poll every 100 ms until the cached service has an ingress entry.\<close>

definition waitForIngress :: "cluster \<Rightarrow> Service \<Rightarrow> int \<Rightarrow> poll_result" where
  "waitForIngress env svc t =
     PollUntilContextCancel env (100 * Millisecond) True
       (\<lambda>t'. case svcLister_Get env t' (svc_Namespace svc) (svc_Name svc) of
                Inl err \<Rightarrow> (False, None)
              | Inr svc' \<Rightarrow>
                  (if length (status_Ingress svc') > 0 then (True, None) else (False, None)))
       t"

subsection \<open>handleCreateSvc\<close>

text \<open>
  The inner loop of the \<^verbatim>\<open>LoadBalancer\<close> case, which appends to \<^verbatim>\<open>ips\<close>:
  \<^verbatim>\<open>if ingress.IP != "" { ips = append(ips, ingress.Hostname) } else { ips = append(ips, ingress.IP) }\<close>.
\<close>

primrec appendIngress :: "string list \<Rightarrow> LoadBalancerIngress list \<Rightarrow> string list" where
  "appendIngress ips [] = ips"
| "appendIngress ips (ingress # rest) =
     (if IP ingress \<noteq> '''' then appendIngress (ips @ [Hostname ingress]) rest
      else appendIngress (ips @ [IP ingress]) rest)"

text \<open>
  The resolution the specification asks for: the entry's IP when it is not empty, its
  Hostname otherwise.
\<close>

definition ingressTarget_spec :: "LoadBalancerIngress \<Rightarrow> string" where
  "ingressTarget_spec ingress = (if IP ingress \<noteq> '''' then IP ingress else Hostname ingress)"

text \<open>
  The \<^verbatim>\<open>switch svc.Spec.Type\<close> of one TCP port: the new value of \<^verbatim>\<open>ips\<close> and the port to
  probe. \<^verbatim>\<open>ips\<close> is declared once, before the loop over the ports, so the
  \<^verbatim>\<open>LoadBalancer\<close> case appends to what earlier ports left in it. The \<^verbatim>\<open>NodePort\<close> case
  reads a field through \<^verbatim>\<open>svcLatencyChecker\<close>, which is nil when its creation failed.
\<close>

datatype targets = Targets "string list" int32 | Unsupported | NilDereference

definition resolveTargets ::
  "SvcLatencyChecker option \<Rightarrow> Service \<Rightarrow> ServicePort \<Rightarrow> string list \<Rightarrow> targets" where
  "resolveTargets svcLatencyChecker svc specPort ips =
     (if spec_Type svc = ServiceTypeClusterIP then Targets (spec_ClusterIPs svc) (Port specPort)
      else if spec_Type svc = ServiceTypeNodePort then
        (case svcLatencyChecker of
           None \<Rightarrow> NilDereference
         | Some c \<Rightarrow> Targets [Pod_Status_HostIP c] (NodePort specPort))
      else if spec_Type svc = ServiceTypeLoadBalancer then
        Targets (appendIngress ips (status_Ingress svc)) (Port specPort)
      else Unsupported)"

text \<open>
  \<^verbatim>\<open>for _, ip := range ips { err = svcLatencyChecker.Ping(ip, port, timeout); if err != nil { log.Error(err); return } }\<close>.
  The loop either runs to its end, at some instant, or ends the goroutine.
\<close>

datatype loop_result = Continue int world | Return world

fun pingAll ::
  "cluster \<Rightarrow> SvcLatencyChecker option \<Rightarrow> int32 \<Rightarrow> int \<Rightarrow> string list \<Rightarrow> int \<Rightarrow> world \<Rightarrow> loop_result" where
  "pingAll env chk port timeout [] t w = Continue t w"
| "pingAll env chk port timeout (ip # ips) t w =
     (case Ping env chk ip port timeout t of
        PingPanic msg \<Rightarrow> Return (w\<lparr>status := Panicked msg\<rparr>)
      | PingReturned d err \<Rightarrow>
          (let w' = w\<lparr>probes := probes w @
                        [\<lparr>probe_ip = ip, probe_port = port, probe_start = t,
                          probe_end = t + int d, probe_err = err\<rparr>]\<rparr>
           in case err of
                Some e \<Rightarrow> Return (log_add ErrorLevel e w')
              | None \<Rightarrow> pingAll env chk port timeout ips (t + int d) w'))"

text \<open>\<^verbatim>\<open>for _, specPort := range svc.Spec.Ports\<close>, with \<^verbatim>\<open>ips\<close> carried from port to port.\<close>

fun probePorts ::
  "cluster \<Rightarrow> SvcLatencyChecker option \<Rightarrow> int \<Rightarrow> Service \<Rightarrow> ServicePort list \<Rightarrow>
   string list \<Rightarrow> int \<Rightarrow> world \<Rightarrow> loop_result" where
  "probePorts env chk timeout svc [] ips t w = Continue t w"
| "probePorts env chk timeout svc (specPort # rest) ips t w =
     (if Protocol specPort = ProtocolTCP then
        (case resolveTargets chk svc specPort ips of
           Unsupported \<Rightarrow>
             Return (log_add WarnLevel
                       (''Service type '' @ spec_Type svc @ '' not supported, skipping'') w)
         | NilDereference \<Rightarrow>
             Return (w\<lparr>status := Panicked ''invalid memory address or nil pointer dereference''\<rparr>)
         | Targets ips' port \<Rightarrow>
             (case pingAll env chk port timeout ips' t w of
                Return w' \<Rightarrow> Return w'
              | Continue t' w' \<Rightarrow> probePorts env chk timeout svc rest ips' t' w'))
      else probePorts env chk timeout svc rest ips t w)"

text \<open>
  The first part of the goroutine: \<^verbatim>\<open>now := time.Now()\<close>, the wait for the ingress of a
  load balancer, the wait for the endpoints, \<^verbatim>\<open>endpointsReadyTs := time.Now().UTC()\<close>.
  It ends the goroutine (\<open>Inl\<close>: the process has exited through \<^verbatim>\<open>log.Fatal\<close>, or the
  goroutine stays blocked in a poll) or gives \<^verbatim>\<open>ipAssignedLatency\<close> and
  \<^verbatim>\<open>endpointsReadyTs\<close>.
\<close>

definition waitPhase :: "cluster \<Rightarrow> Service \<Rightarrow> world \<Rightarrow> world + (int \<times> int \<times> world)" where
  "waitPhase env svc w =
     (let now = go_start env in
      case (if spec_Type svc = ServiceTypeLoadBalancer then
              (case waitForIngress env svc now of
                 PollBlocked \<Rightarrow> Inl w
               | PollReturned d (Some err) \<Rightarrow> Inl (log_Fatal err w)
               | PollReturned d None \<Rightarrow> Inr (time_Sub (now + int d) now, now + int d))
            else Inr (0, now)) of
        Inl w' \<Rightarrow> Inl w'
      | Inr (ipAssignedLatency, t) \<Rightarrow>
          (case waitForEndpoints env svc t of
             PollBlocked \<Rightarrow> Inl w
           | PollReturned d (Some err) \<Rightarrow> Inl (log_Fatal err w)
           | PollReturned d None \<Rightarrow>
               Inr (ipAssignedLatency, t + int d,
                    log_add DebugLevel
                      (''Endpoints '' @ svc_Namespace svc @ ''/'' @ svc_Name svc @ '' ready'') w)))"

text \<open>
  The second part: the creation of the checker, whose failure is logged and leaves it nil,
  and the loop over the ports, starting at \<^verbatim>\<open>endpointsReadyTs\<close> with an empty \<^verbatim>\<open>ips\<close>.
\<close>

definition probePhase :: "cluster \<Rightarrow> serviceLatency \<Rightarrow> Service \<Rightarrow> int \<Rightarrow> world \<Rightarrow> loop_result" where
  "probePhase env s svc endpointsReadyTs w =
     (case NewSvcLatencyChecker env endpointsReadyTs of
        (d, Inl err) \<Rightarrow>
          probePorts env None (ServiceTimeout (config s)) svc (spec_Ports svc) []
            (endpointsReadyTs + int d) (log_add ErrorLevel err w)
      | (d, Inr c) \<Rightarrow>
          probePorts env (Some c) (ServiceTimeout (config s)) svc (spec_Ports svc) []
            (endpointsReadyTs + int d) w)"

text \<open>The sample stored at the end, under the lock.\<close>

definition newSample ::
  "measurementFactory \<Rightarrow> GlobalConfig \<Rightarrow> Service \<Rightarrow> int \<Rightarrow> int \<Rightarrow> svcMetric" where
  "newSample fac globalCfg svc svcLatency ipAssignedLatency =
     \<lparr>Timestamp = svc_CreationTimestamp svc,
      IPAssignedLatency = ipAssignedLatency,
      ReadyLatency = svcLatency,
      MetricName = svcLatencyMetric,
      JobConfig = jobConfig fac,
      UUID = cfg_UUID globalCfg,
      Namespace = svc_Namespace svc,
      Name = svc_Name svc,
      Metadata = fac_metadata fac,
      ServiceType = spec_Type svc\<rparr>"

text \<open>
  \<^verbatim>\<open>handleCreateSvc\<close> logs the new service and starts a goroutine. The model runs the
  goroutine to its end (or to the poll it stays blocked in) before it returns: the
  goroutine shares nothing with other goroutines but the log and the metrics map, which it
  writes once, under \<^verbatim>\<open>metricLock\<close>, so a run of the program is a sequence of such runs
  in the order of their writes. A process that has exited or panicked runs nothing.
\<close>

definition handleCreateSvc ::
  "cluster \<Rightarrow> measurementFactory \<Rightarrow> GlobalConfig \<Rightarrow> Service \<Rightarrow>
   serviceLatency \<times> world \<Rightarrow> serviceLatency \<times> world" where
  "handleCreateSvc env fac globalCfg svc sw =
     (let s = fst sw; w = snd sw in
      if status w \<noteq> Running then (s, w)
      else
        (let w0 = log_add DebugLevel
                    (''New service created: '' @ svc_Namespace svc @ ''/'' @ svc_Name svc) w
         in case waitPhase env svc w0 of
              Inl w' \<Rightarrow> (s, w')
            | Inr (ipAssignedLatency, endpointsReadyTs, w1) \<Rightarrow>
                (case probePhase env s svc endpointsReadyTs w1 of
                   Return w' \<Rightarrow> (s, w')
                 | Continue t w2 \<Rightarrow>
                     (let svcLatency = time_Sub t endpointsReadyTs;
                          w3 = log_add DebugLevel
                                 (''Service '' @ svc_Namespace svc @ ''/'' @ svc_Name svc @
                                  '' latency was: '' @ dec_int (Milliseconds svcLatency) @ ''ms'') w2
                      in (s\<lparr>metrics := (metrics s)(svc_UID svc \<mapsto>
                                newSample fac globalCfg svc svcLatency ipAssignedLatency)\<rparr>,
                          w3)))))"

text \<open>The handler run for a sequence of service events, each with the cluster it meets.\<close>

fun handleAll ::
  "measurementFactory \<Rightarrow> GlobalConfig \<Rightarrow> (cluster \<times> Service) list \<Rightarrow>
   serviceLatency \<times> world \<Rightarrow> serviceLatency \<times> world" where
  "handleAll fac globalCfg [] sw = sw"
| "handleAll fac globalCfg ((env, svc) # rest) sw =
     handleAll fac globalCfg rest (handleCreateSvc env fac globalCfg svc sw)"

subsection \<open>Concrete clusters and services\<close>

text \<open>
  A poll that evaluates its condition at the instants \<open>t\<close>, \<open>t + interval\<close>, \<dots> at most
  \<open>n\<close> times and returns as \<^verbatim>\<open>wait.PollUntilContextCancel\<close> does: the condition's error if
  it has one, \<^verbatim>\<open>nil\<close> when the condition holds. A poll whose condition has not held by then
  stays blocked: the context of the two waits is \<^verbatim>\<open>context.TODO()\<close>, which is never
  cancelled.
\<close>

fun pollTicks ::
  "nat \<Rightarrow> int \<Rightarrow> (int \<Rightarrow> bool \<times> string option) \<Rightarrow> int \<Rightarrow> nat \<Rightarrow> poll_result" where
  "pollTicks n interval cond t elapsed =
     (if n = 0 then PollBlocked
      else (case cond (t + int elapsed) of
              (done, Some err) \<Rightarrow> PollReturned elapsed (Some err)
            | (True, None) \<Rightarrow> PollReturned elapsed None
            | (False, None) \<Rightarrow> pollTicks (n - 1) interval cond t (elapsed + nat interval)))"

declare pollTicks.simps [simp del]

definition demoJob :: Job where
  "demoJob = \<lparr>job_Name = ''namespaced'', SkipIndexing = False\<rparr>"

definition demoFactory :: measurementFactory where
  "demoFactory =
     \<lparr>jobConfig = demoJob, fac_metadata = [],
      indexer = (\<lambda>documents metricName. ('''', Some ''connection refused''))\<rparr>"

definition demoGlobal :: GlobalConfig where
  "demoGlobal = \<lparr>cfg_UUID = ''run-1'', RUNID = ''run-1''\<rparr>"

text \<open>The measurement as \<^verbatim>\<open>init()\<close> registers it, with \<^verbatim>\<open>svcTimeout: 5s\<close>.\<close>

definition initialMeasurement :: serviceLatency where
  "initialMeasurement =
     \<lparr>config = \<lparr>ServiceTimeout = 5000 * Millisecond, ServiceLatencyMetrics = ''''\<rparr>,
      metrics = Map.empty, latencyQuantiles = [], normLatencies = []\<rparr>"

definition freshWorld :: world where
  "freshWorld = \<lparr>log = [], status = Running, probes = []\<rparr>"

definition readyEndpoints :: Endpoints where
  "readyEndpoints = \<lparr>Subsets = [\<lparr>subset_Addresses = [''10.244.0.7'']\<rparr>]\<rparr>"

definition tcpPort :: "int32 \<Rightarrow> ServicePort" where
  "tcpPort p = \<lparr>Protocol = ''TCP'', Port = p, NodePort = 0\<rparr>"

definition clusterIPService :: "string \<Rightarrow> ServicePort list \<Rightarrow> Service" where
  "clusterIPService ip ports =
     \<lparr>svc_Name = ''web'', svc_Namespace = ''namespaced-0'', svc_UID = ''uid-1'',
      svc_CreationTimestamp = 900, spec_Type = ''ClusterIP'', spec_Ports = ports,
      spec_ClusterIP = ip, spec_ClusterIPs = [ip], status_Ingress = []\<rparr>"

definition loadBalancerService :: "LoadBalancerIngress list \<Rightarrow> Service" where
  "loadBalancerService ingress =
     \<lparr>svc_Name = ''lb'', svc_Namespace = ''namespaced-0'', svc_UID = ''uid-2'',
      svc_CreationTimestamp = 900, spec_Type = ''LoadBalancer'', spec_Ports = [tcpPort 80],
      spec_ClusterIP = ''10.96.0.20'', spec_ClusterIPs = [''10.96.0.20''],
      status_Ingress = ingress\<rparr>"

text \<open>
  A cluster in which the goroutine starts at instant 1000, the endpoints of every service
  are ready from instant \<open>1000 + 100 ms\<close> on, the cached service is the one given, the checker is
  created in 2 ms, and a probe takes 5 ms and succeeds except at the targets in \<open>dead\<close>,
  where it gives up after the timeout.
\<close>

definition demoCluster :: "Service \<Rightarrow> string list \<Rightarrow> cluster" where
  "demoCluster cached dead =
     \<lparr>go_start = 1000,
      PollUntilContextCancel = (\<lambda>interval immediate cond t. pollTicks 100 interval cond t 0),
      svcLister_Get = (\<lambda>t ns name. Inr cached),
      epLister_Get = (\<lambda>t ns name. if 1000 + 100 * Millisecond \<le> t then Inr readyEndpoints
                                   else Inl ''endpoints not found''),
      NewSvcLatencyChecker = (\<lambda>t. (2000000, Inr \<lparr>Pod_Status_HostIP = ''192.168.1.10''\<rparr>)),
      Ping = (\<lambda>chk ip port timeout t.
                if ip \<in> set dead then PingReturned (nat timeout) (Some ''timeout waiting for endpoint to be ready'')
                else PingReturned 5000000 None)\<rparr>"

subsection \<open>What a loop over probes leaves behind\<close>

text \<open>
  \<open>probed_ok t w t' w'\<close>: between the instants \<open>t\<close> and \<open>t'\<close> the world went from \<open>w\<close> to
  \<open>w'\<close> by probes that all succeeded, the last of which returned at \<open>t'\<close>; nothing was
  logged and the process status is the same.
  \<open>probe_failed_logged w w'\<close>: from \<open>w\<close> to \<open>w'\<close> probes were added, and for each of them
  that failed the error is in the log at error level and the process status is unchanged.
\<close>

definition probed_ok :: "int \<Rightarrow> world \<Rightarrow> int \<Rightarrow> world \<Rightarrow> bool" where
  "probed_ok t w t' w' \<longleftrightarrow>
     t \<le> t' \<and> log w' = log w \<and> status w' = status w \<and>
     (\<exists>ps. probes w' = probes w @ ps \<and>
           (\<forall>p\<in>set ps. probe_err p = None \<and> t \<le> probe_start p \<and> probe_end p \<le> t') \<and>
           t' = (if ps = [] then t else probe_end (last ps)))"


text \<open>The world a loop ended in, whichever way it ended.\<close>

fun world_of :: "loop_result \<Rightarrow> world" where
  "world_of (Continue t w) = w"
| "world_of (Return w) = w"

text \<open>
  Services for the concrete runs: ClusterIP services with one and with two TCP ports, a
  headless service (\<^verbatim>\<open>clusterIP: None\<close>), and the ingress of a load balancer that reports
  an IP and no hostname.
\<close>

definition onePortService :: Service where
  "onePortService = clusterIPService ''10.96.0.10'' [tcpPort 80]"

definition twoPortService :: Service where
  "twoPortService = clusterIPService ''10.96.0.10'' [tcpPort 80, tcpPort 443]"

definition headlessService :: "ServicePort list \<Rightarrow> Service" where
  "headlessService ports = clusterIPService ''None'' ports"

definition ipOnlyIngress :: "LoadBalancerIngress list" where
  "ipOnlyIngress = [\<lparr>IP = ''10.0.0.1'', Hostname = ''''\<rparr>]"

text \<open>A cluster whose probes take 7 ms.\<close>

definition slowCluster :: "Service \<Rightarrow> cluster" where
  "slowCluster cached =
     (demoCluster cached [])
       \<lparr>Ping := (\<lambda>chk ip port timeout t. PingReturned 7000000 None)\<rparr>"


text \<open>The equations that evaluate a concrete run.\<close>

lemmas run_defs =
  handleCreateSvc_def waitPhase_def probePhase_def waitForEndpoints_def waitForIngress_def
  resolveTargets_def newSample_def log_add_def log_Fatal_def time_Sub_def maxDuration_def
  minDuration_def Milliseconds_def Let_def pollTicks.simps
  demoCluster_def clusterIPService_def loadBalancerService_def tcpPort_def
  initialMeasurement_def freshWorld_def readyEndpoints_def demoFactory_def demoGlobal_def
  demoJob_def dec_int_def dec.simps digit_char_def

subsection \<open>Indexing\<close>

text \<open>
  \<^verbatim>\<open>index()\<close> builds a map from two metric names to the document slices, deletes the samples
  when only quantiles are asked for, and hands each entry to the indexer. The constant
  \<^verbatim>\<open>types.Quantiles\<close> is declared outside these sources and is a parameter. Go ranges over a
  map in no fixed order: with at most two entries, the order is the one written or its reverse.
  The function assigns to no field of the measurement; it returns no value.
\<close>

definition metricMap :: "string \<Rightarrow> serviceLatency \<Rightarrow> (string \<times> document list) list" where
  "metricMap Quantiles s =
     (let m = [(svcLatencyMetric, normLatencies s),
               (svcLatencyQuantilesMeasurement, latencyQuantiles s)]
      in if ServiceLatencyMetrics (config s) = Quantiles
         then filter (\<lambda>entry. fst entry \<noteq> svcLatencyMetric) m
         else m)"

text \<open>The body of the loop, for one \<^verbatim>\<open>metricName, documents\<close>.\<close>

definition index_one :: "measurementFactory \<Rightarrow> world \<Rightarrow> string \<times> document list \<Rightarrow> world" where
  "index_one fac w entry =
     (let metricName = fst entry; documents = snd entry;
          indexingOpts = metricName @ ''-'' @ job_Name (jobConfig fac);
          w1 = log_add DebugLevel
                 (''Indexing ['' @ dec (length documents) @ ''] documents: '' @ metricName) w
      in case indexer fac documents indexingOpts of
           (resp, Some err) \<Rightarrow> log_add ErrorLevel err w1
         | (resp, None) \<Rightarrow> log_add InfoLevel resp w1)"

definition index :: "string \<Rightarrow> bool \<Rightarrow> measurementFactory \<Rightarrow> serviceLatency \<Rightarrow> world \<Rightarrow> world" where
  "index Quantiles reversed fac s w =
     foldl (index_one fac) w
       (if reversed then rev (metricMap Quantiles s) else metricMap Quantiles s)"

text \<open>
  \<^verbatim>\<open>IndexJobSummary\<close> (package burner) copies the summaries into a slice of
  \<^verbatim>\<open>interface{}\<close> and indexes it under the metric name \<^verbatim>\<open>jobSummary\<close>. The summaries are only
  copied, so their type is a parameter.
\<close>

abbreviation jobSummaryMetric :: string where "jobSummaryMetric \<equiv> ''jobSummary''"

definition IndexJobSummary :: "'js list \<Rightarrow> 'js Indexer \<Rightarrow> world \<Rightarrow> world" where
  "IndexJobSummary jobSummaries indexer' w =
     (let w1 = log_add InfoLevel ''Indexing job summaries'' w;
          jobSummariesInt = foldl (\<lambda>acc summary. acc @ [summary]) [] jobSummaries
      in case indexer' jobSummariesInt jobSummaryMetric of
           (resp, Some err) \<Rightarrow> log_add ErrorLevel err w1
         | (resp, None) \<Rightarrow> log_add InfoLevel resp w1)"

text \<open>An indexer that fails on every call, and a measurement that has two documents.\<close>

definition failingIndexer :: "'d Indexer" where
  "failingIndexer documents metricName = ('''', Some ''connection refused'')"

definition stoppedMeasurement :: serviceLatency where
  "stoppedMeasurement =
     initialMeasurement
       \<lparr>normLatencies :=
          [SampleDoc (newSample demoFactory demoGlobal onePortService 7000000 0)],
        latencyQuantiles :=
          [QuantilesDoc \<lparr>QuantileName = ''Ready'', q_UUID = ''run-1'', q_JobConfig = demoJob,
                         q_Timestamp = 2000, q_Metadata = [], q_MetricName = svcLatencyQuantilesMeasurement,
                         P50 = 7000000, P99 = 7000000, q_Max = 7000000, q_Avg = 7000000\<rparr>]\<rparr>"

section \<open>Template rendering (package util)\<close>

subsection \<open>The template engine\<close>

text \<open>
  Modelled from the spec: the engine behind \<^verbatim>\<open>RenderTemplate\<close> (Go's \<^verbatim>\<open>text/template\<close>:
  \<^verbatim>\<open>New\<close>, \<^verbatim>\<open>Option\<close>, \<^verbatim>\<open>Funcs\<close>, \<^verbatim>\<open>Parse\<close>, \<^verbatim>\<open>Execute\<close>) is not part of these sources. The
  model covers the fragment of templates made of literal text, field references
  \<^verbatim>\<open>{{ .Key }}\<close> into a string-keyed map, and calls \<^verbatim>\<open>{{ helper arg ... }}\<close> of a registered
  helper on field references, signed decimal integers and quoted words; a template outside
  the fragment (control actions, pipelines, trim markers) does not parse in the model. It has the two behaviours the specification names:
  parsing or substitution can fail, and a missing key is an error under the policy
  \<^verbatim>\<open>missingkey=error\<close> and the zero value of the map's element type (empty string, zero, or
  no value) under \<^verbatim>\<open>missingkey=zero\<close>.
\<close>

datatype tval = VStr string | VInt int | VNil

text \<open>
  \<^verbatim>\<open>inputData interface{}\<close>: a map from strings to strings, to integers, or to values of any
  type (\<^verbatim>\<open>map[string]interface{}\<close>, as \<^verbatim>\<open>EnvToMap\<close> builds).
\<close>

datatype tdata = StringMap "string \<rightharpoonup> string" | IntMap "string \<rightharpoonup> int" | AnyMap "string \<rightharpoonup> tval"

fun lookup_key :: "tdata \<Rightarrow> string \<Rightarrow> tval option" where
  "lookup_key (StringMap m) k = map_option VStr (m k)"
| "lookup_key (IntMap m) k = map_option VInt (m k)"
| "lookup_key (AnyMap m) k = m k"

fun zero_value :: "tdata \<Rightarrow> tval" where
  "zero_value (StringMap m) = VStr ''''"
| "zero_value (IntMap m) = VInt 0"
| "zero_value (AnyMap m) = VNil"

fun print_value :: "tval \<Rightarrow> string" where
  "print_value (VStr s) = s"
| "print_value (VInt i) = dec_int i"
| "print_value VNil = ''<no value>''"

text \<open>
  A helper of the function map gets its evaluated arguments and may fail. What it reads
  besides its arguments (the clock, the process environment, a random source) is the host
  \<open>'h\<close> of the invocation.
\<close>

type_synonym 'h helper = "'h \<Rightarrow> tval list \<Rightarrow> string + tval"

datatype arg = AField string | ALit tval

datatype node = TextNode string | FieldNode string | CallNode string "arg list"

datatype missingkey = MissingKeyDefaultAction | MissingKeyZeroAction | MissingKeyErrorAction

text \<open>
  \<^verbatim>\<open>Template.Option\<close>: the four option strings it knows; it panics on any other.
\<close>

definition setOption :: "string \<Rightarrow> missingkey option" where
  "setOption opt =
     (if opt = ''missingkey=default'' \<or> opt = ''missingkey=invalid'' then Some MissingKeyDefaultAction
      else if opt = ''missingkey=zero'' then Some MissingKeyZeroAction
      else if opt = ''missingkey=error'' then Some MissingKeyErrorAction
      else None)"

paragraph \<open>Parsing\<close>

datatype piece = PText string | PAction string

definition cons_piece :: "piece \<Rightarrow> string + piece list \<Rightarrow> string + piece list" where
  "cons_piece p r = (case r of Inl e \<Rightarrow> Inl e | Inr ps \<Rightarrow> Inr (p # ps))"

text \<open>
  The lexer cuts the document at \<^verbatim>\<open>{{\<close> and \<^verbatim>\<open>}}\<close>; an action that is not closed is an
  error.
\<close>

fun lex_text :: "string \<Rightarrow> string \<Rightarrow> string + piece list"
  and lex_action :: "string \<Rightarrow> string \<Rightarrow> string + piece list" where
  "lex_text acc [] = Inr [PText (rev acc)]"
| "lex_text acc [c] = Inr [PText (rev (c # acc))]"
| "lex_text acc (c1 # c2 # cs) =
     (if c1 = CHR ''{'' \<and> c2 = CHR ''{'' then cons_piece (PText (rev acc)) (lex_action [] cs)
      else lex_text (c1 # acc) (c2 # cs))"
| "lex_action acc [] = Inl ''unclosed action''"
| "lex_action acc [c] = Inl ''unclosed action''"
| "lex_action acc (c1 # c2 # cs) =
     (if c1 = CHR ''}'' \<and> c2 = CHR ''}'' then cons_piece (PAction (rev acc)) (lex_text [] cs)
      else lex_action (c1 # acc) (c2 # cs))"

definition is_digit :: "char \<Rightarrow> bool" where
  "is_digit c \<longleftrightarrow> c \<in> set ''0123456789''"

definition is_letter :: "char \<Rightarrow> bool" where
  "is_letter c \<longleftrightarrow> c \<in> set ''abcdefghijklmnopqrstuvwxyzABCDEFGHIJKLMNOPQRSTUVWXYZ_''"

definition is_ident :: "string \<Rightarrow> bool" where
  "is_ident s \<longleftrightarrow>
     (case s of [] \<Rightarrow> False | c # cs \<Rightarrow> is_letter c \<and> list_all (\<lambda>x. is_letter x \<or> is_digit x) cs)"

definition is_field :: "string \<Rightarrow> bool" where
  "is_field s \<longleftrightarrow> (case s of [] \<Rightarrow> False | c # cs \<Rightarrow> c = CHR ''.'' \<and> is_ident cs)"

definition digit_val :: "char \<Rightarrow> int" where
  "digit_val c = int (length (takeWhile (\<lambda>d. d \<noteq> c) ''0123456789''))"

definition read_int :: "string \<Rightarrow> int" where
  "read_int s = foldl (\<lambda>n c. 10 * n + digit_val c) 0 s"

text \<open>
  A quoted word: an interpreted string between double quotes, without escapes, or a raw
  string between back quotes.
\<close>

definition is_quoted :: "string \<Rightarrow> bool" where
  "is_quoted s \<longleftrightarrow>
     2 \<le> length s \<and>
     (hd s = CHR 0x22 \<and> last s = CHR 0x22
        \<and> CHR 0x22 \<notin> set (butlast (tl s)) \<and> CHR 0x5C \<notin> set s
      \<or> hd s = CHR 0x60 \<and> last s = CHR 0x60 \<and> CHR 0x60 \<notin> set (butlast (tl s)))"

definition is_number :: "string \<Rightarrow> bool" where
  "is_number s \<longleftrightarrow> s \<noteq> [] \<and> list_all is_digit s"

definition parse_arg :: "string \<Rightarrow> string + arg" where
  "parse_arg a =
     (if is_field a then Inr (AField (tl a))
      else if is_number a then Inr (ALit (VInt (read_int a)))
      else if a \<noteq> [] \<and> hd a = CHR ''-'' \<and> is_number (tl a) then
        Inr (ALit (VInt (- read_int (tl a))))
      else if a \<noteq> [] \<and> hd a = CHR ''+'' \<and> is_number (tl a) then
        Inr (ALit (VInt (read_int (tl a))))
      else if is_quoted a then Inr (ALit (VStr (butlast (tl a))))
      else Inl (''unexpected '' @ a @ '' in operand''))"

fun parse_args :: "string list \<Rightarrow> string + arg list" where
  "parse_args [] = Inr []"
| "parse_args (a # rest) =
     (case parse_arg a of
        Inl e \<Rightarrow> Inl e
      | Inr x \<Rightarrow> (case parse_args rest of Inl e \<Rightarrow> Inl e | Inr xs \<Rightarrow> Inr (x # xs)))"

text \<open>
  One action. The name of a helper is looked up in the function map when the template is
  parsed: a call of a name that is not registered is a parse error.
\<close>

definition parse_action :: "(string \<rightharpoonup> 'h helper) \<Rightarrow> string \<Rightarrow> string + node" where
  "parse_action funcs body =
     (case filter (\<lambda>word. word \<noteq> []) (strings_Split body CHR '' '') of
        [] \<Rightarrow> Inl ''missing value for command''
      | word # args \<Rightarrow>
          if is_field word then
            (if args = [] then Inr (FieldNode (tl word))
             else Inl (''unexpected '' @ hd args @ '' in command''))
          else if is_ident word then
            (case funcs word of
               None \<Rightarrow> Inl (''function '' @ word @ '' not defined'')
             | Some h \<Rightarrow> (case parse_args args of Inl e \<Rightarrow> Inl e | Inr xs \<Rightarrow> Inr (CallNode word xs)))
          else Inl (''unexpected '' @ word @ '' in command''))"

fun parse_pieces :: "(string \<rightharpoonup> 'h helper) \<Rightarrow> piece list \<Rightarrow> string + node list" where
  "parse_pieces funcs [] = Inr []"
| "parse_pieces funcs (PText s # rest) =
     (case parse_pieces funcs rest of Inl e \<Rightarrow> Inl e | Inr ns \<Rightarrow> Inr (TextNode s # ns))"
| "parse_pieces funcs (PAction body # rest) =
     (case parse_action funcs body of
        Inl e \<Rightarrow> Inl e
      | Inr n \<Rightarrow> (case parse_pieces funcs rest of Inl e \<Rightarrow> Inl e | Inr ns \<Rightarrow> Inr (n # ns)))"

definition template_Parse :: "(string \<rightharpoonup> 'h helper) \<Rightarrow> string \<Rightarrow> string + node list" where
  "template_Parse funcs text =
     (case lex_text [] text of Inl e \<Rightarrow> Inl e | Inr pieces \<Rightarrow> parse_pieces funcs pieces)"

paragraph \<open>Execution\<close>

definition eval_field :: "missingkey \<Rightarrow> tdata \<Rightarrow> string \<Rightarrow> string + tval" where
  "eval_field policy inputData k =
     (case lookup_key inputData k of
        Some v \<Rightarrow> Inr v
      | None \<Rightarrow>
          (case policy of
             MissingKeyErrorAction \<Rightarrow> Inl (''map has no entry for key '' @ k)
           | MissingKeyZeroAction \<Rightarrow> Inr (zero_value inputData)
           | MissingKeyDefaultAction \<Rightarrow> Inr VNil))"

fun eval_args :: "missingkey \<Rightarrow> tdata \<Rightarrow> arg list \<Rightarrow> string + tval list" where
  "eval_args policy inputData [] = Inr []"
| "eval_args policy inputData (a # rest) =
     (case (case a of AField k \<Rightarrow> eval_field policy inputData k | ALit v \<Rightarrow> Inr v) of
        Inl e \<Rightarrow> Inl e
      | Inr v \<Rightarrow>
          (case eval_args policy inputData rest of Inl e \<Rightarrow> Inl e | Inr vs \<Rightarrow> Inr (v # vs)))"

definition exec_node ::
  "missingkey \<Rightarrow> (string \<rightharpoonup> 'h helper) \<Rightarrow> 'h \<Rightarrow> tdata \<Rightarrow> node \<Rightarrow> string + string" where
  "exec_node policy funcs host inputData n =
     (case n of
        TextNode s \<Rightarrow> Inr s
      | FieldNode k \<Rightarrow>
          (case eval_field policy inputData k of Inl e \<Rightarrow> Inl e | Inr v \<Rightarrow> Inr (print_value v))
      | CallNode f args \<Rightarrow>
          (case funcs f of
             None \<Rightarrow> Inl (''function '' @ f @ '' not defined'')
           | Some h \<Rightarrow>
               (case eval_args policy inputData args of
                  Inl e \<Rightarrow> Inl e
                | Inr vs \<Rightarrow>
                    (case h host vs of
                       Inl e \<Rightarrow> Inl (''error calling '' @ f @ '': '' @ e)
                     | Inr v \<Rightarrow> Inr (print_value v)))))"

text \<open>
  \<^verbatim>\<open>Execute\<close> writes the nodes in order and stops at the first error.
\<close>

fun template_Execute ::
  "missingkey \<Rightarrow> (string \<rightharpoonup> 'h helper) \<Rightarrow> 'h \<Rightarrow> tdata \<Rightarrow> node list \<Rightarrow> string + string" where
  "template_Execute policy funcs host inputData [] = Inr []"
| "template_Execute policy funcs host inputData (n # ns) =
     (case exec_node policy funcs host inputData n of
        Inl e \<Rightarrow> Inl e
      | Inr out \<Rightarrow>
          (case template_Execute policy funcs host inputData ns of
             Inl e \<Rightarrow> Inl e
           | Inr rest \<Rightarrow> Inr (out @ rest)))"

subsection \<open>RenderTemplate and the function map\<close>

text \<open>
  \<^verbatim>\<open>type templateOption string\<close> with its two constants. \<^verbatim>\<open>funcMap\<close> is a package-level
  variable: \<^verbatim>\<open>AddRenderingFunction\<close> writes it, \<^verbatim>\<open>RenderTemplate\<close> reads it, so it is an
  argument of both.
\<close>

abbreviation MissingKeyError :: string where "MissingKeyError \<equiv> ''missingkey=error''"
abbreviation MissingKeyZero :: string where "MissingKeyZero \<equiv> ''missingkey=zero''"

definition AddRenderingFunction ::
  "string \<Rightarrow> 'h helper \<Rightarrow> (string \<rightharpoonup> 'h helper) \<times> world \<Rightarrow> (string \<rightharpoonup> 'h helper) \<times> world" where
  "AddRenderingFunction name function fw =
     ((fst fw)(name \<mapsto> function),
      log_add DebugLevel (''Importing template function: '' @ name) (snd fw))"

datatype render_result = Rendered string | RenderError string | RenderPanic string

text \<open>
  \<^verbatim>\<open>RenderTemplate(original, inputData, options)\<close>, run with the function map \<open>funcMap\<close> and
  the host \<open>host\<close>: the rendered bytes and a nil error, or nil and an error.
\<close>

definition RenderTemplate ::
  "(string \<rightharpoonup> 'h helper) \<Rightarrow> 'h \<Rightarrow> string \<Rightarrow> tdata \<Rightarrow> string \<Rightarrow> world \<Rightarrow> render_result \<times> world" where
  "RenderTemplate funcMap host original inputData options w =
     (case setOption options of
        None \<Rightarrow> (RenderPanic (''unrecognized option: '' @ options), w\<lparr>status := Panicked ''unrecognized option''\<rparr>)
      | Some policy \<Rightarrow>
          (case template_Parse funcMap original of
             Inl err \<Rightarrow> (RenderError (''parsing error: '' @ err), w)
           | Inr t \<Rightarrow>
               (case template_Execute policy funcMap host inputData t of
                  Inl err \<Rightarrow> (RenderError (''rendering error: '' @ err), w)
                | Inr rendered \<Rightarrow>
                    (Rendered rendered,
                     log_add TraceLevel (''Rendered template: '' @ rendered) w))))"

text \<open>The names of the helpers a parsed template calls, and the keys it refers to.\<close>

fun called :: "node list \<Rightarrow> string list" where
  "called [] = []"
| "called (CallNode f args # ns) = f # called ns"
| "called (n # ns) = called ns"

fun arg_keys :: "arg list \<Rightarrow> string list" where
  "arg_keys [] = []"
| "arg_keys (AField k # rest) = k # arg_keys rest"
| "arg_keys (a # rest) = arg_keys rest"

fun keys_of :: "node list \<Rightarrow> string list" where
  "keys_of [] = []"
| "keys_of (FieldNode k # ns) = k # keys_of ns"
| "keys_of (CallNode f args # ns) = arg_keys args @ keys_of ns"
| "keys_of (n # ns) = keys_of ns"

text \<open>
  The output of a template of text and field references under the zero policy: a key the
  data lacks prints as the zero value.
\<close>

fun zero_render :: "tdata \<Rightarrow> node list \<Rightarrow> string" where
  "zero_render inputData [] = []"
| "zero_render inputData (TextNode s # ns) = s @ zero_render inputData ns"
| "zero_render inputData (FieldNode k # ns) =
     print_value (case lookup_key inputData k of Some v \<Rightarrow> v | None \<Rightarrow> zero_value inputData)
     @ zero_render inputData ns"
| "zero_render inputData (n # ns) = zero_render inputData ns"

text \<open>
  The arguments of a call under the zero policy: a key the data lacks is passed as the zero
  value.
\<close>

definition zero_arg :: "tdata \<Rightarrow> arg \<Rightarrow> tval" where
  "zero_arg inputData a =
     (case a of
        AField k \<Rightarrow> (case lookup_key inputData k of Some v \<Rightarrow> v | None \<Rightarrow> zero_value inputData)
      | ALit v \<Rightarrow> v)"

text \<open>A helper that reads nothing but its arguments.\<close>

definition host_independent :: "'h helper \<Rightarrow> bool" where
  "host_independent h \<longleftrightarrow> (\<forall>host1 host2 args. h host1 args = h host2 args)"

subsection \<open>A concrete function map\<close>

text \<open>
  What a helper can read besides its arguments, for the concrete runs: the clock and the
  environment of the process.
\<close>

record host =
  clock :: int
  environ :: "string \<rightharpoonup> string"

text \<open>
  \<^verbatim>\<open>GetSubnet24\<close> as an entry of the function map: the engine passes it one argument, which
  must be an integer that fits \<^verbatim>\<open>int\<close>. Two helpers of the kind
  \<^verbatim>\<open>sprig.GenericFuncMap()\<close> brings: \<open>now\<close>, which reads the clock, and \<open>env\<close>, which
  reads an environment variable (the empty string when it is not set), as the
  configuration under \<^verbatim>\<open>src/\<close> uses it: \<^verbatim>\<open>gc: {{env "GC"}}\<close>.
\<close>

definition helper_GetSubnet24 :: "'h helper" where
  "helper_GetSubnet24 h args =
     (case args of
        [VInt i] \<Rightarrow>
          if - (2 ^ 63) \<le> i \<and> i < 2 ^ 63 then Inr (VStr (GetSubnet24 (word_of_int i)))
          else Inl (''expected integer; found '' @ dec_int i)
      | _ \<Rightarrow> Inl ''wrong number or type of args for GetSubnet24'')"

definition helper_now :: "host helper" where
  "helper_now h args = Inr (VInt (clock h))"

definition helper_env :: "host helper" where
  "helper_env h args =
     (case args of
        [VStr name] \<Rightarrow> Inr (VStr (case environ h name of Some v \<Rightarrow> v | None \<Rightarrow> []))
      | _ \<Rightarrow> Inl ''wrong number or type of args for env'')"

definition demoFuncMap :: "string \<rightharpoonup> host helper" where
  "demoFuncMap =
     [''GetSubnet24'' \<mapsto> helper_GetSubnet24, ''now'' \<mapsto> helper_now, ''env'' \<mapsto> helper_env]"

definition demoData :: tdata where
  "demoData = AnyMap [''QPS'' \<mapsto> VInt 5, ''ES_SERVER'' \<mapsto> VStr ''http://localhost:9200'']"

definition demoHost :: host where
  "demoHost = \<lparr>clock = 1700000000, environ = [''GC'' \<mapsto> ''true'']\<rparr>"

text \<open>The equations that evaluate a concrete rendering.\<close>

lemmas tmpl_defs =
  RenderTemplate_def setOption_def template_Parse_def parse_action_def parse_arg_def
  is_field_def is_ident_def is_letter_def is_digit_def is_number_def is_quoted_def read_int_def
  digit_val_def
  cons_piece_def exec_node_def eval_field_def demoFuncMap_def demoData_def
  helper_GetSubnet24_def helper_now_def helper_env_def demoHost_def zero_arg_def
  AddRenderingFunction_def
  log_add_def dec_int_def dec.simps digit_char_def

section \<open>Facts about the helpers\<close>

subsection \<open>GetSubnet24: the bytes of a 64-bit integer\<close>

lemma sint_of_nat_go_int:
  assumes "n < 2 ^ 63"
  shows "sint (of_nat n :: go_int) = int n"
proof -
  have "signed_take_bit 63 (int n) = int n"
    using assms by (intro signed_take_bit_int_eq_self) auto
  then show ?thesis
    using sint_sbintrunc' [of "int n", where 'a = 64] by simp
qed

lemma byte_of_go_int: "uint (ucast (w::go_int) :: byte) = sint w mod 256"
proof -
  have "uint (ucast w :: byte) = take_bit 8 (uint w)"
    by (simp add: unsigned_ucast_eq)
  also have "\<dots> = take_bit 8 (take_bit 64 (sint w))"
    by (simp add: uint_sint)
  also have "\<dots> = take_bit 8 (sint w)"
    by simp
  also have "\<dots> = sint w mod 256"
    by (simp add: take_bit_eq_mod)
  finally show ?thesis .
qed

lemma sint_plus1_mod: "sint ((w::go_int) + 1) mod 256 = (sint w + 1) mod 256"
proof -
  have "sint (w + 1) mod 256 = take_bit 8 (signed_take_bit 63 (sint w + 1))"
    by (simp add: sint_word_ariths take_bit_eq_mod)
  also have "\<dots> = take_bit 8 (sint w + 1)"
    by (simp add: take_bit_signed_take_bit)
  finally show ?thesis by (simp add: take_bit_eq_mod)
qed

lemma unat_byte_of_go_int: "unat (ucast (w::go_int) :: byte) = nat (sint w mod 256)"
  using byte_of_go_int [of w] by (simp add: unat_eq_nat_uint)

text \<open>
  Claim C6, as amended. For every non-negative \<^verbatim>\<open>int\<close> value \<open>i\<close> (a natural number
  below \<open>2^63\<close>), \<^verbatim>\<open>GetSubnet24\<close> returns the string \<open>a.b.c.0/24\<close> where each of the three
  numbers is cut to a byte by the \<^verbatim>\<open>byte(...)\<close> conversion: \<open>a = ((i>>16)+1) mod 256\<close>,
  \<open>b = (i>>8) mod 256\<close> and \<open>c = i mod 256\<close>.
\<close>

theorem GetSubnet24_bytes:
  assumes "n < 2 ^ 63"
  shows "GetSubnet24 (of_nat n) =
     dec ((drop_bit 16 n + 1) mod 256) @ ''.'' @ dec (drop_bit 8 n mod 256) @ ''.''
       @ dec (n mod 256) @ ''.0/24''"
proof -
  let ?w = "of_nat n :: go_int"
  have s: "sint ?w = int n" using assms by (rule sint_of_nat_go_int)
  have c: "unat (ucast ?w :: byte) = n mod 256"
    by (simp add: unat_byte_of_go_int s nat_mod_distrib flip: of_nat_mod)
  have b: "unat (ucast (signed_drop_bit 8 ?w) :: byte) = drop_bit 8 n mod 256"
  proof -
    have "int n div 256 mod 256 = int (n div 256 mod 256)"
      by (simp add: zdiv_int zmod_int)
    then show ?thesis
      by (simp add: unat_byte_of_go_int sint_signed_drop_bit_eq s drop_bit_eq_div)
  qed
  have a: "unat (ucast (signed_drop_bit 16 ?w + 1) :: byte) = (drop_bit 16 n + 1) mod 256"
  proof -
    have "sint (signed_drop_bit 16 ?w + 1) mod 256 = (int n div 65536 + 1) mod 256"
      by (simp add: sint_plus1_mod sint_signed_drop_bit_eq s drop_bit_eq_div)
    also have "\<dots> = int ((n div 65536 + 1) mod 256)"
      by (simp add: zdiv_int zmod_int add.commute)
    finally show ?thesis
      by (simp add: unat_byte_of_go_int drop_bit_eq_div)
  qed
  have z: "dec 0 = ''0''" by code_simp
  show ?thesis
    unfolding GetSubnet24_def AddrFrom4_String_def a b c by (simp add: z)
qed

text \<open>
  Witness for claim C6: at \<open>i = 66051 = 0x010203\<close> the helper gives \<open>2.2.3.0/24\<close>.
\<close>

theorem GetSubnet24_bytes_witness:
  "(66051::nat) < 2 ^ 63 \<and> GetSubnet24 (of_nat 66051) = ''2.2.3.0/24''"
proof -
  have h: "(66051::nat) < 2 ^ 63" by simp
  have e: "dec ((drop_bit 16 (66051::nat) + 1) mod 256) @ ''.'' @ dec (drop_bit 8 (66051::nat) mod 256)
           @ ''.'' @ dec ((66051::nat) mod 256) @ ''.0/24'' = ''2.2.3.0/24''"
    by (simp add: drop_bit_eq_div dec.simps digit_char_def)
  show ?thesis using h GetSubnet24_bytes [OF h] e by simp
qed

lemma GetSubnet24_at_256: "GetSubnet24 256 = ''1.1.0.0/24''"
  by code_simp

lemma subnetFor24_spec_at_256: "subnetFor24_spec 256 = ''1.1.256.0/24''"
  by (simp add: subnetFor24_spec_def drop_bit_eq_div dec.simps digit_char_def)

text \<open>
  Counterexample to claim C6 as stated (\<open>c = i\<close>, \<open>b = i>>8\<close> without truncation): at
  \<open>i = 256\<close> the specification's formula reads \<open>1.1.256.0/24\<close>, the code returns
  \<open>1.1.0.0/24\<close>.
\<close>

theorem GetSubnet24_spec_counterexample:
  "GetSubnet24 256 = ''1.1.0.0/24'' \<and> subnetFor24_spec 256 = ''1.1.256.0/24''
   \<and> GetSubnet24 256 \<noteq> subnetFor24_spec 256"
  by (simp add: GetSubnet24_at_256 subnetFor24_spec_at_256)

subsection \<open>GetIPAddress: the window of addresses\<close>

lemma idx_no_overflow:
  fixes it n k :: go_int
  assumes "0 \<le> sint it" "0 \<le> sint k" "sint k < sint n" "(sint it + 1) * sint n < 2 ^ 63"
  shows "sint (it * n + k) = sint it * sint n + sint k"
proof -
  have "sint (it * n + k) = signed_take_bit 63 (signed_take_bit 63 (sint it * sint n) + sint k)"
    by (simp add: sint_word_ariths)
  also have "\<dots> = signed_take_bit 63 (sint it * sint n + sint k)"
    using signed_take_bit_add [of 63 "signed_take_bit 63 (sint it * sint n)" "sint k"]
      signed_take_bit_add [of 63 "sint it * sint n" "sint k"]
    by simp
  also have "\<dots> = sint it * sint n + sint k"
  proof -
    define p where "p = sint it * sint n"
    have nn: "0 \<le> sint n" using assms by linarith
    have p0: "0 \<le> p" unfolding p_def using assms nn by simp
    have "(sint it + 1) * sint n = p + sint n" by (simp add: p_def algebra_simps)
    then have hi: "p + sint n < 9223372036854775808" using assms by simp
    have a: "- (2 ^ 63) \<le> p + sint k" using p0 assms by simp
    have b: "p + sint k < 2 ^ 63" using hi assms by simp
    show ?thesis using a b unfolding p_def by (rule signed_take_bit_int_eq_self)
  qed
  finally show ?thesis .
qed

lemma loop_in_range:
  fixes it n k :: go_int
  assumes "m = nat (sint n - sint k)" "0 \<le> sint it" "0 \<le> sint k" "sint k \<le> sint n"
    "(sint it + 1) * sint n \<le> int (length xs)" "int (length xs) < 2 ^ 63"
  shows "GetIPAddress_loop xs it n k acc =
         Inr (acc @ take m (drop (nat (sint it * sint n + sint k)) xs))"
  using assms
proof (induction m arbitrary: k acc)
  case 0
  then have "\<not> k <s n" by (simp add: word_sless_alt)
  then show ?case by (simp add: GetIPAddress_loop.simps)
next
  case (Suc m)
  then have lt: "k <s n" and lt': "sint k < sint n" by (auto simp: word_sless_alt)
  have ov: "(sint it + 1) * sint n < 2 ^ 63" using Suc.prems by linarith
  have idx: "sint (it * n + k) = sint it * sint n + sint k"
    using Suc.prems lt' ov by (intro idx_no_overflow) auto
  have nn: "0 \<le> sint it * sint n" using Suc.prems lt' by simp
  have "sint it * sint n + sint k < (sint it + 1) * sint n"
    using lt' by (simp add: algebra_simps)
  then have hi: "sint it * sint n + sint k < int (length xs)" using Suc.prems by linarith
  have lo: "0 \<le> sint it * sint n + sint k" using nn Suc.prems by linarith
  have k1: "sint (k + 1) = sint k + 1" using lt by (rule sint_succ_below)
  let ?j = "nat (sint it * sint n + sint k)"
  have jlt: "?j < length xs" using hi lo by linarith
  have step: "GetIPAddress_loop xs it n k acc =
              GetIPAddress_loop xs it n (k + 1) (acc @ [xs ! ?j])"
    using lt idx hi lo by (subst GetIPAddress_loop.simps) (simp add: Let_def)
  have "GetIPAddress_loop xs it n (k + 1) (acc @ [xs ! ?j]) =
        Inr ((acc @ [xs ! ?j]) @ take m (drop (nat (sint it * sint n + sint (k + 1))) xs))"
    using Suc.prems lt' k1 by (intro Suc.IH) auto
  moreover have "nat (sint it * sint n + sint (k + 1)) = Suc ?j"
    using k1 lo by simp
  moreover have "take (Suc m) (drop ?j xs) = xs ! ?j # take m (drop (Suc ?j) xs)"
    using jlt by (simp flip: Cons_nth_drop_Suc)
  ultimately show ?case using step by simp
qed

lemma loop_out_of_range:
  fixes it n k :: go_int
  assumes "m = nat (sint n - sint k)" "0 \<le> sint it" "0 \<le> sint k" "sint k < sint n"
    "int (length xs) < (sint it + 1) * sint n" "(sint it + 1) * sint n < 2 ^ 63"
  shows "\<exists>p. GetIPAddress_loop xs it n k acc = Inl p"
  using assms
proof (induction m arbitrary: k acc)
  case 0
  then show ?case by simp
next
  case (Suc m)
  then have lt: "k <s n" and lt': "sint k < sint n" by (auto simp: word_sless_alt)
  have idx: "sint (it * n + k) = sint it * sint n + sint k"
    using Suc.prems lt' by (intro idx_no_overflow) auto
  have k1: "sint (k + 1) = sint k + 1" using lt by (rule sint_succ_below)
  show ?case
  proof (cases "0 \<le> sint (it * n + k) \<and> sint (it * n + k) < int (length xs)")
    case False
    then show ?thesis using lt by (subst GetIPAddress_loop.simps) (auto simp: Let_def)
  next
    case True
    then have "sint it * sint n + sint k + 1 < (sint it + 1) * sint n"
      using idx Suc.prems by linarith
    then have k1lt: "sint (k + 1) < sint n" using k1 by (simp add: algebra_simps)
    have step: "GetIPAddress_loop xs it n k acc =
          GetIPAddress_loop xs it n (k + 1) (acc @ [xs ! nat (sint (it * n + k))])"
      using lt True by (subst GetIPAddress_loop.simps) (simp add: Let_def)
    have "\<exists>p. GetIPAddress_loop xs it n (k + 1) (acc @ [xs ! nat (sint (it * n + k))]) = Inl p"
      using Suc.prems k1 k1lt by (intro Suc.IH) auto
    then show ?thesis using step by simp
  qed
qed

text \<open>
  Claim C10, as amended. Let the address string split into a list \<open>S\<close> (shorter than
  \<open>2^63\<close>, as every Go slice is), with iteration \<open>i \<ge> 0\<close> and addressesPerIteration
  \<open>n \<ge> 0\<close>. If \<open>(i+1) * n \<le> length S\<close>, \<^verbatim>\<open>GetIPAddress\<close> returns without a panic (every
  access is in bounds) the \<open>n\<close> addresses at indices \<open>i*n\<close> to \<open>(i+1)*n - 1\<close> joined by single
  spaces. If \<open>S\<close> is shorter than \<open>(i+1) * n\<close> and \<open>(i+1) * n\<close> still fits the 64-bit
  \<^verbatim>\<open>int\<close>, the helper panics with an index out of range.
\<close>

theorem GetIPAddress_window:
  fixes iteration n :: go_int
  assumes "0 \<le> sint iteration" and "0 \<le> sint n"
    and "S = strings_Split Addresses CHR '' ''" and "int (length S) < 2 ^ 63"
  shows "((sint iteration + 1) * sint n \<le> int (length S) \<longrightarrow>
            GetIPAddress Addresses iteration n =
              Inr (strings_Join (take (nat (sint n)) (drop (nat (sint iteration * sint n)) S)) '' ''))
       \<and> (int (length S) < (sint iteration + 1) * sint n \<and> (sint iteration + 1) * sint n < 2 ^ 63 \<longrightarrow>
            (\<exists>p. GetIPAddress Addresses iteration n = Inl p))"
proof (intro conjI impI)
  assume fits: "(sint iteration + 1) * sint n \<le> int (length S)"
  have "GetIPAddress_loop S iteration n 0 [] =
        Inr ([] @ take (nat (sint n - sint (0::go_int)))
                    (drop (nat (sint iteration * sint n + sint (0::go_int))) S))"
    using assms fits by (intro loop_in_range) auto
  then show "GetIPAddress Addresses iteration n =
      Inr (strings_Join (take (nat (sint n)) (drop (nat (sint iteration * sint n)) S)) '' '')"
    using assms(3) by (simp add: GetIPAddress_def)
next
  assume short: "int (length S) < (sint iteration + 1) * sint n \<and> (sint iteration + 1) * sint n < 2 ^ 63"
  have pos: "0 < sint n"
  proof (rule ccontr)
    assume "\<not> 0 < sint n"
    then have "sint n = 0" using assms(2) by simp
    then show False using short by simp
  qed
  have "\<exists>p. GetIPAddress_loop S iteration n 0 [] = Inl p"
    using assms short pos by (intro loop_out_of_range [where m = "nat (sint n - sint (0::go_int))"]) auto
  then show "\<exists>p. GetIPAddress Addresses iteration n = Inl p"
    using assms(3) by (auto simp: GetIPAddress_def)
qed

text \<open>
  Witness for claim C10: four addresses, two per iteration, iteration 1 gives the third and
  fourth; three per iteration at iteration 1 panics.
\<close>

theorem GetIPAddress_window_witness:
  "GetIPAddress ''10.0.0.1 10.0.0.2 10.0.0.3 10.0.0.4'' 1 2 = Inr ''10.0.0.3 10.0.0.4''
   \<and> (\<exists>p. GetIPAddress ''10.0.0.1 10.0.0.2 10.0.0.3 10.0.0.4'' 1 3 = Inl p)"
proof -
  let ?A = "''10.0.0.1 10.0.0.2 10.0.0.3 10.0.0.4''"
  let ?S = "[''10.0.0.1'', ''10.0.0.2'', ''10.0.0.3'', ''10.0.0.4'']"
  have S: "?S = strings_Split ?A CHR '' ''" by simp
  have L: "int (length ?S) < 2 ^ 63" by simp
  have p1: "0 \<le> sint (1 :: go_int)" and p2: "0 \<le> sint (2 :: go_int)"
    and p3: "0 \<le> sint (3 :: go_int)" by simp_all
  have a: "GetIPAddress ?A 1 2 = Inr ''10.0.0.3 10.0.0.4''"
    using GetIPAddress_window [OF p1 p2 S L] by simp
  have b: "\<exists>p. GetIPAddress ?A 1 3 = Inl p"
    using GetIPAddress_window [OF p1 p3 S L] by simp
  show ?thesis using a b by (rule conjI)
qed

text \<open>
  Counterexample to claim C10 as stated: with iteration \<open>2^62\<close> and four addresses per
  iteration the list of four addresses is shorter than \<open>(i+1) * n\<close>, but the product
  \<^verbatim>\<open>iteration*addressesPerIteration\<close> wraps around to 0 and the helper returns the four
  addresses instead of panicking. And should the bound \<open>(i+1) * n\<close> of the claim be read in
  \<^verbatim>\<open>int\<close> arithmetic too: with iteration \<open>2^61\<close> it wraps to \<open>4 - 2^63\<close>, which is below the
  length, but the index wraps to \<open>- 2^63\<close> and the helper panics.
\<close>

theorem GetIPAddress_wrap_counterexample:
  "int (length (strings_Split ''a b c d'' CHR '' '')) < (sint (2 ^ 62 :: go_int) + 1) * sint (4 :: go_int)
   \<and> GetIPAddress ''a b c d'' (2 ^ 62) 4 = Inr ''a b c d''
   \<and> sint ((2 ^ 61 + 1) * 4 :: go_int) \<le> int (length (strings_Split ''a b c d'' CHR '' ''))
   \<and> GetIPAddress ''a b c d'' (2 ^ 61) 4 = Inl (IndexOutOfRange (- (2 ^ 63)) 4)"
  by code_simp

section \<open>Facts about the service latency measurement\<close>

subsection \<open>The loops over targets and ports\<close>

lemma probed_ok_refl: "probed_ok t w t w"
  by (simp add: probed_ok_def)

lemma probed_ok_trans:
  assumes "probed_ok t w t' w'" and "probed_ok t' w' t'' w''"
  shows "probed_ok t w t'' w''"
proof -
  from assms(1) obtain ps where ps: "probes w' = probes w @ ps"
    "\<forall>p\<in>set ps. probe_err p = None \<and> t \<le> probe_start p \<and> probe_end p \<le> t'"
    "t' = (if ps = [] then t else probe_end (last ps))"
    and a: "t \<le> t'" "log w' = log w" "status w' = status w"
    unfolding probed_ok_def by blast
  from assms(2) obtain qs where qs: "probes w'' = probes w' @ qs"
    "\<forall>p\<in>set qs. probe_err p = None \<and> t' \<le> probe_start p \<and> probe_end p \<le> t''"
    "t'' = (if qs = [] then t' else probe_end (last qs))"
    and b: "t' \<le> t''" "log w'' = log w'" "status w'' = status w'"
    unfolding probed_ok_def by blast
  have 1: "probes w'' = probes w @ (ps @ qs)" using ps qs by simp
  have 2: "\<forall>p\<in>set (ps @ qs). probe_err p = None \<and> t \<le> probe_start p \<and> probe_end p \<le> t''"
    using ps(2) qs(2) a(1) b(1) by fastforce
  have 3: "t'' = (if ps @ qs = [] then t else probe_end (last (ps @ qs)))"
    using ps(3) qs(3) by simp
  show ?thesis unfolding probed_ok_def using 1 2 3 a b by (intro conjI exI [of _ "ps @ qs"]) auto
qed



lemma pingAll_Continue:
  "pingAll env chk port tmo ips t w = Continue t' w' \<Longrightarrow> probed_ok t w t' w'"
proof (induction ips arbitrary: t w)
  case Nil
  then show ?case by (simp add: probed_ok_refl)
next
  case (Cons ip ips)
  from Cons.prems obtain d where
    p: "Ping env chk ip port tmo t = PingReturned d None" and
    r: "pingAll env chk port tmo ips (t + int d)
          (w\<lparr>probes := probes w @ [\<lparr>probe_ip = ip, probe_port = port, probe_start = t,
                          probe_end = t + int d, probe_err = None\<rparr>]\<rparr>) = Continue t' w'"
    by (auto simp: Let_def split: ping_result.splits option.splits)
  have one: "probed_ok t w (t + int d)
          (w\<lparr>probes := probes w @ [\<lparr>probe_ip = ip, probe_port = port, probe_start = t,
                          probe_end = t + int d, probe_err = None\<rparr>]\<rparr>)"
    by (simp add: probed_ok_def)
  show ?case using probed_ok_trans [OF one Cons.IH [OF r]] .
qed


lemma probePorts_Continue:
  "probePorts env chk tmo svc ports ips t w = Continue t' w' \<Longrightarrow> probed_ok t w t' w'"
proof (induction ports arbitrary: ips t w)
  case Nil
  then show ?case by (simp add: probed_ok_refl)
next
  case (Cons specPort rest)
  show ?case
  proof (cases "Protocol specPort = ProtocolTCP")
    case False
    then show ?thesis using Cons by simp
  next
    case True
    then obtain ips' port t1 w1 where
      a: "resolveTargets chk svc specPort ips = Targets ips' port" and
      b: "pingAll env chk port tmo ips' t w = Continue t1 w1" and
      c: "probePorts env chk tmo svc rest ips' t1 w1 = Continue t' w'"
      using Cons.prems by (auto split: targets.splits loop_result.splits)
    show ?thesis using probed_ok_trans [OF pingAll_Continue [OF b] Cons.IH [OF c]] .
  qed
qed


lemma log_add_fields [simp]:
  "probes (log_add l m w) = probes w" "status (log_add l m w) = status w"
  "log (log_add l m w) = log w @ [(l, m)]"
  by (simp_all add: log_add_def)

lemma log_Fatal_fields [simp]:
  "probes (log_Fatal m w) = probes w" "status (log_Fatal m w) = Exited 1"
  "log (log_Fatal m w) = log w @ [(FatalLevel, m)]"
  by (simp_all add: log_Fatal_def log_add_def)

lemma pingAll_ips:
  "\<exists>ps. probes (world_of (pingAll env chk port tmo ips t w)) = probes w @ ps
        \<and> (\<forall>p\<in>set ps. probe_ip p \<in> set ips)"
proof (induction ips arbitrary: t w)
  case Nil
  then show ?case by simp
next
  case (Cons ip ips)
  show ?case
  proof (cases "Ping env chk ip port tmo t")
    case (PingPanic msg)
    then show ?thesis by simp
  next
    case (PingReturned d err)
    let ?p = "\<lparr>probe_ip = ip, probe_port = port, probe_start = t,
               probe_end = t + int d, probe_err = err\<rparr>"
    let ?w1 = "w\<lparr>probes := probes w @ [?p]\<rparr>"
    show ?thesis
    proof (cases err)
      case (Some e)
      then have "probes (world_of (pingAll env chk port tmo (ip # ips) t w)) = probes w @ [?p]"
        using PingReturned by (simp add: Let_def)
      then show ?thesis by (intro exI [of _ "[?p]"]) simp
    next
      case None
      then have eq: "pingAll env chk port tmo (ip # ips) t w =
                     pingAll env chk port tmo ips (t + int d) ?w1"
        using PingReturned by (simp add: Let_def)
      from Cons.IH [of "t + int d" ?w1] obtain ps where
        ps: "probes (world_of (pingAll env chk port tmo ips (t + int d) ?w1)) = probes ?w1 @ ps"
          "\<forall>p\<in>set ps. probe_ip p \<in> set ips" by blast
      show ?thesis unfolding eq using ps by (intro exI [of _ "?p # ps"]) auto
    qed
  qed
qed

lemma probePorts_ClusterIP_ips:
  assumes "spec_Type svc = ServiceTypeClusterIP"
  shows "\<exists>ps. probes (world_of (probePorts env chk tmo svc ports ips t w)) = probes w @ ps
        \<and> (\<forall>p\<in>set ps. probe_ip p \<in> set (spec_ClusterIPs svc))"
proof (induction ports arbitrary: ips t w)
  case Nil
  then show ?case by simp
next
  case (Cons specPort rest)
  show ?case
  proof (cases "Protocol specPort = ProtocolTCP")
    case False
    then show ?thesis using Cons.IH by simp
  next
    case True
    have tg: "resolveTargets chk svc specPort ips = Targets (spec_ClusterIPs svc) (Port specPort)"
      using assms by (simp add: resolveTargets_def)
    let ?pa = "pingAll env chk (Port specPort) tmo (spec_ClusterIPs svc) t w"
    from pingAll_ips [of env chk "Port specPort" tmo "spec_ClusterIPs svc" t w] obtain ps where
      ps: "probes (world_of ?pa) = probes w @ ps" "\<forall>p\<in>set ps. probe_ip p \<in> set (spec_ClusterIPs svc)"
      by blast
    show ?thesis
    proof (cases ?pa)
      case (Return w1)
      then have "probePorts env chk tmo svc (specPort # rest) ips t w = Return w1"
        using True tg by simp
      then show ?thesis using ps Return by auto
    next
      case (Continue t1 w1)
      then have eq: "probePorts env chk tmo svc (specPort # rest) ips t w =
                     probePorts env chk tmo svc rest (spec_ClusterIPs svc) t1 w1"
        using True tg by simp
      from Cons.IH [of "spec_ClusterIPs svc" t1 w1] obtain qs where
        qs: "probes (world_of (probePorts env chk tmo svc rest (spec_ClusterIPs svc) t1 w1))
               = probes w1 @ qs" "\<forall>p\<in>set qs. probe_ip p \<in> set (spec_ClusterIPs svc)"
        by blast
      have "probes w1 = probes w @ ps" using ps(1) Continue by simp
      then show ?thesis unfolding eq using qs ps(2) by (intro exI [of _ "ps @ qs"]) auto
    qed
  qed
qed

lemma probePorts_first_target_fails:
  assumes "spec_Type svc = ServiceTypeClusterIP" and "spec_ClusterIPs svc = ip # otherIPs"
    and "filter (\<lambda>specPort. Protocol specPort = ProtocolTCP) ports = first # others"
    and "\<forall>chk port tmo t. \<exists>d e. Ping env chk ip port tmo t = PingReturned d (Some e)"
  shows "\<exists>d e. probePorts env chk tmo svc ports ips t w =
           Return (log_add ErrorLevel e
                     (w\<lparr>probes := probes w @
                         [\<lparr>probe_ip = ip, probe_port = Port first, probe_start = t,
                           probe_end = t + int d, probe_err = Some e\<rparr>]\<rparr>))"
  using assms(3)
proof (induction ports arbitrary: ips)
  case Nil
  then show ?case by simp
next
  case (Cons specPort rest)
  show ?case
  proof (cases "Protocol specPort = ProtocolTCP")
    case False
    then show ?thesis using Cons by simp
  next
    case True
    then have f: "specPort = first" using Cons.prems by simp
    obtain d e where "Ping env chk ip (Port specPort) tmo t = PingReturned d (Some e)"
      using assms(4) by blast
    then have "probePorts env chk tmo svc (specPort # rest) ips t w =
           Return (log_add ErrorLevel e
                     (w\<lparr>probes := probes w @
                         [\<lparr>probe_ip = ip, probe_port = Port first, probe_start = t,
                           probe_end = t + int d, probe_err = Some e\<rparr>]\<rparr>))"
      using True assms(1,2) f by (simp add: resolveTargets_def Let_def)
    then show ?thesis by blast
  qed
qed

lemma appendIngress_eq:
  "appendIngress ips ingress =
     ips @ map (\<lambda>i. if IP i \<noteq> '''' then Hostname i else IP i) ingress"
  by (induction ingress arbitrary: ips) auto

subsection \<open>The phases of a run\<close>

lemma waitPhase_Inl:
  assumes "waitPhase env svc w = Inl w'"
  shows "w' = w \<or> (\<exists>err. w' = log_Fatal err w)"
  using assms
  by (auto simp: waitPhase_def Let_def split: if_splits poll_result.splits option.splits sum.splits prod.splits)

lemma waitPhase_Inr:
  assumes "waitPhase env svc w = Inr (ipAssignedLatency, endpointsReadyTs, w1)"
  shows "w1 = log_add DebugLevel
               (''Endpoints '' @ svc_Namespace svc @ ''/'' @ svc_Name svc @ '' ready'') w
         \<and> (\<exists>t d. waitForEndpoints env svc t = PollReturned d None \<and> endpointsReadyTs = t + int d)"
  using assms
  by (auto simp: waitPhase_def Let_def split: if_splits poll_result.splits option.splits sum.splits prod.splits)



lemma probePhase_Continue:
  assumes "probePhase env s svc ets w = Continue t w'"
  shows "status w' = status w \<and>
         (\<exists>ps. probes w' = probes w @ ps \<and>
               (\<forall>p\<in>set ps. probe_err p = None \<and> ets \<le> probe_start p \<and> probe_end p \<le> t) \<and>
               t = (if ps = [] then ets + int (fst (NewSvcLatencyChecker env ets))
                    else probe_end (last ps)))"
proof (cases "NewSvcLatencyChecker env ets")
  case (Pair d r)
  obtain w0 chk where
    run: "probePorts env chk (ServiceTimeout (config s)) svc (spec_Ports svc) [] (ets + int d) w0
            = Continue t w'"
    and w0: "probes w0 = probes w" "status w0 = status w"
    using assms Pair by (cases r) (auto simp: probePhase_def)
  from probePorts_Continue [OF run] obtain ps where
    ps: "probes w' = probes w0 @ ps"
      "\<forall>p\<in>set ps. probe_err p = None \<and> ets + int d \<le> probe_start p \<and> probe_end p \<le> t"
      "t = (if ps = [] then ets + int d else probe_end (last ps))"
    and st: "status w' = status w0"
    unfolding probed_ok_def by blast
  have "\<forall>p\<in>set ps. probe_err p = None \<and> ets \<le> probe_start p \<and> probe_end p \<le> t"
    using ps(2) by fastforce
  then show ?thesis using ps w0 st Pair by auto
qed

lemma waitPhase_not_LoadBalancer:
  assumes "spec_Type svc \<noteq> ServiceTypeLoadBalancer"
    and "waitForEndpoints env svc (go_start env) = PollReturned d None"
  shows "waitPhase env svc w =
           Inr (0, go_start env + int d,
                log_add DebugLevel
                  (''Endpoints '' @ svc_Namespace svc @ ''/'' @ svc_Name svc @ '' ready'') w)"
  using assms by (simp add: waitPhase_def Let_def)

lemma probePhase_as_probePorts:
  "\<exists>chk wc. probePhase env s svc ets w =
       probePorts env chk (ServiceTimeout (config s)) svc (spec_Ports svc) []
         (ets + int (fst (NewSvcLatencyChecker env ets))) wc
     \<and> probes wc = probes w \<and> status wc = status w
     \<and> (\<forall>entry. entry \<in> set (log w) \<longrightarrow> entry \<in> set (log wc))"
proof (cases "NewSvcLatencyChecker env ets")
  case (Pair d r)
  show ?thesis
  proof (cases r)
    case (Inl err)
    then have "probePhase env s svc ets w =
        probePorts env None (ServiceTimeout (config s)) svc (spec_Ports svc) []
          (ets + int (fst (NewSvcLatencyChecker env ets))) (log_add ErrorLevel err w)"
      using Pair by (simp add: probePhase_def)
    then show ?thesis
      by (intro exI [of _ None] exI [of _ "log_add ErrorLevel err w"]) simp
  next
    case (Inr c)
    then have "probePhase env s svc ets w =
        probePorts env (Some c) (ServiceTimeout (config s)) svc (spec_Ports svc) []
          (ets + int (fst (NewSvcLatencyChecker env ets))) w"
      using Pair by (simp add: probePhase_def)
    then show ?thesis
      by (intro exI [of _ "Some c"] exI [of _ w]) simp
  qed
qed


lemma handleCreateSvc_cases:
  "fst (handleCreateSvc env fac globalCfg svc (s, w)) = s
   \<or> (\<exists>m. fst (handleCreateSvc env fac globalCfg svc (s, w))
            = s\<lparr>metrics := (metrics s)(svc_UID svc \<mapsto> m)\<rparr>)"
  by (auto simp: handleCreateSvc_def Let_def split: sum.splits prod.splits loop_result.splits)

lemma handleCreateSvc_dom:
  "dom (metrics (fst (handleCreateSvc env fac globalCfg svc (s, w))))
     \<subseteq> insert (svc_UID svc) (dom (metrics s))"
  using handleCreateSvc_cases [of env fac globalCfg svc s w] by auto

lemma handleAll_dom:
  "dom (metrics (fst (handleAll fac globalCfg runs sw)))
     \<subseteq> dom (metrics (fst sw)) \<union> svc_UID ` snd ` set runs"
proof (induction runs arbitrary: sw)
  case Nil
  then show ?case by simp
next
  case (Cons run rest)
  obtain env svc where run: "run = (env, svc)" by (cases run)
  obtain s w where sw: "sw = (s, w)" by (cases sw)
  have "dom (metrics (fst (handleAll fac globalCfg rest (handleCreateSvc env fac globalCfg svc sw))))
        \<subseteq> dom (metrics (fst (handleCreateSvc env fac globalCfg svc sw))) \<union> svc_UID ` snd ` set rest"
    by (rule Cons.IH)
  moreover have "dom (metrics (fst (handleCreateSvc env fac globalCfg svc sw)))
        \<subseteq> insert (svc_UID svc) (dom (metrics (fst sw)))"
    unfolding sw using handleCreateSvc_dom by simp
  ultimately show ?case unfolding run by auto
qed

subsection \<open>The targets of a load balancer\<close>

text \<open>
  Claim C1 (the code departs from it). For a load balancer whose only ingress entry has the
  IP \<open>10.0.0.1\<close> and no hostname, the target the specification asks for is \<open>10.0.0.1\<close>, but
  the run probes the empty string: the loop appends the Hostname when the IP is not empty,
  and the (empty) IP when it is.
\<close>

theorem LoadBalancer_targets_swapped:
  "map probe_ip
     (probes (snd (handleCreateSvc (demoCluster (loadBalancerService ipOnlyIngress) [''''])
                     demoFactory demoGlobal (loadBalancerService ipOnlyIngress)
                     (initialMeasurement, freshWorld)))) = ['''']
   \<and> map ingressTarget_spec (status_Ingress (loadBalancerService ipOnlyIngress)) = [''10.0.0.1'']
   \<and> appendIngress [] [\<lparr>IP = ''10.0.0.1'', Hostname = ''lb.example.com''\<rparr>] = [''lb.example.com'']
   \<and> appendIngress [] [\<lparr>IP = '''', Hostname = ''lb.example.com''\<rparr>] = ['''']"
  by (simp add: run_defs ipOnlyIngress_def ingressTarget_spec_def)

subsection \<open>Failed waits and failed probes\<close>
















subsection \<open>Headless services\<close>

lemma probePorts_single_target_answers:
  assumes "spec_Type svc = ServiceTypeClusterIP" and "spec_ClusterIPs svc = [ip]"
    and "\<forall>chk port tmo t. \<exists>d. Ping env chk ip port tmo t = PingReturned d None"
  shows "\<exists>t' w' ps. probePorts env chk tmo svc ports ips t w = Continue t' w'
           \<and> probes w' = probes w @ ps
           \<and> map (\<lambda>p. (probe_ip p, probe_port p, probe_err p)) ps
               = map (\<lambda>specPort. (ip, Port specPort, None))
                   (filter (\<lambda>specPort. Protocol specPort = ProtocolTCP) ports)"
proof (induction ports arbitrary: ips t w)
  case Nil
  then show ?case by simp
next
  case (Cons specPort rest)
  show ?case
  proof (cases "Protocol specPort = ProtocolTCP")
    case False
    then show ?thesis using Cons.IH [of ips t w] by simp
  next
    case True
    obtain d where p: "Ping env chk ip (Port specPort) tmo t = PingReturned d None"
      using assms(3) by blast
    let ?p = "\<lparr>probe_ip = ip, probe_port = Port specPort, probe_start = t,
               probe_end = t + int d, probe_err = None\<rparr>"
    let ?w1 = "w\<lparr>probes := probes w @ [?p]\<rparr>"
    have eq: "probePorts env chk tmo svc (specPort # rest) ips t w
              = probePorts env chk tmo svc rest [ip] (t + int d) ?w1"
      using True assms(1,2) p by (simp add: resolveTargets_def Let_def)
    from Cons.IH [of "[ip]" "t + int d" ?w1] obtain t' w' ps where
      r: "probePorts env chk tmo svc rest [ip] (t + int d) ?w1 = Continue t' w'"
         "probes w' = probes ?w1 @ ps"
         "map (\<lambda>p. (probe_ip p, probe_port p, probe_err p)) ps
               = map (\<lambda>specPort. (ip, Port specPort, None))
                   (filter (\<lambda>specPort. Protocol specPort = ProtocolTCP) rest)"
      by blast
    show ?thesis unfolding eq using r True
      by (intro exI [of _ t'] exI [of _ w'] exI [of _ "?p # ps"]) simp
  qed
qed


text \<open>
  Claim C3, as amended. \<^verbatim>\<open>handleCreateSvc\<close> has no case for headless services: a service of
  type ClusterIP with \<^verbatim>\<open>spec.clusterIP\<close> \<open>None\<close> (and \<^verbatim>\<open>clusterIPs\<close> holding just that) is
  handled like any other ClusterIP service, with the literal target \<open>None\<close>. Every TCP probe
  of the run goes to \<open>None\<close>. Once \<^verbatim>\<open>waitForEndpoints\<close> has returned: when the service has a
  TCP port and \<open>None\<close> does not answer, exactly one probe is sent, to \<open>None\<close> at the first TCP
  port; its error is logged at error level, no sample is stored and the process keeps
  running. When \<open>None\<close> answers, one probe is sent for each TCP port, in order, all to
  \<open>None\<close>, and a sample is stored under the service's uid; so a headless service without a
  TCP port gets a sample without any probe.
\<close>

theorem headless_service_probed:
  assumes "status w = Running" and "spec_Type svc = ServiceTypeClusterIP"
    and "spec_ClusterIP svc = ''None''" and "spec_ClusterIPs svc = [spec_ClusterIP svc]"
  shows "(\<forall>p\<in>set (drop (length (probes w))
                    (probes (snd (handleCreateSvc env fac globalCfg svc (s, w))))).
            probe_ip p = ''None'')
       \<and> (waitForEndpoints env svc (go_start env) = PollReturned d None
           \<and> filter (\<lambda>specPort. Protocol specPort = ProtocolTCP) (spec_Ports svc) \<noteq> []
           \<and> (\<forall>chk port tmo t. \<exists>d e. Ping env chk ''None'' port tmo t = PingReturned d (Some e))
           \<longrightarrow> (\<exists>p e. drop (length (probes w))
                         (probes (snd (handleCreateSvc env fac globalCfg svc (s, w)))) = [p]
                    \<and> probe_ip p = ''None''
                    \<and> probe_port p
                        = Port (hd (filter (\<lambda>specPort. Protocol specPort = ProtocolTCP) (spec_Ports svc)))
                    \<and> probe_err p = Some e
                    \<and> (ErrorLevel, e) \<in> set (log (snd (handleCreateSvc env fac globalCfg svc (s, w)))))
               \<and> fst (handleCreateSvc env fac globalCfg svc (s, w)) = s
               \<and> status (snd (handleCreateSvc env fac globalCfg svc (s, w))) = Running)
       \<and> (waitForEndpoints env svc (go_start env) = PollReturned d None
           \<and> (\<forall>chk port tmo t. \<exists>d. Ping env chk ''None'' port tmo t = PingReturned d None)
           \<longrightarrow> map (\<lambda>p. (probe_ip p, probe_port p, probe_err p))
                  (drop (length (probes w))
                     (probes (snd (handleCreateSvc env fac globalCfg svc (s, w)))))
                 = map (\<lambda>specPort. (''None'', Port specPort, None))
                     (filter (\<lambda>specPort. Protocol specPort = ProtocolTCP) (spec_Ports svc))
               \<and> (\<exists>svcLatency. fst (handleCreateSvc env fac globalCfg svc (s, w)) =
                      s\<lparr>metrics := (metrics s)(svc_UID svc \<mapsto>
                           newSample fac globalCfg svc svcLatency 0)\<rparr>))"
proof -
  let ?w0 = "log_add DebugLevel
               (''New service created: '' @ svc_Namespace svc @ ''/'' @ svc_Name svc) w"
  let ?w1 = "log_add DebugLevel
               (''Endpoints '' @ svc_Namespace svc @ ''/'' @ svc_Name svc @ '' ready'') ?w0"
  let ?r = "handleCreateSvc env fac globalCfg svc (s, w)"
  let ?tcp = "filter (\<lambda>specPort. Protocol specPort = ProtocolTCP) (spec_Ports svc)"
  let ?new = "drop (length (probes w)) (probes (snd ?r))"
  have ips: "spec_ClusterIPs svc = [''None'']" using assms(3,4) by simp
  have ty: "spec_Type svc \<noteq> ServiceTypeLoadBalancer" using assms(2) by simp
  have A: "\<forall>p\<in>set ?new. probe_ip p = ''None''"
  proof (cases "waitPhase env svc ?w0")
    case (Inl w')
    then have r: "?r = (s, w')" using assms(1) by (simp add: handleCreateSvc_def Let_def)
    have "probes w' = probes w" using waitPhase_Inl [OF Inl] by auto
    then show ?thesis using r by simp
  next
    case (Inr x)
    then obtain ipl ets w1 where x: "x = (ipl, ets, w1)" by (cases x) auto
    have w1: "probes w1 = probes w" using waitPhase_Inr [OF Inr [unfolded x]] by auto
    from probePhase_as_probePorts [of env s svc ets w1] obtain chk wc where
      pp: "probePhase env s svc ets w1 =
           probePorts env chk (ServiceTimeout (config s)) svc (spec_Ports svc) []
             (ets + int (fst (NewSvcLatencyChecker env ets))) wc"
      and wc: "probes wc = probes w"
      using w1 by auto
    let ?pp = "probePorts env chk (ServiceTimeout (config s)) svc (spec_Ports svc) []
                 (ets + int (fst (NewSvcLatencyChecker env ets))) wc"
    from probePorts_ClusterIP_ips [OF assms(2), of env chk "ServiceTimeout (config s)"
        "spec_Ports svc" "[]" "ets + int (fst (NewSvcLatencyChecker env ets))" wc]
    obtain ps where ps: "probes (world_of ?pp) = probes wc @ ps"
      "\<forall>p\<in>set ps. probe_ip p \<in> set (spec_ClusterIPs svc)" by blast
    have snd_r: "probes (snd ?r) = probes (world_of ?pp)"
      using assms(1) Inr x pp
      by (cases ?pp) (simp_all add: handleCreateSvc_def Let_def)
    show ?thesis using snd_r ps wc ips by simp
  qed
  have ready: "?r = (case probePhase env s svc (go_start env + int d) ?w1 of
                       Return w' \<Rightarrow> (s, w')
                     | Continue t w2 \<Rightarrow>
                         (s\<lparr>metrics := (metrics s)(svc_UID svc \<mapsto>
                              newSample fac globalCfg svc
                                (time_Sub t (go_start env + int d)) 0)\<rparr>,
                          log_add DebugLevel
                            (''Service '' @ svc_Namespace svc @ ''/'' @ svc_Name svc @
                             '' latency was: '' @
                             dec_int (Milliseconds (time_Sub t (go_start env + int d))) @ ''ms'')
                            w2))"
    if "waitForEndpoints env svc (go_start env) = PollReturned d None"
    using assms(1) waitPhase_not_LoadBalancer [OF ty that, of ?w0]
    by (simp add: handleCreateSvc_def Let_def split: loop_result.splits)
  from probePhase_as_probePorts [of env s svc "go_start env + int d" ?w1] obtain chk wc where
    pp: "probePhase env s svc (go_start env + int d) ?w1 =
         probePorts env chk (ServiceTimeout (config s)) svc (spec_Ports svc) []
           (go_start env + int d + int (fst (NewSvcLatencyChecker env (go_start env + int d)))) wc"
    and wc: "probes wc = probes w" "status wc = Running"
    using assms(1) by auto
  let ?t1 = "go_start env + int d + int (fst (NewSvcLatencyChecker env (go_start env + int d)))"
  have B: "waitForEndpoints env svc (go_start env) = PollReturned d None
           \<and> ?tcp \<noteq> []
           \<and> (\<forall>chk port tmo t. \<exists>d e. Ping env chk ''None'' port tmo t = PingReturned d (Some e))
           \<longrightarrow> (\<exists>p e. ?new = [p] \<and> probe_ip p = ''None'' \<and> probe_port p = Port (hd ?tcp)
                    \<and> probe_err p = Some e \<and> (ErrorLevel, e) \<in> set (log (snd ?r)))
               \<and> fst ?r = s \<and> status (snd ?r) = Running"
  proof (rule impI)
    assume h: "waitForEndpoints env svc (go_start env) = PollReturned d None
           \<and> ?tcp \<noteq> []
           \<and> (\<forall>chk port tmo t. \<exists>d e. Ping env chk ''None'' port tmo t = PingReturned d (Some e))"
    then obtain first others where tcp: "?tcp = first # others" by (cases ?tcp) auto
    from h have dead: "\<forall>chk port tmo t. \<exists>d e. Ping env chk ''None'' port tmo t = PingReturned d (Some e)"
      by blast
    from probePorts_first_target_fails [OF assms(2) ips tcp dead, of chk "ServiceTimeout (config s)"
        "[]" ?t1 wc]
    obtain d' e where
      ret: "probePorts env chk (ServiceTimeout (config s)) svc (spec_Ports svc) [] ?t1 wc =
           Return (log_add ErrorLevel e
                     (wc\<lparr>probes := probes wc @
                         [\<lparr>probe_ip = ''None'', probe_port = Port first, probe_start = ?t1,
                           probe_end = ?t1 + int d', probe_err = Some e\<rparr>]\<rparr>))"
      by blast
    let ?p = "\<lparr>probe_ip = ''None'', probe_port = Port first, probe_start = ?t1,
               probe_end = ?t1 + int d', probe_err = Some e\<rparr>"
    have r: "?r = (s, log_add ErrorLevel e (wc\<lparr>probes := probes wc @ [?p]\<rparr>))"
      using ready h pp ret by simp
    have n: "?new = [?p]" unfolding r using wc by simp
    have "?new = [?p] \<and> probe_ip ?p = ''None'' \<and> probe_port ?p = Port (hd ?tcp)
          \<and> probe_err ?p = Some e \<and> (ErrorLevel, e) \<in> set (log (snd ?r))"
      using n tcp unfolding r by simp
    then have "\<exists>p e. ?new = [p] \<and> probe_ip p = ''None'' \<and> probe_port p = Port (hd ?tcp)
                    \<and> probe_err p = Some e \<and> (ErrorLevel, e) \<in> set (log (snd ?r))"
      by blast
    moreover have "fst ?r = s \<and> status (snd ?r) = Running" unfolding r using wc by simp
    ultimately show "(\<exists>p e. ?new = [p] \<and> probe_ip p = ''None'' \<and> probe_port p = Port (hd ?tcp)
                    \<and> probe_err p = Some e \<and> (ErrorLevel, e) \<in> set (log (snd ?r)))
               \<and> fst ?r = s \<and> status (snd ?r) = Running" by blast
  qed
  have C: "waitForEndpoints env svc (go_start env) = PollReturned d None
           \<and> (\<forall>chk port tmo t. \<exists>d. Ping env chk ''None'' port tmo t = PingReturned d None)
           \<longrightarrow> map (\<lambda>p. (probe_ip p, probe_port p, probe_err p)) ?new
                 = map (\<lambda>specPort. (''None'', Port specPort, None)) ?tcp
               \<and> (\<exists>svcLatency. fst ?r =
                      s\<lparr>metrics := (metrics s)(svc_UID svc \<mapsto>
                           newSample fac globalCfg svc svcLatency 0)\<rparr>)"
  proof (rule impI)
    assume h: "waitForEndpoints env svc (go_start env) = PollReturned d None
           \<and> (\<forall>chk port tmo t. \<exists>d. Ping env chk ''None'' port tmo t = PingReturned d None)"
    then have ok: "\<forall>chk port tmo t. \<exists>d. Ping env chk ''None'' port tmo t = PingReturned d None"
      by blast
    from probePorts_single_target_answers [OF assms(2) ips ok, of chk "ServiceTimeout (config s)"
        "spec_Ports svc" "[]" ?t1 wc]
    obtain t' w' ps where
      c: "probePorts env chk (ServiceTimeout (config s)) svc (spec_Ports svc) [] ?t1 wc
            = Continue t' w'"
      and ps: "probes w' = probes wc @ ps"
        "map (\<lambda>p. (probe_ip p, probe_port p, probe_err p)) ps
           = map (\<lambda>specPort. (''None'', Port specPort, None)) ?tcp"
      by blast
    have r: "?r = (s\<lparr>metrics := (metrics s)(svc_UID svc \<mapsto>
                        newSample fac globalCfg svc (time_Sub t' (go_start env + int d)) 0)\<rparr>,
                   log_add DebugLevel
                     (''Service '' @ svc_Namespace svc @ ''/'' @ svc_Name svc @
                      '' latency was: '' @
                      dec_int (Milliseconds (time_Sub t' (go_start env + int d))) @ ''ms'') w')"
      using ready h pp c by simp
    have n: "?new = ps" unfolding r using wc ps(1) by simp
    have "\<exists>svcLatency. fst ?r =
                      s\<lparr>metrics := (metrics s)(svc_UID svc \<mapsto>
                           newSample fac globalCfg svc svcLatency 0)\<rparr>"
      unfolding r by auto
    then show "map (\<lambda>p. (probe_ip p, probe_port p, probe_err p)) ?new
                 = map (\<lambda>specPort. (''None'', Port specPort, None)) ?tcp
               \<and> (\<exists>svcLatency. fst ?r =
                      s\<lparr>metrics := (metrics s)(svc_UID svc \<mapsto>
                           newSample fac globalCfg svc svcLatency 0)\<rparr>)"
      using n ps(2) by simp
  qed
  show ?thesis using A B C by blast
qed


lemma headless_dead_probes:
  "probes (snd (handleCreateSvc (demoCluster (headlessService [tcpPort 80]) [''None'']) demoFactory
                  demoGlobal (headlessService [tcpPort 80]) (initialMeasurement, freshWorld)))
   = [\<lparr>probe_ip = ''None'', probe_port = 80, probe_start = 102001000,
       probe_end = 5102001000, probe_err = Some ''timeout waiting for endpoint to be ready''\<rparr>]"
  by (simp add: run_defs headlessService_def)

lemma headless_portless_sample:
  "metrics (fst (handleCreateSvc (demoCluster (headlessService []) [''None'']) demoFactory
                  demoGlobal (headlessService []) (initialMeasurement, freshWorld))) ''uid-1''
   = Some \<lparr>Timestamp = 900, IPAssignedLatency = 0, ReadyLatency = 2000000,
           MetricName = svcLatencyMetric, JobConfig = demoJob, UUID = ''run-1'',
           Namespace = ''namespaced-0'', Name = ''web'', Metadata = [],
           ServiceType = ''ClusterIP''\<rparr>"
  by (simp add: run_defs headlessService_def)

lemma headless_endpoints:
  "waitForEndpoints (demoCluster cached dead) (headlessService ports)
     (go_start (demoCluster cached dead)) = PollReturned 100000000 None"
  by (simp add: run_defs headlessService_def)

text \<open>
  Witness for claim C3: the headless service with port 80 in a cluster where \<open>None\<close> does
  not answer, and the headless service with ports 80 and 443 in a cluster where it does.
\<close>

theorem headless_service_probed_witness:
  "status freshWorld = Running
   \<and> spec_Type (headlessService [tcpPort 80]) = ServiceTypeClusterIP
   \<and> spec_ClusterIP (headlessService [tcpPort 80]) = ''None''
   \<and> waitForEndpoints (demoCluster (headlessService [tcpPort 80]) [''None''])
        (headlessService [tcpPort 80])
        (go_start (demoCluster (headlessService [tcpPort 80]) [''None''])) = PollReturned 100000000 None
   \<and> map (\<lambda>p. (probe_ip p, probe_port p, probe_err p))
        (probes (snd (handleCreateSvc (demoCluster (headlessService [tcpPort 80]) [''None''])
                        demoFactory demoGlobal (headlessService [tcpPort 80])
                        (initialMeasurement, freshWorld))))
       = [(''None'', 80, Some ''timeout waiting for endpoint to be ready'')]
   \<and> (ErrorLevel, ''timeout waiting for endpoint to be ready'')
        \<in> set (log (snd (handleCreateSvc (demoCluster (headlessService [tcpPort 80]) [''None''])
                        demoFactory demoGlobal (headlessService [tcpPort 80])
                        (initialMeasurement, freshWorld))))
   \<and> fst (handleCreateSvc (demoCluster (headlessService [tcpPort 80]) [''None''])
                        demoFactory demoGlobal (headlessService [tcpPort 80])
                        (initialMeasurement, freshWorld)) = initialMeasurement
   \<and> map (\<lambda>p. (probe_ip p, probe_port p, probe_err p))
        (probes (snd (handleCreateSvc (demoCluster (headlessService [tcpPort 80, tcpPort 443]) [])
                        demoFactory demoGlobal (headlessService [tcpPort 80, tcpPort 443])
                        (initialMeasurement, freshWorld))))
       = [(''None'', 80, None), (''None'', 443, None)]
   \<and> (\<exists>svcLatency.
         fst (handleCreateSvc (demoCluster (headlessService [tcpPort 80, tcpPort 443]) [])
                        demoFactory demoGlobal (headlessService [tcpPort 80, tcpPort 443])
                        (initialMeasurement, freshWorld))
         = initialMeasurement\<lparr>metrics := (metrics initialMeasurement)(''uid-1'' \<mapsto>
              newSample demoFactory demoGlobal (headlessService [tcpPort 80, tcpPort 443])
                svcLatency 0)\<rparr>)"
proof -
  let ?e = "''timeout waiting for endpoint to be ready''"
  let ?svc = "headlessService [tcpPort 80]"
  let ?env = "demoCluster ?svc [''None'']"
  let ?r = "handleCreateSvc ?env demoFactory demoGlobal ?svc (initialMeasurement, freshWorld)"
  let ?svc2 = "headlessService [tcpPort 80, tcpPort 443]"
  let ?env2 = "demoCluster ?svc2 []"
  let ?r2 = "handleCreateSvc ?env2 demoFactory demoGlobal ?svc2 (initialMeasurement, freshWorld)"
  have h1: "status freshWorld = Running" by (simp add: freshWorld_def)
  have pw: "probes freshWorld = []" by (simp add: freshWorld_def)
  have h2: "spec_Type (headlessService ports) = ServiceTypeClusterIP" for ports
    by (simp add: headlessService_def clusterIPService_def)
  have h3: "spec_ClusterIP (headlessService ports) = ''None''" for ports
    by (simp add: headlessService_def clusterIPService_def)
  have h4: "spec_ClusterIPs (headlessService ports) = [spec_ClusterIP (headlessService ports)]" for ports
    by (simp add: headlessService_def clusterIPService_def)
  have uid: "svc_UID ?svc2 = ''uid-1''" by (simp add: headlessService_def clusterIPService_def)
  have tcp: "filter (\<lambda>specPort. Protocol specPort = ProtocolTCP) (spec_Ports ?svc) \<noteq> []"
    by (simp add: headlessService_def clusterIPService_def tcpPort_def)
  have tcp2: "filter (\<lambda>specPort. Protocol specPort = ProtocolTCP) (spec_Ports ?svc2)
              = [tcpPort 80, tcpPort 443]"
    by (simp add: headlessService_def clusterIPService_def tcpPort_def)
  have dead: "\<forall>chk port tmo t. \<exists>d e. Ping ?env chk ''None'' port tmo t = PingReturned d (Some e)"
    by (simp add: demoCluster_def)
  have ok: "\<forall>chk port tmo t. \<exists>d. Ping ?env2 chk ''None'' port tmo t = PingReturned d None"
    by (simp add: demoCluster_def)
  note T = headless_service_probed [OF h1 h2 h3 h4, where fac = demoFactory
      and globalCfg = demoGlobal and s = initialMeasurement and d = 100000000]
  have a: "(\<exists>p e. drop (length (probes freshWorld)) (probes (snd ?r)) = [p]
              \<and> probe_err p = Some e \<and> (ErrorLevel, e) \<in> set (log (snd ?r)))
           \<and> fst ?r = initialMeasurement"
    using T [of ?env "[tcpPort 80]"] headless_endpoints [of ?svc "[''None'']" "[tcpPort 80]"] tcp dead
    by blast
  then have l: "(ErrorLevel, ?e) \<in> set (log (snd ?r))"
    unfolding headless_dead_probes pw by auto
  have p1: "map (\<lambda>p. (probe_ip p, probe_port p, probe_err p)) (probes (snd ?r))
            = [(''None'', 80, Some ?e)]"
    unfolding headless_dead_probes by simp
  have b: "map (\<lambda>p. (probe_ip p, probe_port p, probe_err p))
             (drop (length (probes freshWorld)) (probes (snd ?r2)))
           = map (\<lambda>specPort. (''None'', Port specPort, None))
               (filter (\<lambda>specPort. Protocol specPort = ProtocolTCP) (spec_Ports ?svc2))
         \<and> (\<exists>svcLatency. fst ?r2 =
               initialMeasurement\<lparr>metrics := (metrics initialMeasurement)(svc_UID ?svc2 \<mapsto>
                 newSample demoFactory demoGlobal ?svc2 svcLatency 0)\<rparr>)"
    using T [of ?env2 "[tcpPort 80, tcpPort 443]"]
      headless_endpoints [of ?svc2 "[]" "[tcpPort 80, tcpPort 443]"] ok
    by blast
  have p2: "map (\<lambda>p. (probe_ip p, probe_port p, probe_err p)) (probes (snd ?r2))
            = [(''None'', 80, None), (''None'', 443, None)]"
    using b unfolding tcp2 pw by (simp add: tcpPort_def)
  have s2: "\<exists>svcLatency. fst ?r2 =
               initialMeasurement\<lparr>metrics := (metrics initialMeasurement)(''uid-1'' \<mapsto>
                 newSample demoFactory demoGlobal ?svc2 svcLatency 0)\<rparr>"
    using b unfolding uid by blast
  show ?thesis
    using h1 h2 [of "[tcpPort 80]"] h3 [of "[tcpPort 80]"]
      headless_endpoints [of ?svc "[''None'']" "[tcpPort 80]"] p1 l a p2 s2
    by blast
qed

text \<open>
  Counterexample to claim C3 as stated: a headless service with a TCP port is probed (at
  the target \<open>None\<close>), and a headless service without ports gets a sample.
\<close>

theorem headless_service_counterexample:
  "spec_ClusterIP (headlessService [tcpPort 80]) = ''None''
   \<and> probes (snd (handleCreateSvc (demoCluster (headlessService [tcpPort 80]) [''None'']) demoFactory
                  demoGlobal (headlessService [tcpPort 80]) (initialMeasurement, freshWorld))) \<noteq> []
   \<and> spec_ClusterIP (headlessService []) = ''None''
   \<and> metrics initialMeasurement ''uid-1'' = None
   \<and> metrics (fst (handleCreateSvc (demoCluster (headlessService []) [''None'']) demoFactory
                  demoGlobal (headlessService []) (initialMeasurement, freshWorld))) ''uid-1'' \<noteq> None"
  unfolding headless_dead_probes headless_portless_sample
  by (simp add: headlessService_def clusterIPService_def initialMeasurement_def)

subsection \<open>The metrics map\<close>

lemma waitPhase_returns:
  assumes "if spec_Type svc = ServiceTypeLoadBalancer
           then waitForIngress env svc (go_start env) = PollReturned d0 None else d0 = 0"
    and "waitForEndpoints env svc (go_start env + int d0) = PollReturned d None"
  shows "waitPhase env svc w =
           Inr (if spec_Type svc = ServiceTypeLoadBalancer
                then time_Sub (go_start env + int d0) (go_start env) else 0,
                go_start env + int d0 + int d,
                log_add DebugLevel
                  (''Endpoints '' @ svc_Namespace svc @ ''/'' @ svc_Name svc @ '' ready'') w)"
  using assms by (simp add: waitPhase_def Let_def split: if_splits)

lemma pingAll_all_answer:
  assumes "\<forall>chk ip port tmo t. \<exists>d. Ping env chk ip port tmo t = PingReturned d None"
  shows "\<exists>t' w'. pingAll env chk port tmo ips t w = Continue t' w'"
proof (induction ips arbitrary: t w)
  case Nil
  then show ?case by simp
next
  case (Cons ip ips)
  obtain d where "Ping env chk ip port tmo t = PingReturned d None" using assms by blast
  then show ?case using Cons.IH by (simp add: Let_def)
qed

lemma probePorts_all_answer:
  assumes "\<forall>chk ip port tmo t. \<exists>d. Ping env chk ip port tmo t = PingReturned d None"
    and "spec_Type svc = ServiceTypeClusterIP \<or> spec_Type svc = ServiceTypeLoadBalancer
         \<or> (spec_Type svc = ServiceTypeNodePort \<and> chk \<noteq> None)"
  shows "\<exists>t' w'. probePorts env chk tmo svc ports ips t w = Continue t' w'"
proof (induction ports arbitrary: ips t w)
  case Nil
  then show ?case by simp
next
  case (Cons specPort rest)
  show ?case
  proof (cases "Protocol specPort = ProtocolTCP")
    case False
    then show ?thesis using Cons.IH by simp
  next
    case True
    obtain ips' port where tg: "resolveTargets chk svc specPort ips = Targets ips' port"
      using assms(2) by (cases chk) (auto simp: resolveTargets_def)
    obtain t1 w1 where "pingAll env chk port tmo ips' t w = Continue t1 w1"
      using pingAll_all_answer [OF assms(1)] by blast
    then show ?thesis using True tg Cons.IH [of ips' t1 w1] by simp
  qed
qed

lemma probePhase_all_answer:
  assumes "\<forall>chk ip port tmo t. \<exists>d. Ping env chk ip port tmo t = PingReturned d None"
    and "spec_Type svc = ServiceTypeClusterIP \<or> spec_Type svc = ServiceTypeLoadBalancer
         \<or> (spec_Type svc = ServiceTypeNodePort
             \<and> (\<forall>t. \<exists>d c. NewSvcLatencyChecker env t = (d, Inr c)))"
  shows "\<exists>t' w'. probePhase env s svc ets w = Continue t' w'"
proof (cases "NewSvcLatencyChecker env ets")
  case (Pair d r)
  show ?thesis
  proof (cases r)
    case (Inl err)
    then have ty: "spec_Type svc = ServiceTypeClusterIP \<or> spec_Type svc = ServiceTypeLoadBalancer
         \<or> (spec_Type svc = ServiceTypeNodePort \<and> (None :: SvcLatencyChecker option) \<noteq> None)"
      using assms(2) Pair by (metis Pair_inject sum.distinct(1))
    show ?thesis
      using probePorts_all_answer [OF assms(1) ty] Pair Inl by (simp add: probePhase_def)
  next
    case (Inr c)
    have ty: "spec_Type svc = ServiceTypeClusterIP \<or> spec_Type svc = ServiceTypeLoadBalancer
         \<or> (spec_Type svc = ServiceTypeNodePort \<and> Some c \<noteq> None)"
      using assms(2) by auto
    show ?thesis
      using probePorts_all_answer [OF assms(1) ty] Pair Inr by (simp add: probePhase_def)
  qed
qed

lemma handleCreateSvc_completes:
  assumes "status w = Running"
    and "spec_Type svc = ServiceTypeClusterIP \<or> spec_Type svc = ServiceTypeLoadBalancer
         \<or> (spec_Type svc = ServiceTypeNodePort
             \<and> (\<forall>t. \<exists>d c. NewSvcLatencyChecker env t = (d, Inr c)))"
    and "if spec_Type svc = ServiceTypeLoadBalancer
         then waitForIngress env svc (go_start env) = PollReturned d0 None else d0 = 0"
    and "waitForEndpoints env svc (go_start env + int d0) = PollReturned d None"
    and "\<forall>chk ip port tmo t. \<exists>d. Ping env chk ip port tmo t = PingReturned d None"
  shows "\<exists>t ps. probes (snd (handleCreateSvc env fac globalCfg svc (s, w))) = probes w @ ps
           \<and> t = (if ps = [] then go_start env + int d0 + int d
                                   + int (fst (NewSvcLatencyChecker env (go_start env + int d0 + int d)))
                   else probe_end (last ps))
           \<and> fst (handleCreateSvc env fac globalCfg svc (s, w)) =
               s\<lparr>metrics := (metrics s)(svc_UID svc \<mapsto>
                    newSample fac globalCfg svc
                      (time_Sub t (go_start env + int d0 + int d))
                      (if spec_Type svc = ServiceTypeLoadBalancer
                       then time_Sub (go_start env + int d0) (go_start env) else 0))\<rparr>"
proof -
  let ?w0 = "log_add DebugLevel
               (''New service created: '' @ svc_Namespace svc @ ''/'' @ svc_Name svc) w"
  let ?w1 = "log_add DebugLevel
               (''Endpoints '' @ svc_Namespace svc @ ''/'' @ svc_Name svc @ '' ready'') ?w0"
  let ?ets = "go_start env + int d0 + int d"
  let ?ipl = "if spec_Type svc = ServiceTypeLoadBalancer
              then time_Sub (go_start env + int d0) (go_start env) else 0"
  let ?r = "handleCreateSvc env fac globalCfg svc (s, w)"
  have wp: "waitPhase env svc ?w0 = Inr (?ipl, ?ets, ?w1)"
    by (rule waitPhase_returns [OF assms(3,4)])
  obtain t w2 where pp: "probePhase env s svc ?ets ?w1 = Continue t w2"
    using probePhase_all_answer [OF assms(5,2)] by blast
  from probePhase_Continue [OF pp] obtain ps where
    ps: "probes w2 = probes ?w1 @ ps"
        "t = (if ps = [] then ?ets + int (fst (NewSvcLatencyChecker env ?ets))
              else probe_end (last ps))"
    by blast
  have r: "?r = (s\<lparr>metrics := (metrics s)(svc_UID svc \<mapsto>
                      newSample fac globalCfg svc (time_Sub t ?ets) ?ipl)\<rparr>,
                 log_add DebugLevel
                   (''Service '' @ svc_Namespace svc @ ''/'' @ svc_Name svc @
                    '' latency was: '' @ dec_int (Milliseconds (time_Sub t ?ets)) @ ''ms'') w2)"
  proof -
    have "?r = (case probePhase env s svc ?ets ?w1 of
                  Return w' \<Rightarrow> (s, w')
                | Continue t w2 \<Rightarrow>
                    (s\<lparr>metrics := (metrics s)(svc_UID svc \<mapsto>
                         newSample fac globalCfg svc (time_Sub t ?ets) ?ipl)\<rparr>,
                     log_add DebugLevel
                       (''Service '' @ svc_Namespace svc @ ''/'' @ svc_Name svc @
                        '' latency was: '' @ dec_int (Milliseconds (time_Sub t ?ets)) @ ''ms'') w2))"
      using assms(1) wp by (simp add: handleCreateSvc_def Let_def split: loop_result.splits)
    then show ?thesis using pp by simp
  qed
  have "probes (snd ?r) = probes w @ ps" unfolding r using ps(1) by simp
  then show ?thesis using ps(2) r by (intro exI [of _ t] exI [of _ ps]) simp
qed


text \<open>
  Claim C4. The metrics map is keyed by the service's uid. A run that completes (in a running
  process, for a service of a supported type whose waits return and whose probes all
  succeed) stores the sample of this run at the service's uid, whatever the map held there:
  the keys of the map are the old keys and the uid, so when the uid already had an entry
  that entry is replaced and the number of entries stays the same. Any run leaves the
  measurement as it was or changes the map at the service's uid only. After any sequence of
  runs the keys of the map are keys it had before or uids of the services handled, so a map
  that started empty holds at most one sample for each distinct uid.
\<close>

theorem metrics_keyed_by_uid:
  "(status w = Running
      \<and> (spec_Type svc = ServiceTypeClusterIP \<or> spec_Type svc = ServiceTypeLoadBalancer
          \<or> (spec_Type svc = ServiceTypeNodePort
              \<and> (\<forall>t. \<exists>d c. NewSvcLatencyChecker env t = (d, Inr c))))
      \<and> (if spec_Type svc = ServiceTypeLoadBalancer
          then waitForIngress env svc (go_start env) = PollReturned d0 None else d0 = 0)
      \<and> waitForEndpoints env svc (go_start env + int d0) = PollReturned d None
      \<and> (\<forall>chk ip port tmo t. \<exists>d. Ping env chk ip port tmo t = PingReturned d None)
    \<longrightarrow> (\<exists>t ps. probes (snd (handleCreateSvc env fac globalCfg svc (s, w))) = probes w @ ps
           \<and> t = (if ps = [] then go_start env + int d0 + int d
                                   + int (fst (NewSvcLatencyChecker env (go_start env + int d0 + int d)))
                   else probe_end (last ps))
           \<and> metrics (fst (handleCreateSvc env fac globalCfg svc (s, w))) =
               (metrics s)(svc_UID svc \<mapsto>
                  newSample fac globalCfg svc
                    (time_Sub t (go_start env + int d0 + int d))
                    (if spec_Type svc = ServiceTypeLoadBalancer
                     then time_Sub (go_start env + int d0) (go_start env) else 0)))
        \<and> dom (metrics (fst (handleCreateSvc env fac globalCfg svc (s, w))))
            = insert (svc_UID svc) (dom (metrics s))
        \<and> (svc_UID svc \<in> dom (metrics s) \<longrightarrow>
             card (dom (metrics (fst (handleCreateSvc env fac globalCfg svc (s, w)))))
               = card (dom (metrics s))))
   \<and> (fst (handleCreateSvc env fac globalCfg svc (s, w)) = s
      \<or> (\<exists>m. fst (handleCreateSvc env fac globalCfg svc (s, w))
              = s\<lparr>metrics := (metrics s)(svc_UID svc \<mapsto> m)\<rparr>))
   \<and> (svc_UID svc \<in> dom (metrics s) \<longrightarrow>
        dom (metrics (fst (handleCreateSvc env fac globalCfg svc (s, w)))) = dom (metrics s))
   \<and> (\<forall>uid. uid \<noteq> svc_UID svc \<longrightarrow>
        metrics (fst (handleCreateSvc env fac globalCfg svc (s, w))) uid = metrics s uid)
   \<and> dom (metrics (fst (handleAll fac globalCfg runs (s, w))))
        \<subseteq> dom (metrics s) \<union> svc_UID ` snd ` set runs
   \<and> (metrics s = Map.empty \<longrightarrow>
        card (dom (metrics (fst (handleAll fac globalCfg runs (s, w)))))
          \<le> card (svc_UID ` snd ` set runs))"
proof -
  let ?r = "handleCreateSvc env fac globalCfg svc (s, w)"
  let ?ets = "go_start env + int d0 + int d"
  let ?ipl = "if spec_Type svc = ServiceTypeLoadBalancer
              then time_Sub (go_start env + int d0) (go_start env) else 0"
  note c = handleCreateSvc_cases [of env fac globalCfg svc s w]
  have A: "status w = Running
      \<and> (spec_Type svc = ServiceTypeClusterIP \<or> spec_Type svc = ServiceTypeLoadBalancer
          \<or> (spec_Type svc = ServiceTypeNodePort
              \<and> (\<forall>t. \<exists>d c. NewSvcLatencyChecker env t = (d, Inr c))))
      \<and> (if spec_Type svc = ServiceTypeLoadBalancer
          then waitForIngress env svc (go_start env) = PollReturned d0 None else d0 = 0)
      \<and> waitForEndpoints env svc (go_start env + int d0) = PollReturned d None
      \<and> (\<forall>chk ip port tmo t. \<exists>d. Ping env chk ip port tmo t = PingReturned d None)
    \<longrightarrow> (\<exists>t ps. probes (snd ?r) = probes w @ ps
           \<and> t = (if ps = [] then ?ets + int (fst (NewSvcLatencyChecker env ?ets))
                   else probe_end (last ps))
           \<and> metrics (fst ?r) =
               (metrics s)(svc_UID svc \<mapsto> newSample fac globalCfg svc (time_Sub t ?ets) ?ipl))
        \<and> dom (metrics (fst ?r)) = insert (svc_UID svc) (dom (metrics s))
        \<and> (svc_UID svc \<in> dom (metrics s) \<longrightarrow>
             card (dom (metrics (fst ?r))) = card (dom (metrics s)))"
  proof (rule impI)
    assume h: "status w = Running
      \<and> (spec_Type svc = ServiceTypeClusterIP \<or> spec_Type svc = ServiceTypeLoadBalancer
          \<or> (spec_Type svc = ServiceTypeNodePort
              \<and> (\<forall>t. \<exists>d c. NewSvcLatencyChecker env t = (d, Inr c))))
      \<and> (if spec_Type svc = ServiceTypeLoadBalancer
          then waitForIngress env svc (go_start env) = PollReturned d0 None else d0 = 0)
      \<and> waitForEndpoints env svc (go_start env + int d0) = PollReturned d None
      \<and> (\<forall>chk ip port tmo t. \<exists>d. Ping env chk ip port tmo t = PingReturned d None)"
    then have h1: "status w = Running"
      and h2: "spec_Type svc = ServiceTypeClusterIP \<or> spec_Type svc = ServiceTypeLoadBalancer
          \<or> (spec_Type svc = ServiceTypeNodePort
              \<and> (\<forall>t. \<exists>d c. NewSvcLatencyChecker env t = (d, Inr c)))"
      and h3: "if spec_Type svc = ServiceTypeLoadBalancer
          then waitForIngress env svc (go_start env) = PollReturned d0 None else d0 = 0"
      and h4: "waitForEndpoints env svc (go_start env + int d0) = PollReturned d None"
      and h5: "\<forall>chk ip port tmo t. \<exists>d. Ping env chk ip port tmo t = PingReturned d None"
      by blast+
    from handleCreateSvc_completes [OF h1 h2 h3 h4 h5, of fac globalCfg s] obtain t ps where
      tp: "probes (snd ?r) = probes w @ ps"
          "t = (if ps = [] then ?ets + int (fst (NewSvcLatencyChecker env ?ets))
                else probe_end (last ps))"
      and r: "fst ?r = s\<lparr>metrics := (metrics s)(svc_UID svc \<mapsto>
                    newSample fac globalCfg svc (time_Sub t ?ets) ?ipl)\<rparr>"
      by blast
    have m: "metrics (fst ?r) =
               (metrics s)(svc_UID svc \<mapsto> newSample fac globalCfg svc (time_Sub t ?ets) ?ipl)"
      unfolding r by simp
    have d: "dom (metrics (fst ?r)) = insert (svc_UID svc) (dom (metrics s))"
      unfolding m by simp
    have k: "svc_UID svc \<in> dom (metrics s) \<longrightarrow>
             card (dom (metrics (fst ?r))) = card (dom (metrics s))"
      unfolding d by (simp add: insert_absorb)
    have "\<exists>t ps. probes (snd ?r) = probes w @ ps
           \<and> t = (if ps = [] then ?ets + int (fst (NewSvcLatencyChecker env ?ets))
                   else probe_end (last ps))
           \<and> metrics (fst ?r) =
               (metrics s)(svc_UID svc \<mapsto> newSample fac globalCfg svc (time_Sub t ?ets) ?ipl)"
      using tp m by blast
    then show "(\<exists>t ps. probes (snd ?r) = probes w @ ps
           \<and> t = (if ps = [] then ?ets + int (fst (NewSvcLatencyChecker env ?ets))
                   else probe_end (last ps))
           \<and> metrics (fst ?r) =
               (metrics s)(svc_UID svc \<mapsto> newSample fac globalCfg svc (time_Sub t ?ets) ?ipl))
        \<and> dom (metrics (fst ?r)) = insert (svc_UID svc) (dom (metrics s))
        \<and> (svc_UID svc \<in> dom (metrics s) \<longrightarrow>
             card (dom (metrics (fst ?r))) = card (dom (metrics s)))"
      using d k by blast
  qed
  have B: "svc_UID svc \<in> dom (metrics s) \<longrightarrow> dom (metrics (fst ?r)) = dom (metrics s)"
  proof (rule impI)
    assume "svc_UID svc \<in> dom (metrics s)"
    then have "insert (svc_UID svc) (dom (metrics s)) = dom (metrics s)" by auto
    then show "dom (metrics (fst ?r)) = dom (metrics s)" using c by auto
  qed
  have C: "\<forall>uid. uid \<noteq> svc_UID svc \<longrightarrow> metrics (fst ?r) uid = metrics s uid"
    using c by auto
  have D: "dom (metrics (fst (handleAll fac globalCfg runs (s, w))))
        \<subseteq> dom (metrics s) \<union> svc_UID ` snd ` set runs"
    using handleAll_dom [of fac globalCfg runs "(s, w)"] by simp
  have E: "metrics s = Map.empty \<longrightarrow>
        card (dom (metrics (fst (handleAll fac globalCfg runs (s, w)))))
          \<le> card (svc_UID ` snd ` set runs)"
  proof (rule impI)
    assume "metrics s = Map.empty"
    then have "dom (metrics (fst (handleAll fac globalCfg runs (s, w))))
        \<subseteq> svc_UID ` snd ` set runs" using D by simp
    moreover have "finite (svc_UID ` snd ` set runs)" by simp
    ultimately show "card (dom (metrics (fst (handleAll fac globalCfg runs (s, w)))))
          \<le> card (svc_UID ` snd ` set runs)" by (rule card_mono [rotated])
  qed
  show ?thesis using A c B C D E by blast
qed


lemma first_run:
  "handleCreateSvc (demoCluster onePortService []) demoFactory demoGlobal onePortService
     (initialMeasurement, freshWorld)
   = (initialMeasurement\<lparr>metrics := [''uid-1'' \<mapsto>
         newSample demoFactory demoGlobal onePortService 7000000 0]\<rparr>,
      \<lparr>log = [(DebugLevel, ''New service created: namespaced-0/web''),
              (DebugLevel, ''Endpoints namespaced-0/web ready''),
              (DebugLevel, ''Service namespaced-0/web latency was: 7ms'')],
       status = Running,
       probes = [\<lparr>probe_ip = ''10.96.0.10'', probe_port = 80, probe_start = 102001000,
                  probe_end = 107001000, probe_err = None\<rparr>]\<rparr>)"
  by (simp add: run_defs onePortService_def)

lemma resync_probes:
  "probes (snd (handleCreateSvc (slowCluster onePortService) demoFactory demoGlobal onePortService
     (initialMeasurement\<lparr>metrics := [''uid-1'' \<mapsto>
         newSample demoFactory demoGlobal onePortService 7000000 0]\<rparr>,
      \<lparr>log = [(DebugLevel, ''New service created: namespaced-0/web''),
              (DebugLevel, ''Endpoints namespaced-0/web ready''),
              (DebugLevel, ''Service namespaced-0/web latency was: 7ms'')],
       status = Running,
       probes = [\<lparr>probe_ip = ''10.96.0.10'', probe_port = 80, probe_start = 102001000,
                  probe_end = 107001000, probe_err = None\<rparr>]\<rparr>)))
   = [\<lparr>probe_ip = ''10.96.0.10'', probe_port = 80, probe_start = 102001000,
        probe_end = 107001000, probe_err = None\<rparr>,
      \<lparr>probe_ip = ''10.96.0.10'', probe_port = 80, probe_start = 102001000,
        probe_end = 109001000, probe_err = None\<rparr>]"
  by (simp add: run_defs onePortService_def slowCluster_def)

lemma slow_endpoints:
  "waitForEndpoints (slowCluster onePortService) onePortService
     (go_start (slowCluster onePortService) + int 0) = PollReturned 100000000 None"
  by (simp add: run_defs onePortService_def slowCluster_def)

text \<open>
  Witness for claim C4: the same service handled twice (a resync), the second time in a
  slower cluster. The entry of 7 ms is replaced by the one of 9 ms and the map still has
  one entry.
\<close>

theorem metrics_keyed_by_uid_witness:
  "status (snd (handleCreateSvc (demoCluster onePortService []) demoFactory demoGlobal
                  onePortService (initialMeasurement, freshWorld))) = Running
   \<and> spec_Type onePortService = ServiceTypeClusterIP
   \<and> waitForEndpoints (slowCluster onePortService) onePortService
        (go_start (slowCluster onePortService) + int 0) = PollReturned 100000000 None
   \<and> (\<forall>chk ip port tmo t. \<exists>d. Ping (slowCluster onePortService) chk ip port tmo t
                                  = PingReturned d None)
   \<and> metrics (fst (handleAll demoFactory demoGlobal
                      [(demoCluster onePortService [], onePortService)]
                      (initialMeasurement, freshWorld)))
       = [''uid-1'' \<mapsto> newSample demoFactory demoGlobal onePortService 7000000 0]
   \<and> metrics (fst (handleAll demoFactory demoGlobal
                      [(demoCluster onePortService [], onePortService),
                       (slowCluster onePortService, onePortService)]
                      (initialMeasurement, freshWorld)))
       = [''uid-1'' \<mapsto> newSample demoFactory demoGlobal onePortService 9000000 0]
   \<and> card (dom (metrics (fst (handleAll demoFactory demoGlobal
                      [(demoCluster onePortService [], onePortService),
                       (slowCluster onePortService, onePortService)]
                      (initialMeasurement, freshWorld))))) = 1"
proof -
  let ?s1 = "initialMeasurement\<lparr>metrics := [''uid-1'' \<mapsto>
         newSample demoFactory demoGlobal onePortService 7000000 0]\<rparr>"
  let ?p1 = "\<lparr>probe_ip = ''10.96.0.10'', probe_port = 80, probe_start = 102001000,
                  probe_end = 107001000, probe_err = None\<rparr>"
  let ?p2 = "\<lparr>probe_ip = ''10.96.0.10'', probe_port = 80, probe_start = 102001000,
                  probe_end = 109001000, probe_err = None\<rparr>"
  let ?w1 = "\<lparr>log = [(DebugLevel, ''New service created: namespaced-0/web''),
              (DebugLevel, ''Endpoints namespaced-0/web ready''),
              (DebugLevel, ''Service namespaced-0/web latency was: 7ms'')],
       status = Running, probes = [?p1]\<rparr>"
  let ?env = "slowCluster onePortService"
  let ?r2 = "handleCreateSvc ?env demoFactory demoGlobal onePortService (?s1, ?w1)"
  have run: "status ?w1 = Running" by simp
  have ty: "spec_Type onePortService = ServiceTypeClusterIP"
    by (simp add: onePortService_def clusterIPService_def)
  have uid: "svc_UID onePortService = ''uid-1''"
    by (simp add: onePortService_def clusterIPService_def)
  have ok: "\<forall>chk ip port tmo t. \<exists>d. Ping ?env chk ip port tmo t = PingReturned d None"
    by (simp add: slowCluster_def)
  have g: "go_start ?env = 1000" by (simp add: slowCluster_def demoCluster_def)
  have old: "svc_UID onePortService \<in> dom (metrics ?s1)" unfolding uid by simp
  from metrics_keyed_by_uid [of ?w1 onePortService ?env 0 100000000 demoFactory demoGlobal ?s1 "[]"]
    run ty slow_endpoints ok
  obtain t ps where
    a: "probes (snd ?r2) = probes ?w1 @ ps"
       "t = (if ps = [] then go_start ?env + int 0 + int 100000000
                              + int (fst (NewSvcLatencyChecker ?env (go_start ?env + int 0 + int 100000000)))
             else probe_end (last ps))"
       "metrics (fst ?r2) =
          (metrics ?s1)(svc_UID onePortService \<mapsto>
             newSample demoFactory demoGlobal onePortService
               (time_Sub t (go_start ?env + int 0 + int 100000000)) 0)"
    and b: "svc_UID onePortService \<in> dom (metrics ?s1) \<longrightarrow>
              card (dom (metrics (fst ?r2))) = card (dom (metrics ?s1))"
    by auto
  have "ps = [?p2]" using a(1) unfolding resync_probes by simp
  then have t: "t = 109001000" using a(2) by simp
  have m2: "metrics (fst ?r2) = [''uid-1'' \<mapsto> newSample demoFactory demoGlobal onePortService 9000000 0]"
    unfolding a(3) t g uid by (simp add: time_Sub_def maxDuration_def minDuration_def)
  have c2: "card (dom (metrics (fst ?r2))) = 1" using b old by simp
  have all1: "handleAll demoFactory demoGlobal [(demoCluster onePortService [], onePortService)]
                (initialMeasurement, freshWorld) = (?s1, ?w1)"
    using first_run by simp
  have all2: "handleAll demoFactory demoGlobal
                [(demoCluster onePortService [], onePortService), (?env, onePortService)]
                (initialMeasurement, freshWorld) = ?r2"
    using first_run by simp
  show ?thesis unfolding all1 all2 first_run
    using run ty slow_endpoints ok m2 c2 by simp
qed

subsection \<open>The ready latency\<close>

text \<open>
  Claim C5, as amended. In a running process a run of \<^verbatim>\<open>handleCreateSvc\<close> either leaves
  the measurement as it was or stores, under the service's uid, a sample whose
  \<^verbatim>\<open>ReadyLatency\<close> is \<^verbatim>\<open>time.Since(endpointsReadyTs)\<close> taken at the instant \<open>t\<close> at which the
  loop over all TCP ports and all their targets ended: every probe of the run succeeded,
  none returned after \<open>t\<close>, and \<open>t\<close> is the instant the last probe returned (the instant
  the checker was created when no probe was sent). \<^verbatim>\<open>endpointsReadyTs\<close> is the instant at
  which \<^verbatim>\<open>waitForEndpoints\<close> returned without error.
\<close>

theorem ReadyLatency_after_probes:
  assumes "status w = Running"
  shows "fst (handleCreateSvc env fac globalCfg svc (s, w)) = s
       \<or> (\<exists>ipAssignedLatency endpointsReadyTs t t0 d ps.
            fst (handleCreateSvc env fac globalCfg svc (s, w)) =
              s\<lparr>metrics := (metrics s)(svc_UID svc \<mapsto>
                   newSample fac globalCfg svc (time_Sub t endpointsReadyTs) ipAssignedLatency)\<rparr>
          \<and> ReadyLatency (newSample fac globalCfg svc (time_Sub t endpointsReadyTs) ipAssignedLatency)
              = time_Sub t endpointsReadyTs
          \<and> waitForEndpoints env svc t0 = PollReturned d None \<and> endpointsReadyTs = t0 + int d
          \<and> probes (snd (handleCreateSvc env fac globalCfg svc (s, w))) = probes w @ ps
          \<and> (\<forall>p\<in>set ps. probe_err p = None \<and> endpointsReadyTs \<le> probe_start p \<and> probe_end p \<le> t)
          \<and> t = (if ps = [] then endpointsReadyTs + int (fst (NewSvcLatencyChecker env endpointsReadyTs))
                  else probe_end (last ps)))"
proof -
  let ?w0 = "log_add DebugLevel
               (''New service created: '' @ svc_Namespace svc @ ''/'' @ svc_Name svc) w"
  let ?r = "handleCreateSvc env fac globalCfg svc (s, w)"
  show ?thesis
  proof (cases "waitPhase env svc ?w0")
    case (Inl w')
    then have "fst ?r = s" using assms by (simp add: handleCreateSvc_def Let_def)
    then show ?thesis by simp
  next
    case (Inr x)
    then obtain ipl ets w1 where x: "x = (ipl, ets, w1)" by (cases x) auto
    from waitPhase_Inr [OF Inr [unfolded x]] obtain t0 d where
      w1: "probes w1 = probes w" and ep: "waitForEndpoints env svc t0 = PollReturned d None"
      "ets = t0 + int d"
      by auto
    show ?thesis
    proof (cases "probePhase env s svc ets w1")
      case (Return w')
      then have "fst ?r = s" using assms Inr x by (simp add: handleCreateSvc_def Let_def)
      then show ?thesis by simp
    next
      case (Continue t w2)
      then have r: "fst ?r = s\<lparr>metrics := (metrics s)(svc_UID svc \<mapsto>
                   newSample fac globalCfg svc (time_Sub t ets) ipl)\<rparr>"
        "probes (snd ?r) = probes w2"
        using assms Inr x by (simp_all add: handleCreateSvc_def Let_def)
      from probePhase_Continue [OF Continue] obtain ps where
        ps: "probes w2 = probes w1 @ ps"
          "\<forall>p\<in>set ps. probe_err p = None \<and> ets \<le> probe_start p \<and> probe_end p \<le> t"
          "t = (if ps = [] then ets + int (fst (NewSvcLatencyChecker env ets))
                    else probe_end (last ps))"
        by blast
      have rl: "ReadyLatency (newSample fac globalCfg svc (time_Sub t ets) ipl) = time_Sub t ets"
        by (simp add: newSample_def)
      have pr: "probes (snd ?r) = probes w @ ps" using r(2) ps(1) w1 by simp
      show ?thesis
        by (rule disjI2, intro exI [of _ ipl] exI [of _ ets] exI [of _ t] exI [of _ t0]
            exI [of _ d] exI [of _ ps] conjI) (use r(1) rl ep pr ps(2) ps(3) in simp_all)
    qed
  qed
qed

lemma twoPort_probes:
  "probes (snd (handleCreateSvc (demoCluster twoPortService []) demoFactory demoGlobal
                  twoPortService (initialMeasurement, freshWorld))) =
     [\<lparr>probe_ip = ''10.96.0.10'', probe_port = 80, probe_start = 102001000,
       probe_end = 107001000, probe_err = None\<rparr>,
      \<lparr>probe_ip = ''10.96.0.10'', probe_port = 443, probe_start = 107001000,
       probe_end = 112001000, probe_err = None\<rparr>]"
  by (simp add: run_defs twoPortService_def)

lemma twoPort_sample:
  "map_option ReadyLatency
     (metrics (fst (handleCreateSvc (demoCluster twoPortService []) demoFactory demoGlobal
                      twoPortService (initialMeasurement, freshWorld))) ''uid-1'') = Some 12000000"
  by (simp add: run_defs twoPortService_def)

lemma twoPort_endpoints:
  "waitForEndpoints (demoCluster twoPortService []) twoPortService 1000 = PollReturned 100000000 None"
  by (simp add: run_defs twoPortService_def)

text \<open>
  Witness for claim C5: the run on the service with two ports stores a sample, and its
  \<^verbatim>\<open>ReadyLatency\<close> is measured at the instant the last probe returned.
\<close>

theorem ReadyLatency_after_probes_witness:
  "status freshWorld = Running
   \<and> fst (handleCreateSvc (demoCluster twoPortService []) demoFactory demoGlobal
             twoPortService (initialMeasurement, freshWorld)) \<noteq> initialMeasurement
   \<and> (\<exists>t endpointsReadyTs.
         map_option ReadyLatency
           (metrics (fst (handleCreateSvc (demoCluster twoPortService []) demoFactory demoGlobal
                            twoPortService (initialMeasurement, freshWorld))) ''uid-1'')
           = Some (time_Sub t endpointsReadyTs)
         \<and> t = 112001000)"
proof -
  let ?r = "handleCreateSvc (demoCluster twoPortService []) demoFactory demoGlobal
              twoPortService (initialMeasurement, freshWorld)"
  have h: "status freshWorld = Running" by (simp add: freshWorld_def)
  have ne: "fst ?r \<noteq> initialMeasurement"
  proof
    assume "fst ?r = initialMeasurement"
    then have "metrics (fst ?r) ''uid-1'' = metrics initialMeasurement ''uid-1''" by simp
    then show False using twoPort_sample by (simp add: initialMeasurement_def)
  qed
  have uid: "svc_UID twoPortService = ''uid-1''"
    by (simp add: twoPortService_def clusterIPService_def)
  have pw: "probes freshWorld = []" by (simp add: freshWorld_def)
  from ReadyLatency_after_probes [OF h, of "demoCluster twoPortService []" demoFactory demoGlobal
      twoPortService initialMeasurement] ne
  obtain ipl ets t ps where
    a: "fst ?r = initialMeasurement\<lparr>metrics := (metrics initialMeasurement)(svc_UID twoPortService \<mapsto>
                   newSample demoFactory demoGlobal twoPortService (time_Sub t ets) ipl)\<rparr>"
    and b: "probes (snd ?r) = probes freshWorld @ ps"
    and c: "t = (if ps = [] then ets + int (fst (NewSvcLatencyChecker (demoCluster twoPortService []) ets))
                  else probe_end (last ps))"
    by blast
  have ps: "ps = [\<lparr>probe_ip = ''10.96.0.10'', probe_port = 80, probe_start = 102001000,
       probe_end = 107001000, probe_err = None\<rparr>,
      \<lparr>probe_ip = ''10.96.0.10'', probe_port = 443, probe_start = 107001000,
       probe_end = 112001000, probe_err = None\<rparr>]"
    using b twoPort_probes pw by simp
  have t: "t = 112001000" using c ps by simp
  have "map_option ReadyLatency (metrics (fst ?r) ''uid-1'') = Some (time_Sub t ets)"
    unfolding a uid by (simp add: newSample_def)
  then show ?thesis using h ne t by blast
qed

text \<open>
  Counterexample to claim C5 as stated: a ClusterIP service with two TCP ports. The wait for
  the endpoints returns 100 ms after the start, the first successful connect returns 7 ms
  after that, but the sample's \<^verbatim>\<open>ReadyLatency\<close> is 12 ms: it is taken after the second
  port has been probed too.
\<close>

theorem ReadyLatency_first_connect_counterexample:
  "waitForEndpoints (demoCluster twoPortService []) twoPortService
       (go_start (demoCluster twoPortService [])) = PollReturned 100000000 None
   \<and> map (\<lambda>p. (probe_err p, probe_end p))
        (probes (snd (handleCreateSvc (demoCluster twoPortService []) demoFactory demoGlobal
                        twoPortService (initialMeasurement, freshWorld))))
       = [(None, 107001000), (None, 112001000)]
   \<and> map_option ReadyLatency
        (metrics (fst (handleCreateSvc (demoCluster twoPortService []) demoFactory demoGlobal
                         twoPortService (initialMeasurement, freshWorld))) ''uid-1'')
       = Some 12000000
   \<and> time_Sub 107001000 (go_start (demoCluster twoPortService []) + 100000000) = 7000000
   \<and> map_option ReadyLatency
        (metrics (fst (handleCreateSvc (demoCluster twoPortService []) demoFactory demoGlobal
                         twoPortService (initialMeasurement, freshWorld))) ''uid-1'')
       \<noteq> Some (time_Sub 107001000 (go_start (demoCluster twoPortService []) + 100000000))"
proof -
  have g: "go_start (demoCluster twoPortService []) = 1000" by (simp add: demoCluster_def)
  have t: "time_Sub 107001000 (1000 + 100000000) = 7000000"
    by (simp add: time_Sub_def maxDuration_def minDuration_def)
  show ?thesis
    unfolding g using twoPort_probes twoPort_sample twoPort_endpoints t by auto
qed

subsection \<open>Indexing\<close>

lemma index_one_log:
  "\<exists>entries. index_one fac w entry = w\<lparr>log := log w @ entries\<rparr>
     \<and> (DebugLevel, ''Indexing ['' @ dec (length (snd entry)) @ ''] documents: '' @ fst entry)
          \<in> set entries
     \<and> (\<forall>resp err. indexer fac (snd entry) (fst entry @ ''-'' @ job_Name (jobConfig fac))
                       = (resp, Some err) \<longrightarrow> (ErrorLevel, err) \<in> set entries)"
  by (cases "indexer fac (snd entry) (fst entry @ ''-'' @ job_Name (jobConfig fac))")
     (auto simp: index_one_def log_add_def Let_def split: option.splits)

lemma foldl_index_one_log:
  "\<exists>entries. foldl (index_one fac) w ms = w\<lparr>log := log w @ entries\<rparr>
     \<and> (\<forall>entry\<in>set ms.
           (DebugLevel, ''Indexing ['' @ dec (length (snd entry)) @ ''] documents: '' @ fst entry)
             \<in> set entries
           \<and> (\<forall>resp err. indexer fac (snd entry) (fst entry @ ''-'' @ job_Name (jobConfig fac))
                       = (resp, Some err) \<longrightarrow> (ErrorLevel, err) \<in> set entries))"
proof (induction ms arbitrary: w)
  case Nil
  have "foldl (index_one fac) w [] = w\<lparr>log := log w @ []\<rparr>" by simp
  then show ?case by (intro exI [of _ "[]"]) simp
next
  case (Cons m ms)
  from index_one_log [of fac w m] obtain e1 where
    e1: "index_one fac w m = w\<lparr>log := log w @ e1\<rparr>"
      "(DebugLevel, ''Indexing ['' @ dec (length (snd m)) @ ''] documents: '' @ fst m) \<in> set e1"
      "\<forall>resp err. indexer fac (snd m) (fst m @ ''-'' @ job_Name (jobConfig fac))
                       = (resp, Some err) \<longrightarrow> (ErrorLevel, err) \<in> set e1"
    by blast
  from Cons.IH [of "index_one fac w m"] obtain e2 where
    e2: "foldl (index_one fac) (index_one fac w m) ms
           = (index_one fac w m)\<lparr>log := log (index_one fac w m) @ e2\<rparr>"
      "\<forall>entry\<in>set ms.
           (DebugLevel, ''Indexing ['' @ dec (length (snd entry)) @ ''] documents: '' @ fst entry)
             \<in> set e2
           \<and> (\<forall>resp err. indexer fac (snd entry) (fst entry @ ''-'' @ job_Name (jobConfig fac))
                       = (resp, Some err) \<longrightarrow> (ErrorLevel, err) \<in> set e2)"
    by blast
  have "foldl (index_one fac) w (m # ms) = w\<lparr>log := log w @ (e1 @ e2)\<rparr>"
    using e1(1) e2(1) by simp
  moreover have "\<forall>entry\<in>set (m # ms).
           (DebugLevel, ''Indexing ['' @ dec (length (snd entry)) @ ''] documents: '' @ fst entry)
             \<in> set (e1 @ e2)
           \<and> (\<forall>resp err. indexer fac (snd entry) (fst entry @ ''-'' @ job_Name (jobConfig fac))
                       = (resp, Some err) \<longrightarrow> (ErrorLevel, err) \<in> set (e1 @ e2))"
    using e1(2,3) e2(2) by auto
  ultimately show ?case by blast
qed

text \<open>
  Claim C9. \<^verbatim>\<open>index()\<close> changes nothing but the log; for every entry of the metric map the
  indexing is attempted (its debug line is logged), whatever the indexer answered for other
  entries, and an error the indexer returns for it is logged at error level.
  \<^verbatim>\<open>IndexJobSummary\<close>, when the indexer returns an error, appends its info line and the error
  to the log and changes nothing else. Neither function returns a value, so no error
  reaches the caller, and the process status is untouched.
\<close>

theorem indexing_errors_are_logged:
  "(\<exists>entries. index Quantiles reversed fac s w = w\<lparr>log := log w @ entries\<rparr>
      \<and> (\<forall>entry\<in>set (metricMap Quantiles s).
            (DebugLevel, ''Indexing ['' @ dec (length (snd entry)) @ ''] documents: '' @ fst entry)
              \<in> set entries
            \<and> (\<forall>resp err. indexer fac (snd entry) (fst entry @ ''-'' @ job_Name (jobConfig fac))
                        = (resp, Some err) \<longrightarrow> (ErrorLevel, err) \<in> set entries)))
   \<and> (\<forall>resp err. indexer' (foldl (\<lambda>acc summary. acc @ [summary]) [] jobSummaries) jobSummaryMetric
                   = (resp, Some err) \<longrightarrow>
         IndexJobSummary jobSummaries indexer' w =
           w\<lparr>log := log w @ [(InfoLevel, ''Indexing job summaries''), (ErrorLevel, err)]\<rparr>)"
proof -
  let ?ms = "if reversed then rev (metricMap Quantiles s) else metricMap Quantiles s"
  have set_ms: "set ?ms = set (metricMap Quantiles s)" by simp
  have A: "\<exists>entries. index Quantiles reversed fac s w = w\<lparr>log := log w @ entries\<rparr>
      \<and> (\<forall>entry\<in>set (metricMap Quantiles s).
            (DebugLevel, ''Indexing ['' @ dec (length (snd entry)) @ ''] documents: '' @ fst entry)
              \<in> set entries
            \<and> (\<forall>resp err. indexer fac (snd entry) (fst entry @ ''-'' @ job_Name (jobConfig fac))
                        = (resp, Some err) \<longrightarrow> (ErrorLevel, err) \<in> set entries))"
    using foldl_index_one_log [of fac w ?ms] unfolding index_def set_ms .
  have B: "\<forall>resp err. indexer' (foldl (\<lambda>acc summary. acc @ [summary]) [] jobSummaries) jobSummaryMetric
                   = (resp, Some err) \<longrightarrow>
         IndexJobSummary jobSummaries indexer' w =
           w\<lparr>log := log w @ [(InfoLevel, ''Indexing job summaries''), (ErrorLevel, err)]\<rparr>"
    by (simp add: IndexJobSummary_def log_add_def Let_def)
  show ?thesis using A B by (rule conjI)
qed

lemma failing_index_run:
  "index ''quantiles'' False (demoFactory\<lparr>indexer := failingIndexer\<rparr>) stoppedMeasurement freshWorld =
     freshWorld\<lparr>log := log freshWorld @
       [(DebugLevel, ''Indexing [1] documents: svcLatencyMeasurement''),
        (ErrorLevel, ''connection refused''),
        (DebugLevel, ''Indexing [1] documents: svcLatencyQuantilesMeasurement''),
        (ErrorLevel, ''connection refused'')]\<rparr>"
  by (simp add: index_def metricMap_def index_one_def stoppedMeasurement_def failingIndexer_def
      log_add_def Let_def initialMeasurement_def freshWorld_def demoFactory_def dec.simps digit_char_def)

text \<open>
  Witness for claim C9: an indexer that refuses every call.
\<close>

theorem indexing_errors_are_logged_witness:
  "failingIndexer [(1::nat), 2] jobSummaryMetric = ('''', Some ''connection refused'')
   \<and> IndexJobSummary [(1::nat), 2] failingIndexer freshWorld =
       freshWorld\<lparr>log := log freshWorld @
         [(InfoLevel, ''Indexing job summaries''), (ErrorLevel, ''connection refused'')]\<rparr>
   \<and> status (IndexJobSummary [(1::nat), 2] failingIndexer freshWorld) = Running
   \<and> index ''quantiles'' False (demoFactory\<lparr>indexer := failingIndexer\<rparr>) stoppedMeasurement freshWorld =
       freshWorld\<lparr>log := log freshWorld @
         [(DebugLevel, ''Indexing [1] documents: svcLatencyMeasurement''),
          (ErrorLevel, ''connection refused''),
          (DebugLevel, ''Indexing [1] documents: svcLatencyQuantilesMeasurement''),
          (ErrorLevel, ''connection refused'')]\<rparr>"
proof -
  have f: "failingIndexer (foldl (\<lambda>acc summary. acc @ [summary]) [] [(1::nat), 2]) jobSummaryMetric
             = ('''', Some ''connection refused'')"
    by (simp add: failingIndexer_def)
  have a: "IndexJobSummary [(1::nat), 2] failingIndexer freshWorld =
       freshWorld\<lparr>log := log freshWorld @
         [(InfoLevel, ''Indexing job summaries''), (ErrorLevel, ''connection refused'')]\<rparr>"
    using indexing_errors_are_logged [of "''quantiles''" False "demoFactory\<lparr>indexer := failingIndexer\<rparr>"
        stoppedMeasurement freshWorld failingIndexer "[(1::nat), 2]"] f by blast
  have b: "status (IndexJobSummary [(1::nat), 2] failingIndexer freshWorld) = Running"
    unfolding a by (simp add: freshWorld_def)
  show ?thesis using a b failing_index_run by (simp add: failingIndexer_def)
qed

section \<open>Facts about template rendering\<close>

subsection \<open>Execution of a parsed template\<close>

lemma eval_args_strict_missing:
  assumes "k \<in> set (arg_keys args)" and "lookup_key inputData k = None"
  shows "\<exists>e. eval_args MissingKeyErrorAction inputData args = Inl e"
  using assms
proof (induction args)
  case Nil
  then show ?case by simp
next
  case (Cons a rest)
  show ?case
  proof (cases a)
    case (AField k')
    show ?thesis
    proof (cases "lookup_key inputData k'")
      case None
      then show ?thesis using AField by (simp add: eval_field_def)
    next
      case (Some v)
      then have "k \<in> set (arg_keys rest)" using Cons.prems AField by auto
      then obtain e where "eval_args MissingKeyErrorAction inputData rest = Inl e"
        using Cons.IH Cons.prems(2) by blast
      then show ?thesis using AField Some by (simp add: eval_field_def)
    qed
  next
    case (ALit v)
    then have "k \<in> set (arg_keys rest)" using Cons.prems by simp
    then obtain e where "eval_args MissingKeyErrorAction inputData rest = Inl e"
      using Cons.IH Cons.prems(2) by blast
    then show ?thesis using ALit by simp
  qed
qed

lemma exec_node_strict_missing:
  assumes "k \<in> set (keys_of [n])" and "lookup_key inputData k = None"
  shows "\<exists>e. exec_node MissingKeyErrorAction funcs host inputData n = Inl e"
proof (cases n)
  case (TextNode s)
  then show ?thesis using assms by simp
next
  case (FieldNode k')
  then show ?thesis using assms by (simp add: exec_node_def eval_field_def)
next
  case (CallNode f args)
  then have "k \<in> set (arg_keys args)" using assms by simp
  then obtain e where "eval_args MissingKeyErrorAction inputData args = Inl e"
    using eval_args_strict_missing assms(2) by blast
  then show ?thesis using CallNode by (cases "funcs f") (simp_all add: exec_node_def)
qed

lemma keys_of_Cons: "set (keys_of (n # ns)) = set (keys_of [n]) \<union> set (keys_of ns)"
  by (cases n) auto

lemma execute_strict_missing:
  assumes "k \<in> set (keys_of t)" and "lookup_key inputData k = None"
  shows "\<exists>e. template_Execute MissingKeyErrorAction funcs host inputData t = Inl e"
  using assms(1)
proof (induction t)
  case Nil
  then show ?case by simp
next
  case (Cons n ns)
  show ?case
  proof (cases "exec_node MissingKeyErrorAction funcs host inputData n")
    case (Inl e)
    then show ?thesis by simp
  next
    case (Inr out)
    then have "k \<notin> set (keys_of [n])"
      using exec_node_strict_missing [of k n inputData funcs host] assms(2) by auto
    then have "k \<in> set (keys_of ns)" using Cons.prems keys_of_Cons [of n ns] by blast
    then obtain e where "template_Execute MissingKeyErrorAction funcs host inputData ns = Inl e"
      using Cons.IH by blast
    then show ?thesis using Inr by simp
  qed
qed

lemma execute_zero:
  assumes "called t = []"
  shows "template_Execute MissingKeyZeroAction funcs host inputData t = Inr (zero_render inputData t)"
  using assms
proof (induction t)
  case Nil
  then show ?case by simp
next
  case (Cons n ns)
  show ?case
  proof (cases n)
    case (TextNode s)
    then show ?thesis using Cons by (simp add: exec_node_def)
  next
    case (FieldNode k)
    then show ?thesis using Cons
      by (cases "lookup_key inputData k") (simp_all add: exec_node_def eval_field_def)
  next
    case (CallNode f args)
    then show ?thesis using Cons.prems by simp
  qed
qed

lemma called_Cons: "set (called (n # ns)) = set (called [n]) \<union> set (called ns)"
  by (cases n) auto

lemma exec_node_host:
  assumes "\<forall>f\<in>set (called [n]). \<forall>h. funcs f = Some h \<longrightarrow> host_independent h"
  shows "exec_node policy funcs host1 inputData n = exec_node policy funcs host2 inputData n"
proof (cases n)
  case (CallNode f args)
  show ?thesis
  proof (cases "funcs f")
    case None
    then show ?thesis using CallNode by (simp add: exec_node_def)
  next
    case (Some h)
    then have "host_independent h" using assms CallNode by simp
    then have "\<And>vs. h host1 vs = h host2 vs" unfolding host_independent_def by blast
    then show ?thesis using CallNode Some by (simp add: exec_node_def split: sum.splits)
  qed
qed (simp_all add: exec_node_def)

lemma execute_host:
  assumes "\<forall>f\<in>set (called t). \<forall>h. funcs f = Some h \<longrightarrow> host_independent h"
  shows "template_Execute policy funcs host1 inputData t
         = template_Execute policy funcs host2 inputData t"
  using assms
proof (induction t)
  case Nil
  then show ?case by simp
next
  case (Cons n ns)
  have a: "exec_node policy funcs host1 inputData n = exec_node policy funcs host2 inputData n"
    using Cons.prems called_Cons [of n ns] by (intro exec_node_host) auto
  have b: "template_Execute policy funcs host1 inputData ns
         = template_Execute policy funcs host2 inputData ns"
    using Cons.prems called_Cons [of n ns] by (intro Cons.IH) auto
  show ?case by (simp add: a b split: sum.splits)
qed

subsection \<open>The results of RenderTemplate\<close>

lemma RenderTemplate_parse_error:
  assumes "setOption options = Some policy" and "template_Parse funcMap original = Inl e"
  shows "RenderTemplate funcMap host original inputData options w
         = (RenderError (''parsing error: '' @ e), w)"
  using assms by (simp add: RenderTemplate_def)

lemma RenderTemplate_exec_error:
  assumes "setOption options = Some policy" and "template_Parse funcMap original = Inr t"
    and "template_Execute policy funcMap host inputData t = Inl e"
  shows "RenderTemplate funcMap host original inputData options w
         = (RenderError (''rendering error: '' @ e), w)"
  using assms by (simp add: RenderTemplate_def)

lemma RenderTemplate_rendered:
  assumes "setOption options = Some policy" and "template_Parse funcMap original = Inr t"
    and "template_Execute policy funcMap host inputData t = Inr out"
  shows "RenderTemplate funcMap host original inputData options w
         = (Rendered out, log_add TraceLevel (''Rendered template: '' @ out) w)"
  using assms by (simp add: RenderTemplate_def)

lemma RenderTemplate_panic:
  assumes "setOption options = None"
  shows "fst (RenderTemplate funcMap host original inputData options w)
         = RenderPanic (''unrecognized option: '' @ options)"
  using assms by (simp add: RenderTemplate_def)

lemma setOption_error: "setOption MissingKeyError = Some MissingKeyErrorAction"
  by (simp add: setOption_def)

lemma setOption_zero: "setOption MissingKeyZero = Some MissingKeyZeroAction"
  by (simp add: setOption_def)

subsection \<open>Errors and missing keys\<close>

lemma eval_args_zero:
  "eval_args MissingKeyZeroAction inputData args = Inr (map (zero_arg inputData) args)"
proof (induction args)
  case Nil
  then show ?case by simp
next
  case (Cons a rest)
  show ?case
  proof (cases a)
    case (AField k)
    then show ?thesis using Cons
      by (cases "lookup_key inputData k") (simp_all add: eval_field_def zero_arg_def)
  next
    case (ALit v)
    then show ?thesis using Cons by (simp add: zero_arg_def)
  qed
qed

lemma exec_node_zero_call:
  assumes "funcs f = Some h"
  shows "exec_node MissingKeyZeroAction funcs host inputData (CallNode f args) =
           (case h host (map (zero_arg inputData) args) of
              Inl e \<Rightarrow> Inl (''error calling '' @ f @ '': '' @ e)
            | Inr v \<Rightarrow> Inr (print_value v))"
  using assms by (simp add: exec_node_def eval_args_zero)

lemma exec_node_zero_other:
  assumes "\<forall>f args. n \<noteq> CallNode f args"
  shows "\<exists>out. exec_node MissingKeyZeroAction funcs host inputData n = Inr out"
proof (cases n)
  case (FieldNode k)
  then show ?thesis
    by (cases "lookup_key inputData k") (simp_all add: exec_node_def eval_field_def)
qed (use assms in \<open>simp_all add: exec_node_def\<close>)

lemma execute_zero_fails_iff:
  assumes "\<forall>f args. CallNode f args \<in> set t \<longrightarrow> funcs f \<noteq> None"
  shows "(\<exists>e. template_Execute MissingKeyZeroAction funcs host inputData t = Inl e)
         \<longleftrightarrow> (\<exists>f args h e. CallNode f args \<in> set t \<and> funcs f = Some h
                  \<and> h host (map (zero_arg inputData) args) = Inl e)"
  using assms
proof (induction t)
  case Nil
  then show ?case by simp
next
  case (Cons n ns)
  have IH: "(\<exists>e. template_Execute MissingKeyZeroAction funcs host inputData ns = Inl e)
         \<longleftrightarrow> (\<exists>f args h e. CallNode f args \<in> set ns \<and> funcs f = Some h
                  \<and> h host (map (zero_arg inputData) args) = Inl e)"
  proof (rule Cons.IH)
    show "\<forall>f args. CallNode f args \<in> set ns \<longrightarrow> funcs f \<noteq> None"
      using Cons.prems by simp
  qed
  show ?case
  proof (cases "\<exists>f args. n = CallNode f args")
    case False
    then obtain out where o: "exec_node MissingKeyZeroAction funcs host inputData n = Inr out"
      using exec_node_zero_other [of n funcs host inputData] by blast
    have "(\<exists>e. template_Execute MissingKeyZeroAction funcs host inputData (n # ns) = Inl e)
          \<longleftrightarrow> (\<exists>e. template_Execute MissingKeyZeroAction funcs host inputData ns = Inl e)"
      using o by (simp split: sum.splits)
    then show ?thesis using IH False by auto
  next
    case True
    then obtain f args where n: "n = CallNode f args" by blast
    then obtain h where h: "funcs f = Some h" using Cons.prems by auto
    note ex = exec_node_zero_call [where funcs = funcs and f = f and h = h and host = host
        and inputData = inputData and args = args, OF h]
    show ?thesis
    proof (cases "h host (map (zero_arg inputData) args)")
      case (Inl e)
      then have "\<exists>e. template_Execute MissingKeyZeroAction funcs host inputData (n # ns) = Inl e"
        using ex n by simp
      moreover have "\<exists>f args h e. CallNode f args \<in> set (n # ns) \<and> funcs f = Some h
                  \<and> h host (map (zero_arg inputData) args) = Inl e"
        using n h Inl by auto
      ultimately show ?thesis by blast
    next
      case (Inr v)
      then have "(\<exists>e. template_Execute MissingKeyZeroAction funcs host inputData (n # ns) = Inl e)
          \<longleftrightarrow> (\<exists>e. template_Execute MissingKeyZeroAction funcs host inputData ns = Inl e)"
        using ex n by (simp split: sum.splits)
      moreover have "(\<exists>f args h e. CallNode f args \<in> set (n # ns) \<and> funcs f = Some h
                  \<and> h host (map (zero_arg inputData) args) = Inl e)
          \<longleftrightarrow> (\<exists>f args h e. CallNode f args \<in> set ns \<and> funcs f = Some h
                  \<and> h host (map (zero_arg inputData) args) = Inl e)"
        using n h Inr by auto
      ultimately show ?thesis using IH by simp
    qed
  qed
qed

lemma parse_action_registered:
  assumes "parse_action funcs body = Inr (CallNode f args)"
  shows "funcs f \<noteq> None"
  using assms
  by (auto simp: parse_action_def split: list.splits if_splits option.splits sum.splits)

lemma parse_pieces_registered:
  assumes "parse_pieces funcs pieces = Inr t" and "CallNode f args \<in> set t"
  shows "funcs f \<noteq> None"
  using assms
proof (induction funcs pieces arbitrary: t rule: parse_pieces.induct)
  case (1 funcs)
  then show ?case by simp
next
  case (2 funcs s rest)
  then show ?case by (auto split: sum.splits)
next
  case (3 funcs body rest)
  from "3.prems"(1) obtain n ns where
    n: "parse_action funcs body = Inr n" and ns: "parse_pieces funcs rest = Inr ns"
    and t: "t = n # ns"
    by (auto split: sum.splits)
  show ?case
  proof (cases "n = CallNode f args")
    case True
    then show ?thesis using parse_action_registered n by blast
  next
    case False
    then have "CallNode f args \<in> set ns" using "3.prems"(2) t by simp
    then show ?thesis using "3.IH" n ns by blast
  qed
qed

lemma template_Parse_registered:
  assumes "template_Parse funcs original = Inr t" and "CallNode f args \<in> set t"
  shows "funcs f \<noteq> None"
  using assms parse_pieces_registered
  by (auto simp: template_Parse_def split: sum.splits)

text \<open>
  Claim C7, as amended. With a valid option, \<^verbatim>\<open>RenderTemplate\<close> returns an error exactly
  when parsing the template fails or executing it fails. Under \<^verbatim>\<open>missingkey=error\<close> a
  template that refers to a key the data lacks gives an error. Under \<^verbatim>\<open>missingkey=zero\<close> a
  missing key is replaced by the zero value of the map's element type and the reference is
  no error: a template that parses renders exactly when every helper it calls accepts its
  arguments, the zero value standing for each missing key (a helper may reject it); a
  template of text and field references always renders, with the zero value printed in
  place of each missing key.
\<close>

theorem RenderTemplate_errors:
  assumes "setOption options = Some policy"
  shows "((\<exists>e. fst (RenderTemplate funcMap host original inputData options w) = RenderError e)
          \<longleftrightarrow> (\<exists>e. template_Parse funcMap original = Inl e)
              \<or> (\<exists>t e. template_Parse funcMap original = Inr t
                    \<and> template_Execute policy funcMap host inputData t = Inl e))
       \<and> (\<forall>t k. template_Parse funcMap original = Inr t \<and> k \<in> set (keys_of t)
                 \<and> lookup_key inputData k = None \<longrightarrow>
            (\<exists>e. fst (RenderTemplate funcMap host original inputData MissingKeyError w)
                   = RenderError e))
       \<and> (\<forall>t. template_Parse funcMap original = Inr t \<longrightarrow>
            ((\<exists>out. fst (RenderTemplate funcMap host original inputData MissingKeyZero w)
                      = Rendered out)
             \<longleftrightarrow> (\<forall>f args h. CallNode f args \<in> set t \<and> funcMap f = Some h \<longrightarrow>
                    (\<exists>v. h host (map (zero_arg inputData) args) = Inr v)))
            \<and> (called t = [] \<longrightarrow>
                 fst (RenderTemplate funcMap host original inputData MissingKeyZero w)
                   = Rendered (zero_render inputData t)))"
proof -
  let ?r = "fst (RenderTemplate funcMap host original inputData options w)"
  let ?z = "fst (RenderTemplate funcMap host original inputData MissingKeyZero w)"
  have A: "(\<exists>e. ?r = RenderError e)
          \<longleftrightarrow> (\<exists>e. template_Parse funcMap original = Inl e)
              \<or> (\<exists>t e. template_Parse funcMap original = Inr t
                    \<and> template_Execute policy funcMap host inputData t = Inl e)"
  proof (cases "template_Parse funcMap original")
    case (Inl e)
    then have "?r = RenderError (''parsing error: '' @ e)"
      using RenderTemplate_parse_error [OF assms Inl] by simp
    then show ?thesis using Inl by simp
  next
    case (Inr t)
    show ?thesis
    proof (cases "template_Execute policy funcMap host inputData t")
      case (Inl e)
      then have "?r = RenderError (''rendering error: '' @ e)"
        using RenderTemplate_exec_error [OF assms Inr Inl] by simp
      then show ?thesis using Inr Inl by simp
    next
      case inr: (Inr out)
      then have "?r = Rendered out"
        using RenderTemplate_rendered [OF assms Inr inr] by simp
      then show ?thesis using Inr inr by simp
    qed
  qed
  have B: "\<forall>t k. template_Parse funcMap original = Inr t \<and> k \<in> set (keys_of t)
                 \<and> lookup_key inputData k = None \<longrightarrow>
            (\<exists>e. fst (RenderTemplate funcMap host original inputData MissingKeyError w)
                   = RenderError e)"
  proof (intro allI impI)
    fix t k
    assume h: "template_Parse funcMap original = Inr t \<and> k \<in> set (keys_of t)
                 \<and> lookup_key inputData k = None"
    then have p: "template_Parse funcMap original = Inr t" and k: "k \<in> set (keys_of t)"
      and m: "lookup_key inputData k = None" by simp_all
    obtain e where e: "template_Execute MissingKeyErrorAction funcMap host inputData t = Inl e"
      using execute_strict_missing [OF k m, of funcMap host] by (elim exE)
    show "\<exists>e. fst (RenderTemplate funcMap host original inputData MissingKeyError w)
                   = RenderError e"
      using RenderTemplate_exec_error [OF setOption_error p e] by simp
  qed
  have C: "\<forall>t. template_Parse funcMap original = Inr t \<longrightarrow>
            ((\<exists>out. ?z = Rendered out)
             \<longleftrightarrow> (\<forall>f args h. CallNode f args \<in> set t \<and> funcMap f = Some h \<longrightarrow>
                    (\<exists>v. h host (map (zero_arg inputData) args) = Inr v)))
            \<and> (called t = [] \<longrightarrow> ?z = Rendered (zero_render inputData t))"
  proof (intro allI impI)
    fix t
    assume p: "template_Parse funcMap original = Inr t"
    have reg: "\<forall>f args. CallNode f args \<in> set t \<longrightarrow> funcMap f \<noteq> None"
      using template_Parse_registered [OF p] by blast
    note iff = execute_zero_fails_iff [OF reg, of host inputData]
    have ok: "(\<forall>f args h. CallNode f args \<in> set t \<and> funcMap f = Some h \<longrightarrow>
                    (\<exists>v. h host (map (zero_arg inputData) args) = Inr v))
              \<longleftrightarrow> \<not> (\<exists>f args h e. CallNode f args \<in> set t \<and> funcMap f = Some h
                  \<and> h host (map (zero_arg inputData) args) = Inl e)"
    proof
      assume a: "\<forall>f args h. CallNode f args \<in> set t \<and> funcMap f = Some h \<longrightarrow>
                    (\<exists>v. h host (map (zero_arg inputData) args) = Inr v)"
      show "\<not> (\<exists>f args h e. CallNode f args \<in> set t \<and> funcMap f = Some h
                  \<and> h host (map (zero_arg inputData) args) = Inl e)"
      proof
        assume "\<exists>f args h e. CallNode f args \<in> set t \<and> funcMap f = Some h
                  \<and> h host (map (zero_arg inputData) args) = Inl e"
        then obtain f args h e where b: "CallNode f args \<in> set t" "funcMap f = Some h"
          "h host (map (zero_arg inputData) args) = Inl e" by blast
        then obtain v where "h host (map (zero_arg inputData) args) = Inr v" using a by blast
        then show False using b(3) by simp
      qed
    next
      assume a: "\<not> (\<exists>f args h e. CallNode f args \<in> set t \<and> funcMap f = Some h
                  \<and> h host (map (zero_arg inputData) args) = Inl e)"
      show "\<forall>f args h. CallNode f args \<in> set t \<and> funcMap f = Some h \<longrightarrow>
                    (\<exists>v. h host (map (zero_arg inputData) args) = Inr v)"
      proof (intro allI impI)
        fix f args h
        assume b: "CallNode f args \<in> set t \<and> funcMap f = Some h"
        show "\<exists>v. h host (map (zero_arg inputData) args) = Inr v"
        proof (cases "h host (map (zero_arg inputData) args)")
          case (Inl e)
          then show ?thesis using a b by blast
        next
          case (Inr v)
          then show ?thesis by blast
        qed
      qed
    qed
    have first: "(\<exists>out. ?z = Rendered out)
             \<longleftrightarrow> (\<forall>f args h. CallNode f args \<in> set t \<and> funcMap f = Some h \<longrightarrow>
                    (\<exists>v. h host (map (zero_arg inputData) args) = Inr v))"
    proof (cases "template_Execute MissingKeyZeroAction funcMap host inputData t")
      case (Inl e)
      then have "?z = RenderError (''rendering error: '' @ e)"
        using RenderTemplate_exec_error [OF setOption_zero p Inl] by simp
      then show ?thesis using iff ok Inl by simp
    next
      case (Inr out)
      then have "?z = Rendered out"
        using RenderTemplate_rendered [OF setOption_zero p Inr] by simp
      then show ?thesis using iff ok Inr by simp
    qed
    have second: "called t = [] \<longrightarrow> ?z = Rendered (zero_render inputData t)"
    proof (rule impI)
      assume c: "called t = []"
      show "?z = Rendered (zero_render inputData t)"
        using RenderTemplate_rendered [OF setOption_zero p execute_zero [OF c]] by simp
    qed
    show "((\<exists>out. ?z = Rendered out)
             \<longleftrightarrow> (\<forall>f args h. CallNode f args \<in> set t \<and> funcMap f = Some h \<longrightarrow>
                    (\<exists>v. h host (map (zero_arg inputData) args) = Inr v)))
            \<and> (called t = [] \<longrightarrow> ?z = Rendered (zero_render inputData t))"
      using first second by blast
  qed
  show ?thesis using A B C by blast
qed

lemma parse_unset:
  "template_Parse demoFuncMap ''x: {{ .UNSET }}''
     = Inr [TextNode ''x: '', FieldNode ''UNSET'', TextNode []]"
  by (simp add: tmpl_defs)

lemma parse_subnet_unset:
  "template_Parse demoFuncMap ''net: {{GetSubnet24 .UNSET}}''
     = Inr [TextNode ''net: '', CallNode ''GetSubnet24'' [AField ''UNSET''], TextNode []]"
  by (simp add: tmpl_defs)

lemma render_subnet_unset:
  "fst (RenderTemplate demoFuncMap demoHost ''net: {{GetSubnet24 .UNSET}}'' demoData
          MissingKeyZero freshWorld)
     = RenderError ''rendering error: error calling GetSubnet24: wrong number or type of args for GetSubnet24''"
  by (simp add: tmpl_defs)

lemma render_subnet_unset_string:
  "fst (RenderTemplate demoFuncMap demoHost ''net: {{GetSubnet24 .UNSET}}'' (StringMap Map.empty)
          MissingKeyZero freshWorld)
     = RenderError ''rendering error: error calling GetSubnet24: wrong number or type of args for GetSubnet24''"
  by (simp add: tmpl_defs)

lemma GetSubnet24_at_0: "GetSubnet24 0 = ''1.0.0.0/24''"
  by code_simp

lemma render_subnet_unset_int:
  "fst (RenderTemplate demoFuncMap demoHost ''net: {{GetSubnet24 .UNSET}}'' (IntMap Map.empty)
          MissingKeyZero freshWorld)
     = Rendered ''net: 1.0.0.0/24''"
  by (simp add: tmpl_defs GetSubnet24_at_0)

text \<open>
  Witness for claim C7: the template \<^verbatim>\<open>x: {{ .UNSET }}\<close> under both policies, and the template
  \<^verbatim>\<open>net: {{GetSubnet24 .UNSET}}\<close> under the zero policy, with data whose zero value the helper
  accepts (a map of integers) and with data whose zero value it rejects.
\<close>

theorem RenderTemplate_errors_witness:
  "setOption MissingKeyError = Some MissingKeyErrorAction
   \<and> template_Parse demoFuncMap ''x: {{ .UNSET }}''
       = Inr [TextNode ''x: '', FieldNode ''UNSET'', TextNode []]
   \<and> lookup_key demoData ''UNSET'' = None
   \<and> (\<exists>e. fst (RenderTemplate demoFuncMap demoHost ''x: {{ .UNSET }}'' demoData MissingKeyError
                   freshWorld) = RenderError e)
   \<and> fst (RenderTemplate demoFuncMap demoHost ''x: {{ .UNSET }}'' demoData MissingKeyZero freshWorld)
       = Rendered ''x: <no value>''
   \<and> fst (RenderTemplate demoFuncMap demoHost ''x: {{ .UNSET }}'' (StringMap Map.empty)
            MissingKeyZero freshWorld)
       = Rendered ''x: ''
   \<and> template_Parse demoFuncMap ''net: {{GetSubnet24 .UNSET}}''
       = Inr [TextNode ''net: '', CallNode ''GetSubnet24'' [AField ''UNSET''], TextNode []]
   \<and> (\<exists>out. fst (RenderTemplate demoFuncMap demoHost ''net: {{GetSubnet24 .UNSET}}''
                     (IntMap Map.empty) MissingKeyZero freshWorld) = Rendered out)
   \<and> \<not> (\<exists>out. fst (RenderTemplate demoFuncMap demoHost ''net: {{GetSubnet24 .UNSET}}''
                     demoData MissingKeyZero freshWorld) = Rendered out)"
proof -
  let ?x = "''x: {{ .UNSET }}''"
  let ?n = "''net: {{GetSubnet24 .UNSET}}''"
  let ?t = "[TextNode ''x: '', FieldNode ''UNSET'', TextNode []]"
  let ?u = "[TextNode ''net: '', CallNode ''GetSubnet24'' [AField ''UNSET''], TextNode []]"
  have o: "setOption MissingKeyError = Some MissingKeyErrorAction" by (rule setOption_error)
  have k: "''UNSET'' \<in> set (keys_of ?t)" by simp
  have c: "called ?t = []" by simp
  have m: "lookup_key demoData ''UNSET'' = None" by (simp add: demoData_def)
  note X = RenderTemplate_errors [OF o, of demoFuncMap demoHost ?x _ freshWorld]
  note N = RenderTemplate_errors [OF o, of demoFuncMap demoHost ?n _ freshWorld]
  have a: "\<exists>e. fst (RenderTemplate demoFuncMap demoHost ?x demoData MissingKeyError freshWorld)
            = RenderError e"
    using X [of demoData] parse_unset k m by blast
  have "fst (RenderTemplate demoFuncMap demoHost ?x demoData MissingKeyZero freshWorld)
       = Rendered (zero_render demoData ?t)"
    using X [of demoData] parse_unset c by blast
  then have b: "fst (RenderTemplate demoFuncMap demoHost ?x demoData MissingKeyZero freshWorld)
       = Rendered ''x: <no value>''"
    by (simp add: demoData_def)
  have "fst (RenderTemplate demoFuncMap demoHost ?x (StringMap Map.empty) MissingKeyZero freshWorld)
       = Rendered (zero_render (StringMap Map.empty) ?t)"
    using X [of "StringMap Map.empty"] parse_unset c by blast
  then have d: "fst (RenderTemplate demoFuncMap demoHost ?x (StringMap Map.empty) MissingKeyZero
                       freshWorld) = Rendered ''x: ''"
    by simp
  have good: "\<forall>f args h. CallNode f args \<in> set ?u \<and> demoFuncMap f = Some h \<longrightarrow>
                (\<exists>v. h demoHost (map (zero_arg (IntMap Map.empty)) args) = Inr v)"
    by (simp add: demoFuncMap_def helper_GetSubnet24_def zero_arg_def)
  have e: "\<exists>out. fst (RenderTemplate demoFuncMap demoHost ?n (IntMap Map.empty) MissingKeyZero
                        freshWorld) = Rendered out"
    using N [of "IntMap Map.empty"] parse_subnet_unset good by blast
  have bad: "\<not> (\<forall>f args h. CallNode f args \<in> set ?u \<and> demoFuncMap f = Some h \<longrightarrow>
                (\<exists>v. h demoHost (map (zero_arg demoData) args) = Inr v))"
    by (simp add: demoFuncMap_def helper_GetSubnet24_def zero_arg_def demoData_def)
  have f: "\<not> (\<exists>out. fst (RenderTemplate demoFuncMap demoHost ?n demoData MissingKeyZero
                        freshWorld) = Rendered out)"
    using N [of demoData] parse_subnet_unset bad by blast
  show ?thesis using o parse_unset m a b d parse_subnet_unset e f by blast
qed

text \<open>
  Counterexample to claim C7 as stated: under \<^verbatim>\<open>missingkey=zero\<close> the template
  \<^verbatim>\<open>net: {{GetSubnet24 .UNSET}}\<close> does not render when the key is missing. The zero value of
  a map of any values (no value) and of a map of strings (the empty string) is not an
  integer, and the call of the helper fails.
\<close>

theorem RenderTemplate_zero_counterexample:
  "lookup_key demoData ''UNSET'' = None
   \<and> fst (RenderTemplate demoFuncMap demoHost ''net: {{GetSubnet24 .UNSET}}'' demoData
            MissingKeyZero freshWorld)
       = RenderError ''rendering error: error calling GetSubnet24: wrong number or type of args for GetSubnet24''
   \<and> lookup_key (StringMap Map.empty) ''UNSET'' = None
   \<and> fst (RenderTemplate demoFuncMap demoHost ''net: {{GetSubnet24 .UNSET}}'' (StringMap Map.empty)
            MissingKeyZero freshWorld)
       = RenderError ''rendering error: error calling GetSubnet24: wrong number or type of args for GetSubnet24''"
  unfolding render_subnet_unset render_subnet_unset_string by (simp add: demoData_def)

subsection \<open>Two invocations\<close>

lemma lex_text_plain:
  "CHR ''{'' \<notin> set original \<Longrightarrow> lex_text acc original = Inr [PText (rev acc @ original)]"
proof (induction original arbitrary: acc rule: length_induct)
  case (1 xs)
  show ?case
  proof (cases xs)
    case Nil
    then show ?thesis by simp
  next
    case (Cons c1 rest)
    show ?thesis
    proof (cases rest)
      case Nil
      then show ?thesis using Cons by simp
    next
      case inner: (Cons c2 cs)
      have "c1 \<noteq> CHR ''{''" using "1.prems" Cons by auto
      then have "lex_text acc xs = lex_text (c1 # acc) (c2 # cs)"
        using Cons inner by simp
      moreover have "lex_text (c1 # acc) (c2 # cs) = Inr [PText (rev (c1 # acc) @ (c2 # cs))]"
        using "1.IH" "1.prems" Cons inner by simp
      ultimately show ?thesis using Cons inner by simp
    qed
  qed
qed

lemma template_Parse_plain:
  "CHR ''{'' \<notin> set original \<Longrightarrow> template_Parse funcs original = Inr [TextNode original]"
  by (simp add: template_Parse_def lex_text_plain)

lemma RenderTemplate_plain:
  assumes "setOption options = Some policy" and "CHR ''{'' \<notin> set original"
  shows "fst (RenderTemplate funcMap host original inputData options w) = Rendered original"
proof -
  have p: "template_Parse funcMap original = Inr [TextNode original]"
    using assms(2) by (rule template_Parse_plain)
  have e: "template_Execute policy funcMap host inputData [TextNode original] = Inr original"
    by (simp add: exec_node_def)
  show ?thesis using RenderTemplate_rendered [OF assms(1) p e] by simp
qed

lemma parse_action_agree:
  assumes "parse_action funcs body = Inr n" and "\<forall>f\<in>set (called [n]). funcs' f = funcs f"
  shows "parse_action funcs' body = Inr n"
proof (cases "filter (\<lambda>word. word \<noteq> []) (strings_Split body CHR '' '')")
  case Nil
  then show ?thesis using assms(1) by (simp add: parse_action_def)
next
  case (Cons word args)
  show ?thesis
  proof (cases "is_field word")
    case True
    then show ?thesis using assms(1) Cons by (simp add: parse_action_def)
  next
    case False
    show ?thesis
    proof (cases "is_ident word")
      case nid: False
      then show ?thesis using assms(1) Cons False by (simp add: parse_action_def)
    next
      case True
      from assms(1) obtain h xs where
        h: "funcs word = Some h" and xs: "parse_args args = Inr xs" and n: "n = CallNode word xs"
        using Cons False True
        by (auto simp: parse_action_def split: option.splits sum.splits)
      have "funcs' word = Some h" using assms(2) n h by simp
      then show ?thesis using Cons False True xs n by (simp add: parse_action_def)
    qed
  qed
qed

lemma parse_pieces_agree:
  assumes "parse_pieces funcs pieces = Inr t" and "\<forall>f\<in>set (called t). funcs' f = funcs f"
  shows "parse_pieces funcs' pieces = Inr t"
  using assms
proof (induction funcs pieces arbitrary: t rule: parse_pieces.induct)
  case (1 funcs)
  then show ?case by simp
next
  case (2 funcs s rest)
  from "2.prems"(1) obtain ns where
    ns: "parse_pieces funcs rest = Inr ns" and t: "t = TextNode s # ns"
    by (auto split: sum.splits)
  have "\<forall>f\<in>set (called ns). funcs' f = funcs f" using "2.prems"(2) t by simp
  then have "parse_pieces funcs' rest = Inr ns" using "2.IH" ns by blast
  then show ?case using t by simp
next
  case (3 funcs body rest)
  from "3.prems"(1) obtain n ns where
    n: "parse_action funcs body = Inr n" and ns: "parse_pieces funcs rest = Inr ns"
    and t: "t = n # ns"
    by (auto split: sum.splits)
  have c: "set (called t) = set (called [n]) \<union> set (called ns)"
    unfolding t by (rule called_Cons)
  have "\<forall>f\<in>set (called ns). funcs' f = funcs f" using "3.prems"(2) c by blast
  then have a: "parse_pieces funcs' rest = Inr ns" using "3.IH" n ns by blast
  have "\<forall>f\<in>set (called [n]). funcs' f = funcs f" using "3.prems"(2) c by blast
  then have b: "parse_action funcs' body = Inr n" using parse_action_agree [OF n] by blast
  show ?case using a b t by simp
qed

lemma template_Parse_agree:
  assumes "template_Parse funcs original = Inr t" and "\<forall>f\<in>set (called t). funcs' f = funcs f"
  shows "template_Parse funcs' original = Inr t"
  using assms parse_pieces_agree
  by (auto simp: template_Parse_def split: sum.splits)

lemma exec_node_agree:
  assumes "\<forall>f\<in>set (called [n]). funcs' f = funcs f"
  shows "exec_node policy funcs' host inputData n = exec_node policy funcs host inputData n"
  using assms by (cases n) (simp_all add: exec_node_def)

lemma execute_agree:
  assumes "\<forall>f\<in>set (called t). funcs' f = funcs f"
  shows "template_Execute policy funcs' host inputData t
         = template_Execute policy funcs host inputData t"
  using assms
proof (induction t)
  case Nil
  then show ?case by simp
next
  case (Cons n ns)
  have a: "exec_node policy funcs' host inputData n = exec_node policy funcs host inputData n"
    using Cons.prems called_Cons [of n ns] by (intro exec_node_agree) auto
  have b: "template_Execute policy funcs' host inputData ns
         = template_Execute policy funcs host inputData ns"
    using Cons.prems called_Cons [of n ns] by (intro Cons.IH) auto
  show ?case by (simp add: a b split: sum.splits)
qed

lemma RenderTemplate_agree:
  assumes "template_Parse funcMap original = Inr t"
    and "\<forall>f\<in>set (called t). funcMap' f = funcMap f"
  shows "fst (RenderTemplate funcMap' host original inputData options w')
         = fst (RenderTemplate funcMap host original inputData options w)"
proof -
  have p: "template_Parse funcMap' original = Inr t"
    using template_Parse_agree [OF assms] .
  have e: "template_Execute policy funcMap' host inputData t
         = template_Execute policy funcMap host inputData t" for policy
    using execute_agree [OF assms(2)] .
  show ?thesis
    by (simp add: RenderTemplate_def assms(1) p e split: option.splits sum.splits)
qed

text \<open>
  Claim C8, as amended. With the same function map, two invocations of \<^verbatim>\<open>RenderTemplate\<close>
  on the same template, data and option give the same result, whatever the clock and
  the environment of the process and whatever the logs they run in, provided every helper
  the template calls reads nothing but its arguments. The function map matters only through
  the helpers the template calls: registering other names in between changes nothing. The
  bytes are those of the template: a document without actions is returned as it is.
\<close>

theorem RenderTemplate_deterministic:
  assumes "\<forall>t. template_Parse funcMap original = Inr t \<longrightarrow>
             (\<forall>f\<in>set (called t). \<forall>h. funcMap f = Some h \<longrightarrow> host_independent h)"
  shows "fst (RenderTemplate funcMap host1 original inputData options w1)
           = fst (RenderTemplate funcMap host2 original inputData options w2)
       \<and> (\<forall>t funcMap'. template_Parse funcMap original = Inr t
               \<and> (\<forall>f\<in>set (called t). funcMap' f = funcMap f) \<longrightarrow>
             fst (RenderTemplate funcMap' host2 original inputData options w2)
               = fst (RenderTemplate funcMap host1 original inputData options w1))
       \<and> (CHR ''{'' \<notin> set original \<and> setOption options \<noteq> None \<longrightarrow>
             fst (RenderTemplate funcMap host1 original inputData options w1) = Rendered original)"
proof -
  have A: "fst (RenderTemplate funcMap host1 original inputData options w1)
           = fst (RenderTemplate funcMap host2 original inputData options w2)"
  proof (cases "setOption options")
    case None
    then show ?thesis by (simp add: RenderTemplate_panic)
  next
    case (Some policy)
    show ?thesis
    proof (cases "template_Parse funcMap original")
      case (Inl e)
      show ?thesis
        by (simp add: RenderTemplate_parse_error [OF Some Inl])
    next
      case (Inr t)
      have "\<forall>f\<in>set (called t). \<forall>h. funcMap f = Some h \<longrightarrow> host_independent h"
        using assms Inr by blast
      then have eq: "template_Execute policy funcMap host1 inputData t
           = template_Execute policy funcMap host2 inputData t"
        by (rule execute_host)
      show ?thesis
      proof (cases "template_Execute policy funcMap host2 inputData t")
        case (Inl e)
        then have "template_Execute policy funcMap host1 inputData t = Inl e" using eq by simp
        then show ?thesis
          using RenderTemplate_exec_error [OF Some Inr] Inl by simp
      next
        case inr: (Inr out)
        then have "template_Execute policy funcMap host1 inputData t = Inr out" using eq by simp
        then show ?thesis
          using RenderTemplate_rendered [OF Some Inr] inr by simp
      qed
    qed
  qed
  have B: "\<forall>t funcMap'. template_Parse funcMap original = Inr t
               \<and> (\<forall>f\<in>set (called t). funcMap' f = funcMap f) \<longrightarrow>
             fst (RenderTemplate funcMap' host2 original inputData options w2)
               = fst (RenderTemplate funcMap host1 original inputData options w1)"
  proof (intro allI impI)
    fix t funcMap'
    assume h: "template_Parse funcMap original = Inr t
               \<and> (\<forall>f\<in>set (called t). funcMap' f = funcMap f)"
    then have p: "template_Parse funcMap original = Inr t"
      and a: "\<forall>f\<in>set (called t). funcMap' f = funcMap f" by blast+
    have "fst (RenderTemplate funcMap' host2 original inputData options w2)
            = fst (RenderTemplate funcMap host2 original inputData options w2)"
      by (rule RenderTemplate_agree [OF p a])
    then show "fst (RenderTemplate funcMap' host2 original inputData options w2)
               = fst (RenderTemplate funcMap host1 original inputData options w1)"
      using A by simp
  qed
  have C: "CHR ''{'' \<notin> set original \<and> setOption options \<noteq> None \<longrightarrow>
             fst (RenderTemplate funcMap host1 original inputData options w1) = Rendered original"
  proof (rule impI)
    assume h: "CHR ''{'' \<notin> set original \<and> setOption options \<noteq> None"
    then obtain policy where o: "setOption options = Some policy" by auto
    from h have nb: "CHR ''{'' \<notin> set original" by simp
    show "fst (RenderTemplate funcMap host1 original inputData options w1) = Rendered original"
      by (rule RenderTemplate_plain [OF o nb])
  qed
  show ?thesis using A B C by blast
qed

lemma parse_subnet:
  "template_Parse demoFuncMap ''subnet: {{GetSubnet24 256}} qps: {{ .QPS }}''
     = Inr [TextNode ''subnet: '', CallNode ''GetSubnet24'' [ALit (VInt 256)],
            TextNode '' qps: '', FieldNode ''QPS'', TextNode []]"
  by (simp add: tmpl_defs)

lemma GetSubnet24_at_1: "GetSubnet24 1 = ''1.0.1.0/24''"
  by code_simp

lemma helper_GetSubnet24_pure: "host_independent helper_GetSubnet24"
  by (simp add: host_independent_def helper_GetSubnet24_def)

lemma render_subnet:
  "fst (RenderTemplate demoFuncMap demoHost ''subnet: {{GetSubnet24 256}} qps: {{ .QPS }}'' demoData
          MissingKeyError freshWorld) = Rendered ''subnet: 1.1.0.0/24 qps: 5''"
  by (simp add: tmpl_defs GetSubnet24_at_256)

text \<open>
  Witness for claim C8: a template that calls \<^verbatim>\<open>GetSubnet24\<close>, rendered at two instants in two
  environments, with a function map that also holds \<open>now\<close> and \<open>env\<close>, and once more after
  another helper has been registered; and a document without actions.
\<close>

theorem RenderTemplate_deterministic_witness:
  "host_independent (helper_GetSubnet24 :: host helper)
   \<and> \<not> host_independent helper_now \<and> \<not> host_independent helper_env
   \<and> fst (RenderTemplate demoFuncMap demoHost ''subnet: {{GetSubnet24 256}} qps: {{ .QPS }}''
            demoData MissingKeyError freshWorld)
     = fst (RenderTemplate demoFuncMap \<lparr>clock = 1700000999, environ = Map.empty\<rparr>
              ''subnet: {{GetSubnet24 256}} qps: {{ .QPS }}'' demoData
              MissingKeyError (log_add InfoLevel ''second run'' freshWorld))
   \<and> fst (RenderTemplate demoFuncMap \<lparr>clock = 1700000999, environ = Map.empty\<rparr>
            ''subnet: {{GetSubnet24 256}} qps: {{ .QPS }}'' demoData
            MissingKeyError (log_add InfoLevel ''second run'' freshWorld))
     = Rendered ''subnet: 1.1.0.0/24 qps: 5''
   \<and> fst (RenderTemplate
            (fst (AddRenderingFunction ''Subnet'' helper_GetSubnet24 (demoFuncMap, freshWorld)))
            \<lparr>clock = 1700000999, environ = Map.empty\<rparr>
            ''subnet: {{GetSubnet24 256}} qps: {{ .QPS }}'' demoData
            MissingKeyError (log_add InfoLevel ''second run'' freshWorld))
     = Rendered ''subnet: 1.1.0.0/24 qps: 5''
   \<and> fst (RenderTemplate demoFuncMap demoHost ''kind: Namespace'' demoData MissingKeyError freshWorld)
     = Rendered ''kind: Namespace''"
proof -
  let ?src = "''subnet: {{GetSubnet24 256}} qps: {{ .QPS }}''"
  let ?t = "[TextNode ''subnet: '', CallNode ''GetSubnet24'' [ALit (VInt 256)],
            TextNode '' qps: '', FieldNode ''QPS'', TextNode []]"
  let ?h2 = "\<lparr>clock = 1700000999, environ = Map.empty\<rparr>"
  let ?w2 = "log_add InfoLevel ''second run'' freshWorld"
  let ?fm = "fst (AddRenderingFunction ''Subnet'' helper_GetSubnet24 (demoFuncMap, freshWorld))"
  have h: "\<forall>t. template_Parse demoFuncMap ?src = Inr t \<longrightarrow>
             (\<forall>f\<in>set (called t). \<forall>h. demoFuncMap f = Some h \<longrightarrow> host_independent h)"
    unfolding parse_subnet using helper_GetSubnet24_pure by (simp add: demoFuncMap_def)
  have h': "\<forall>t. template_Parse demoFuncMap ''kind: Namespace'' = Inr t \<longrightarrow>
             (\<forall>f\<in>set (called t). \<forall>h. demoFuncMap f = Some h \<longrightarrow> host_independent h)"
    by (simp add: template_Parse_plain)
  have now: "\<not> host_independent helper_now"
  proof
    assume "host_independent helper_now"
    then have "helper_now \<lparr>clock = 0, environ = Map.empty\<rparr> []
               = helper_now \<lparr>clock = 1, environ = Map.empty\<rparr> []"
      unfolding host_independent_def by blast
    then show False by (simp add: helper_now_def)
  qed
  have env: "\<not> host_independent helper_env"
  proof
    assume "host_independent helper_env"
    then have "helper_env \<lparr>clock = 0, environ = Map.empty\<rparr> [VStr ''GC'']
               = helper_env \<lparr>clock = 0, environ = [''GC'' \<mapsto> ''true'']\<rparr> [VStr ''GC'']"
      unfolding host_independent_def by blast
    then show False by (simp add: helper_env_def)
  qed
  have agree: "\<forall>f\<in>set (called ?t). ?fm f = demoFuncMap f"
    by (simp add: AddRenderingFunction_def)
  note T = RenderTemplate_deterministic [OF h, of demoHost demoData MissingKeyError freshWorld ?h2 ?w2]
  have eq: "fst (RenderTemplate demoFuncMap demoHost ?src demoData MissingKeyError freshWorld)
     = fst (RenderTemplate demoFuncMap ?h2 ?src demoData MissingKeyError ?w2)"
    using T by blast
  have reg: "fst (RenderTemplate ?fm ?h2 ?src demoData MissingKeyError ?w2)
     = fst (RenderTemplate demoFuncMap demoHost ?src demoData MissingKeyError freshWorld)"
    using T parse_subnet agree by blast
  have plain: "fst (RenderTemplate demoFuncMap demoHost ''kind: Namespace'' demoData MissingKeyError
                      freshWorld) = Rendered ''kind: Namespace''"
    using RenderTemplate_deterministic [OF h', of demoHost demoData MissingKeyError freshWorld
        demoHost freshWorld]
    by (simp add: setOption_def)
  show ?thesis using helper_GetSubnet24_pure now env eq reg render_subnet plain by simp
qed

lemma render_before_registration:
  "fst (RenderTemplate demoFuncMap demoHost ''net: {{Subnet 1}}'' demoData MissingKeyError freshWorld)
     = RenderError ''parsing error: function Subnet not defined''"
  by (simp add: tmpl_defs)

lemma render_after_registration:
  "fst (RenderTemplate (fst (AddRenderingFunction ''Subnet'' helper_GetSubnet24 (demoFuncMap, freshWorld)))
          demoHost ''net: {{Subnet 1}}'' demoData MissingKeyError freshWorld)
     = Rendered ''net: 1.0.1.0/24''"
  by (simp add: tmpl_defs GetSubnet24_at_1)

lemma render_env_true:
  "fst (RenderTemplate demoFuncMap demoHost ''gc: {{env `GC`}}'' demoData MissingKeyError freshWorld)
     = Rendered ''gc: true''"
  by (simp add: tmpl_defs)

lemma render_env_false:
  "fst (RenderTemplate demoFuncMap (demoHost\<lparr>environ := [''GC'' \<mapsto> ''false'']\<rparr>)
          ''gc: {{env `GC`}}'' demoData MissingKeyError freshWorld)
     = Rendered ''gc: false''"
  by (simp add: tmpl_defs)

lemma render_env_double_quoted:
  "fst (RenderTemplate demoFuncMap demoHost (''gc: {{env '' @ [CHR 0x22] @ ''GC'' @ [CHR 0x22] @ ''}}'')
          demoData MissingKeyError freshWorld)
     = Rendered ''gc: true''"
  by (simp add: tmpl_defs)

text \<open>
  Counterexample to claim C8 as stated, with no time-based helper involved. The same
  template, data and option before and after a call of \<^verbatim>\<open>AddRenderingFunction\<close>: the first
  invocation fails to parse, the second renders. And the same template, data and option
  at the same instant in two environments: \<open>env\<close> reads the variable \<open>GC\<close> of the process.
\<close>

theorem RenderTemplate_outside_state_counterexample:
  "fst (RenderTemplate demoFuncMap demoHost ''net: {{Subnet 1}}'' demoData MissingKeyError freshWorld)
     = RenderError ''parsing error: function Subnet not defined''
   \<and> fst (RenderTemplate (fst (AddRenderingFunction ''Subnet'' helper_GetSubnet24 (demoFuncMap, freshWorld)))
          demoHost ''net: {{Subnet 1}}'' demoData MissingKeyError freshWorld)
     = Rendered ''net: 1.0.1.0/24''
   \<and> clock (demoHost\<lparr>environ := [''GC'' \<mapsto> ''false'']\<rparr>) = clock demoHost
   \<and> fst (RenderTemplate demoFuncMap demoHost ''gc: {{env `GC`}}'' demoData MissingKeyError freshWorld)
     = Rendered ''gc: true''
   \<and> fst (RenderTemplate demoFuncMap (demoHost\<lparr>environ := [''GC'' \<mapsto> ''false'']\<rparr>)
          ''gc: {{env `GC`}}'' demoData MissingKeyError freshWorld)
     = Rendered ''gc: false''"
  unfolding render_before_registration render_after_registration render_env_true render_env_false
  by simp

text \<open>The exception the claim makes: a helper that reads the clock.\<close>

lemma clock_helper_differs:
  "fst (RenderTemplate demoFuncMap \<lparr>clock = 7, environ = Map.empty\<rparr> ''t: {{now}}'' demoData
          MissingKeyError freshWorld) = Rendered ''t: 7''
   \<and> fst (RenderTemplate demoFuncMap \<lparr>clock = 8, environ = Map.empty\<rparr> ''t: {{now}}'' demoData
          MissingKeyError freshWorld) = Rendered ''t: 8''"
  by (simp add: tmpl_defs)

end
